(* ===== verification/Prelude.thy ===== *)
theory Prelude
  imports Main "HOL-Library.Word"
begin

text \<open>
  Shared vocabulary of the development: Go's error values with
  \<^verbatim>\<open>errors.Is\<close>, the outcome of a Go call that may also block or panic,
  machine types, association lists standing for Go maps, and the generic list
  lemmas that the component theories use.
\<close>

section \<open>Machine types\<close>

type_synonym byte = "8 word"
type_synonym uint64 = "64 word"

lemma unat_of_nat_uint64: "n < 2 ^ 64 \<Longrightarrow> unat (of_nat n :: uint64) = n"
  by (simp add: unsigned_of_nat take_bit_nat_eq_self)

text \<open>
  A \<^verbatim>\<open>time.Time\<close> is a number of nanoseconds since Go's zero time, so the zero value
  of a \<^verbatim>\<open>time.Time\<close> field is 0; a \<^verbatim>\<open>time.Duration\<close> is a number of
  nanoseconds.
\<close>

type_synonym gotime = int
type_synonym duration = int

definition second :: duration where
  "second = 1000000000"

section \<open>Errors\<close>

text \<open>
  The errors of the program. \<open>ErrMsg\<close> is an anonymous \<^verbatim>\<open>errors.New\<close> or
  \<^verbatim>\<open>fmt.Errorf\<close> without a wrapped error, \<open>Wrapped\<close> is \<^verbatim>\<open>fmt.Errorf\<close> with
  \<^verbatim>\<open>%w\<close>, \<open>Permanent\<close> is the backoff package's \<^verbatim>\<open>PermanentError\<close>. The
  package-level error variables of the program are constructors of their own.
\<close>

datatype error =
    ErrMsg string
  | Wrapped string error
  | Permanent error
  | ErrUnknownType
  | ErrReadonly
  | ErrInvalidOpType
  | ErrHorizon
  | ErrOutOfSequence
  | ErrRollback
  | ErrURL string
  | ErrDNS string
  | ErrCanceled

text \<open>
  \<^verbatim>\<open>errors.Is\<close> for a sentinel target: it compares the error and everything it wraps
  with the target. An anonymous error is a fresh pointer, so it is only ever compared with
  sentinels here.
\<close>

fun errors_Is :: "error \<Rightarrow> error \<Rightarrow> bool" where
  "errors_Is (Wrapped m e) t = (Wrapped m e = t \<or> errors_Is e t)"
| "errors_Is (Permanent e) t = (Permanent e = t \<or> errors_Is e t)"
| "errors_Is e t = (e = t)"

section \<open>Outcomes of Go calls\<close>

text \<open>
  A call returns a value, blocks forever on a channel unless another goroutine makes room,
  or panics.
\<close>

datatype 'a outcome = Returns 'a | Blocks | Panics string

type_synonym 'a result = "error + 'a"

text \<open>Case distinctions on what a call gave back.\<close>

lemmas call_splits = prod.splits outcome.splits sum.splits

text \<open>Facts that an operation keeps the invariant of what it works on.\<close>

named_theorems op_invs

fun err_of :: "'a result \<Rightarrow> error option" where
  "err_of (Inl e) = Some e"
| "err_of (Inr _) = None"

lemma err_of_None_iff [simp]: "err_of r = None \<longleftrightarrow> (\<exists>a. r = Inr a)"
  by (cases r) auto

lemma err_of_Some_iff [simp]: "err_of r = Some e \<longleftrightarrow> r = Inl e"
  by (cases r) auto

section \<open>Go maps as association lists\<close>

text \<open>
  A Go map is an association list with distinct keys; \<open>map_put\<close> is the assignment
  \<^verbatim>\<open>m[k] = v\<close> and \<open>map_delete\<close> is \<^verbatim>\<open>delete(m, k)\<close>. Iteration order is
  not specified by the language, so functions that range over a map take the order as an
  argument where the result can depend on it.
\<close>

type_synonym ('k, 'v) gomap = "('k \<times> 'v) list"

fun map_put :: "'k \<Rightarrow> 'v \<Rightarrow> ('k, 'v) gomap \<Rightarrow> ('k, 'v) gomap" where
  "map_put k v [] = [(k, v)]"
| "map_put k v ((k', v') # m) = (if k' = k then (k, v) # m else (k', v') # map_put k v m)"

definition map_delete :: "'k \<Rightarrow> ('k, 'v) gomap \<Rightarrow> ('k, 'v) gomap" where
  "map_delete k m = filter (\<lambda>p. fst p \<noteq> k) m"

lemma map_of_map_put [simp]: "map_of (map_put k v m) = (map_of m)(k \<mapsto> v)"
  by (induction m) auto

lemma map_of_map_delete [simp]: "map_of (map_delete k m) = (map_of m)(k := None)"
  by (induction m) (auto simp: map_delete_def)

lemma map_put_keys: "fst ` set (map_put k v m) = insert k (fst ` set m)"
  by (induction k v m rule: map_put.induct) (simp_all, blast)

lemma map_delete_keys: "fst ` set (map_delete k m) = fst ` set m - {k}"
  by (auto simp: map_delete_def)

lemma distinct_map_put: "distinct (map fst m) \<Longrightarrow> distinct (map fst (map_put k v m))"
  by (induction m) (auto simp: map_put_keys image_iff)

lemma distinct_map_delete: "distinct (map fst m) \<Longrightarrow> distinct (map fst (map_delete k m))"
  by (auto simp: map_delete_def distinct_map_filter)

end
