(* ===== verification/Go_Strings.thy ===== *)
theory Go_Strings
  imports Prelude
begin

text \<open>
  The parts of Go's \<^verbatim>\<open>strings\<close> and \<^verbatim>\<open>strconv\<close> packages that the program
  calls: splitting and joining on a one-character separator, prefixes and suffixes,
  and integers in base 10 and 16. Strings are lists of bytes, as in Go.
\<close>

section \<open>Splitting and joining\<close>

text \<open>\<^verbatim>\<open>strings.Split(s, sep)\<close> for a separator of one byte.\<close>

fun strings_Split :: "char \<Rightarrow> string \<Rightarrow> string list" where
  "strings_Split c [] = [[]]"
| "strings_Split c (x # xs) =
     (if x = c then [] # strings_Split c xs
      else (case strings_Split c xs of [] \<Rightarrow> [[x]] | y # ys \<Rightarrow> (x # y) # ys))"

text \<open>\<^verbatim>\<open>strings.Cut(s, sep)\<close>: the text before and after the first separator.\<close>

fun strings_Cut :: "char \<Rightarrow> string \<Rightarrow> string \<times> string \<times> bool" where
  "strings_Cut c [] = ([], [], False)"
| "strings_Cut c (x # xs) =
     (if x = c then ([], xs, True)
      else (case strings_Cut c xs of (a, b, ok) \<Rightarrow> (x # a, b, ok)))"

text \<open>\<^verbatim>\<open>strings.SplitN(s, sep, 2)\<close>.\<close>

definition strings_SplitN2 :: "char \<Rightarrow> string \<Rightarrow> string list" where
  "strings_SplitN2 c s = (case strings_Cut c s of (a, b, ok) \<Rightarrow> if ok then [a, b] else [s])"

fun strings_Join :: "string list \<Rightarrow> string \<Rightarrow> string" where
  "strings_Join [] sep = []"
| "strings_Join [x] sep = x"
| "strings_Join (x # y # ys) sep = x @ sep @ strings_Join (y # ys) sep"

definition strings_HasPrefix :: "string \<Rightarrow> string \<Rightarrow> bool" where
  "strings_HasPrefix s p = (take (length p) s = p)"

definition strings_HasSuffix :: "string \<Rightarrow> string \<Rightarrow> bool" where
  "strings_HasSuffix s p = strings_HasPrefix (rev s) (rev p)"

definition strings_TrimPrefix :: "string \<Rightarrow> string \<Rightarrow> string" where
  "strings_TrimPrefix s p = (if strings_HasPrefix s p then drop (length p) s else s)"

definition strings_Contains :: "string \<Rightarrow> char \<Rightarrow> bool" where
  "strings_Contains s c = (c \<in> set s)"

lemma strings_Split_not_Nil [simp]: "strings_Split c s \<noteq> []"
  by (induction s) (auto split: list.splits)

lemma strings_Join_Cons:
  "ys \<noteq> [] \<Longrightarrow> strings_Join (x # ys) sep = x @ sep @ strings_Join ys sep"
  by (cases ys) auto

lemma strings_Join_Split: "strings_Join (strings_Split c s) [c] = s"
proof (induction s)
  case (Cons x xs)
  show ?case
  proof (cases "strings_Split c xs")
    case (Cons y ys)
    with \<open>strings_Join (strings_Split c xs) [c] = xs\<close> show ?thesis
      by (cases ys) auto
  qed simp
qed simp

lemma strings_Split_append:
  "c \<notin> set a \<Longrightarrow> strings_Split c (a @ c # b) = a # strings_Split c b"
  by (induction a) auto

lemma strings_Split_no_sep: "c \<notin> set a \<Longrightarrow> strings_Split c a = [a]"
  by (induction a) auto

lemma strings_Split_Join:
  "xs \<noteq> [] \<Longrightarrow> \<forall>x\<in>set xs. c \<notin> set x \<Longrightarrow> strings_Split c (strings_Join xs [c]) = xs"
  by (induction xs "[c]" rule: strings_Join.induct)
    (auto simp: strings_Split_append strings_Split_no_sep)

lemma strings_Cut_append:
  "c \<notin> set a \<Longrightarrow> strings_Cut c (a @ c # b) = (a, b, True)"
  by (induction a) auto

lemma strings_Cut_no_sep: "c \<notin> set a \<Longrightarrow> strings_Cut c a = (a, [], False)"
  by (induction a) auto

lemma strings_SplitN2_append: "c \<notin> set a \<Longrightarrow> strings_SplitN2 c (a @ c # b) = [a, b]"
  by (simp add: strings_SplitN2_def strings_Cut_append)

lemma strings_Cut_sep: "strings_Cut c s = (a, b, ok) \<Longrightarrow> ok \<longleftrightarrow> c \<in> set s"
  by (induction s arbitrary: a b ok) (auto split: if_splits prod.splits)

lemma strings_SplitN2_pair:
  "(\<exists>a b. strings_SplitN2 c s = [a, b]) \<longleftrightarrow> c \<in> set s"
  by (auto simp: strings_SplitN2_def split: prod.splits dest: strings_Cut_sep)

section \<open>Integers in text\<close>

definition digit_char :: "nat \<Rightarrow> char" where
  "digit_char d = (if d < 10 then char_of (48 + d) else char_of (87 + d))"

definition digit_val :: "char \<Rightarrow> nat option" where
  "digit_val c = (let n = of_char c :: nat in
     if 48 \<le> n \<and> n \<le> 57 then Some (n - 48)
     else if 97 \<le> n \<and> n \<le> 122 then Some (n - 87)
     else if 65 \<le> n \<and> n \<le> 90 then Some (n - 55)
     else None)"

text \<open>\<^verbatim>\<open>strconv.FormatUint(n, b)\<close>.\<close>

fun FormatUint :: "nat \<Rightarrow> nat \<Rightarrow> string" where
  "FormatUint b n =
     (if b < 2 \<or> n < b then [digit_char n] else FormatUint b (n div b) @ [digit_char (n mod b)])"

declare FormatUint.simps [simp del]

text \<open>
  The digit loop of \<^verbatim>\<open>strconv.ParseUint(s, b, 64)\<close>: a character that is not a digit of
  the base is a syntax error, a value over 64 bits is a range error.
\<close>

definition ErrSyntax :: error where
  "ErrSyntax = ErrMsg ''invalid syntax''"

definition ErrRange :: error where
  "ErrRange = ErrMsg ''value out of range''"

fun parse_digits :: "nat \<Rightarrow> nat \<Rightarrow> nat \<Rightarrow> string \<Rightarrow> nat result" where
  "parse_digits lim b acc [] = Inr acc"
| "parse_digits lim b acc (c # cs) =
     (case digit_val c of
        None \<Rightarrow> Inl ErrSyntax
      | Some d \<Rightarrow>
          if b \<le> d then Inl ErrSyntax
          else if lim \<le> acc * b + d then Inl ErrRange
          else parse_digits lim b (acc * b + d) cs)"

definition ParseUint :: "string \<Rightarrow> nat \<Rightarrow> nat result" where
  "ParseUint s b = (if s = [] then Inl ErrSyntax else parse_digits (2 ^ 64) b 0 s)"

text \<open>
  \<^verbatim>\<open>strconv.Atoi\<close>, whose callers here drop the error: a syntax error yields 0 and a
  value out of the range of \<^verbatim>\<open>int\<close> yields the nearest bound.
\<close>

definition Atoi_value :: "string \<Rightarrow> int" where
  "Atoi_value s =
     (let neg = (case s of c # _ \<Rightarrow> c = CHR ''-'' | [] \<Rightarrow> False);
          ds = (case s of c # cs \<Rightarrow> if c = CHR ''-'' \<or> c = CHR ''+'' then cs else s | [] \<Rightarrow> [])
      in case ParseUint ds 10 of
           Inl e \<Rightarrow> if e = ErrRange then (if neg then - (2 ^ 63) else 2 ^ 63 - 1) else 0
         | Inr n \<Rightarrow>
             if neg then (if n \<le> 2 ^ 63 then - int n else - (2 ^ 63))
             else (if n < 2 ^ 63 then int n else 2 ^ 63 - 1))"

lemma digit_val_digit_char: "d < 36 \<Longrightarrow> digit_val (digit_char d) = Some d"
  by (auto simp: digit_val_def digit_char_def Let_def)

lemma FormatUint_not_Nil [simp]: "FormatUint b n \<noteq> []"
  by (subst FormatUint.simps) simp

lemma parse_digits_snoc:
  "parse_digits lim b acc (xs @ [c]) =
     (case parse_digits lim b acc xs of Inl e \<Rightarrow> Inl e
      | Inr m \<Rightarrow> parse_digits lim b m [c])"
  by (induction xs arbitrary: acc) (auto split: option.splits)

lemma parse_digits_FormatUint:
  "2 \<le> b \<Longrightarrow> b \<le> 36 \<Longrightarrow> n < lim \<Longrightarrow> parse_digits lim b 0 (FormatUint b n) = Inr n"
proof (induction b n rule: FormatUint.induct)
  case (1 b n)
  show ?case
  proof (cases "n < b")
    case True
    with "1.prems" show ?thesis
      by (simp add: FormatUint.simps [of b n] digit_val_digit_char)
  next
    case False
    have "n div b \<le> n" by simp
    with "1.prems" have "n div b < lim" by linarith
    with False "1.prems" have IH: "parse_digits lim b 0 (FormatUint b (n div b)) = Inr (n div b)"
      by (intro "1.IH") auto
    have mod: "n mod b < b" using "1.prems" by simp
    with "1.prems" have "digit_val (digit_char (n mod b)) = Some (n mod b)"
      by (intro digit_val_digit_char) linarith
    with mod False IH "1.prems" show ?thesis
      by (simp add: FormatUint.simps [of b n] parse_digits_snoc not_le)
  qed
qed

lemma ParseUint_FormatUint:
  "2 \<le> b \<Longrightarrow> b \<le> 36 \<Longrightarrow> n < 2 ^ 64 \<Longrightarrow> ParseUint (FormatUint b n) b = Inr n"
  by (simp add: ParseUint_def parse_digits_FormatUint)

lemma parse_digits_bound: "parse_digits lim b acc s = Inr n \<Longrightarrow> acc < lim \<Longrightarrow> n < lim"
  by (induction lim b acc s rule: parse_digits.induct) (auto split: option.splits if_splits)

lemma ParseUint_bound: "ParseUint s b = Inr n \<Longrightarrow> n < 2 ^ 64"
  by (auto simp: ParseUint_def split: if_splits dest: parse_digits_bound)

lemma digit_char_range: "d < 10 \<Longrightarrow> of_char (digit_char d) = (48 + d :: nat)"
  by (simp add: digit_char_def)

lemma FormatUint_10_digits: "\<forall>c\<in>set (FormatUint 10 n). c \<in> digit_char ` {..<10}"
proof (induction "10::nat" n rule: FormatUint.induct)
  case (1 n)
  then show ?case
    by (cases "n < 10") (auto simp: FormatUint.simps [of 10 n])
qed

end
