(* ===== verification/Sqlite.thy ===== *)
theory Sqlite
  imports Go_Strings
begin

text \<open>
  Transactions and schema migrations (\<^verbatim>\<open>datastore/sqlite/sqlite.go\<close>).

  The database engine is seen through the statements the program issues. Whether the engine
  fails a \<^verbatim>\<open>BEGIN\<close>, a \<^verbatim>\<open>COMMIT\<close> or a statement for a reason of its own (a busy
  database, an I/O error) is decided by an environment \<open>sqlenv\<close>, given as an argument, so
  that theorems can speak of every such failure.

  A transaction body works on the durable database and on the memory of the process; a
  rollback restores the former only.
\<close>

record sqlenv =
  begin_err :: "error option"
  commit_err :: "error option"
  stmt_err :: "string \<Rightarrow> error option"

definition sql_ok :: sqlenv where
  "sql_ok = \<lparr>begin_err = None, commit_err = None, stmt_err = (\<lambda>_. None)\<rparr>"

lemma sql_ok_simps [simp]:
  "begin_err sql_ok = None" "commit_err sql_ok = None" "stmt_err sql_ok s = None"
  by (simp_all add: sql_ok_def)

definition run_stmt :: "sqlenv \<Rightarrow> string \<Rightarrow> 'a result \<Rightarrow> 'a result" where
  "run_stmt env sql r = (case stmt_err env sql of Some e \<Rightarrow> Inl e | None \<Rightarrow> r)"

lemma run_stmt_ok [simp]: "run_stmt sql_ok sql r = r"
  by (simp add: run_stmt_def)

lemma run_stmt_Inr [simp]:
  "run_stmt env sql r = Inr a \<longleftrightarrow> stmt_err env sql = None \<and> r = Inr a"
  by (auto simp: run_stmt_def split: option.splits)

section \<open>Transactions\<close>

type_synonym ('d, 'm, 'a) txbody = "'d \<times> 'm \<Rightarrow> 'a result outcome \<times> ('d \<times> 'm)"

text \<open>
  \<^verbatim>\<open>WithTx\<close>: the body's changes to the database become durable only when it returns no
  error and the commit succeeds. A body that blocks or panics leaves the transaction open,
  hence uncommitted.
\<close>

definition WithTx :: "sqlenv \<Rightarrow> ('d, 'm, 'a) txbody \<Rightarrow> ('d, 'm, 'a) txbody" where
  "WithTx env f s =
     (case begin_err env of
        Some e \<Rightarrow> (Returns (Inl e), s)
      | None \<Rightarrow>
          (case f s of
             (Returns (Inl e), (d', m')) \<Rightarrow> (Returns (Inl e), (fst s, m'))
           | (Returns (Inr a), (d', m')) \<Rightarrow>
               (case commit_err env of
                  Some e \<Rightarrow> (Returns (Inl e), (fst s, m'))
                | None \<Rightarrow> (Returns (Inr a), (d', m')))
           | (Blocks, (d', m')) \<Rightarrow> (Blocks, (fst s, m'))
           | (Panics p, (d', m')) \<Rightarrow> (Panics p, (fst s, m'))))"

lemma WithTx_rollback:
  "WithTx env f s = (r, s') \<Longrightarrow> \<not> (\<exists>a. r = Returns (Inr a)) \<Longrightarrow> fst s' = fst s"
  by (auto simp: WithTx_def split: call_splits option.splits)

lemma WithTx_success:
  "WithTx env f s = (Returns (Inr a), s') \<longleftrightarrow>
     begin_err env = None \<and> commit_err env = None \<and> f s = (Returns (Inr a), s')"
  by (auto simp: WithTx_def split: call_splits option.splits)

lemma WithTx_ErrRollback:
  "f s = (Returns (Inl ErrRollback), s') \<Longrightarrow> begin_err env = None \<Longrightarrow>
   WithTx env f s = (Returns (Inl ErrRollback), (fst s, snd s'))"
  by (simp add: WithTx_def split: prod.splits)

section \<open>Migrations\<close>

text \<open>
  A migration is a list of statements, run by \<^verbatim>\<open>Statement\<close> in order up to the first error.
  What a statement does to the schema is the argument \<open>exec\<close>.
\<close>

fun Statement :: "('q \<Rightarrow> 'd \<Rightarrow> 'd result) \<Rightarrow> 'q list \<Rightarrow> 'd \<Rightarrow> 'd result" where
  "Statement exec [] d = Inr d"
| "Statement exec (q # qs) d = (case exec q d of Inl e \<Rightarrow> Inl e | Inr d' \<Rightarrow> Statement exec qs d')"

fun run_migrations :: "('q \<Rightarrow> 'd \<Rightarrow> 'd result) \<Rightarrow> nat \<Rightarrow> 'q list list \<Rightarrow> 'd \<Rightarrow> 'd result" where
  "run_migrations exec i [] d = Inr d"
| "run_migrations exec i (q # qs) d =
     (case Statement exec q d of
        Inl e \<Rightarrow> Inl (Wrapped (''migration to version '' @ FormatUint 10 (i + 1) @ '' failed'') e)
      | Inr d' \<Rightarrow> run_migrations exec (Suc i) qs d')"

definition too_new :: error where
  "too_new = ErrMsg ''database is more recent than this binary understands''"

text \<open>
  The database is its \<^verbatim>\<open>user_version\<close> and its content. A negative version, which the
  program never writes, makes the slice expression panic.
\<close>

definition migrate_body :: "sqlenv \<Rightarrow> ('q \<Rightarrow> 'd \<Rightarrow> 'd result) \<Rightarrow> 'q list list \<Rightarrow>
    (int \<times> 'd, unit, unit) txbody" where
  "migrate_body env exec migrations = (\<lambda>((idx, d), u).
     case run_stmt env ''PRAGMA user_version'' (Inr idx) of
       Inl e \<Rightarrow> (Returns (Inl (Wrapped ''getting latest applied migration'' e)), ((idx, d), u))
     | Inr idx \<Rightarrow>
         if idx = int (length migrations) then (Returns (Inr ()), ((idx, d), u))
         else if int (length migrations) < idx then (Returns (Inl too_new), ((idx, d), u))
         else if idx < 0 then (Panics ''slice bounds out of range'', ((idx, d), u))
         else
           (case run_migrations exec 0 (drop (nat idx) migrations) d of
              Inl e \<Rightarrow> (Returns (Inl e), ((idx, d), u))
            | Inr d' \<Rightarrow>
                if 0 < length migrations then
                  (case run_stmt env ''PRAGMA user_version='' (Inr ()) of
                     Inl e \<Rightarrow> (Returns (Inl (Wrapped ''recording new DB version'' e)), ((idx, d'), u))
                   | Inr _ \<Rightarrow> (Returns (Inr ()), ((int (length migrations), d'), u)))
                else (Returns (Inr ()), ((idx, d'), u))))"

definition migrate :: "sqlenv \<Rightarrow> ('q \<Rightarrow> 'd \<Rightarrow> 'd result) \<Rightarrow> 'q list list \<Rightarrow>
    int \<times> 'd \<Rightarrow> unit result outcome \<times> (int \<times> 'd)" where
  "migrate env exec migrations db =
     (case WithTx env (migrate_body env exec migrations) (db, ()) of (r, (db', _)) \<Rightarrow> (r, db'))"

definition sqlite_params :: string where
  "sqlite_params = ''?cache=shared&_busy_timeout=10000&_foreign_keys=on&_journal=WAL''"

definition OpenDB_uri :: "string \<Rightarrow> string" where
  "OpenDB_uri dburi = (if \<not> strings_Contains dburi CHR ''?'' then dburi @ sqlite_params else dburi)"

definition OpenDB :: "sqlenv \<Rightarrow> (string \<Rightarrow> (int \<times> 'd) result) \<Rightarrow> ('q \<Rightarrow> 'd \<Rightarrow> 'd result) \<Rightarrow>
    string \<Rightarrow> 'q list list \<Rightarrow> (int \<times> 'd) result outcome" where
  "OpenDB env sqlx_Open exec dburi migrations =
     (case sqlx_Open (OpenDB_uri dburi) of
        Inl e \<Rightarrow> Returns (Inl e)
      | Inr db \<Rightarrow>
          (case migrate env exec migrations db of
             (Returns (Inl e), _) \<Rightarrow> Returns (Inl e)
           | (Returns (Inr _), db') \<Rightarrow> Returns (Inr db')
           | (Blocks, _) \<Rightarrow> Blocks
           | (Panics p, _) \<Rightarrow> Panics p))"

lemma run_migrations_concat:
  "run_migrations exec i qs d = Inr d' \<Longrightarrow> Statement exec (concat qs) d = Inr d'"
proof (induction exec i qs d rule: run_migrations.induct)
  case (2 exec i q qs d)
  have app: "Statement exec xs d0 = Inr d1 \<Longrightarrow>
      Statement exec (xs @ ys) d0 = Statement exec ys d1" for xs ys d0 d1
    by (induction xs arbitrary: d0) (auto split: sum.splits)
  from 2 show ?case by (auto split: sum.splits simp: app)
qed simp

lemma migrate_current:
  "begin_err env = None \<Longrightarrow> commit_err env = None \<Longrightarrow> stmt_err env ''PRAGMA user_version'' = None \<Longrightarrow>
   migrate env exec migrations (int (length migrations), d) =
     (Returns (Inr ()), (int (length migrations), d))"
  by (simp add: migrate_def migrate_body_def WithTx_def run_stmt_def)

lemma migrate_failed_unchanged:
  "migrate env exec migrations db = (r, db') \<Longrightarrow> r \<noteq> Returns (Inr ()) \<Longrightarrow> db' = db"
  by (auto simp: migrate_def split: prod.splits dest!: WithTx_rollback)

lemma migrate_success:
  assumes "migrate env exec migrations (v, d) = (Returns (Inr ()), db')" "migrations \<noteq> []"
  shows "\<exists>d'. db' = (int (length migrations), d') \<and>
    Statement exec (concat (drop (nat v) migrations)) d = Inr d'"
proof -
  from assms(1) have "migrate_body env exec migrations ((v, d), ()) = (Returns (Inr ()), (db', ()))"
    by (auto simp: migrate_def WithTx_success split: prod.splits)
  then show ?thesis
    using assms(2)
    by (auto simp: migrate_body_def split: sum.splits if_splits dest: run_migrations_concat)
qed

end
