(* ===== verification/Go_Net.thy ===== *)
theory Go_Net
  imports Go_Strings
begin

text \<open>
  The parts of Go's \<^verbatim>\<open>net\<close> package (Go 1.19, the version of the module file) that the
  program calls: addresses and masks as byte slices, networks, and their textual form.
  A nil slice is the empty list: no operation below produces a non-nil empty slice.
\<close>

unbundle bit_operations_syntax

type_synonym IP = "byte list"
type_synonym IPMask = "byte list"

record IPNet =
  net_IP :: IP
  net_Mask :: IPMask

section \<open>Addresses and masks\<close>

definition v4InV6Prefix :: "byte list" where
  "v4InV6Prefix = [0, 0, 0, 0, 0, 0, 0, 0, 0, 0, 0xff, 0xff]"

text \<open>\<^verbatim>\<open>net.IPv4(a, b, c, d)\<close> is the 16-byte form.\<close>

definition net_IPv4 :: "byte \<Rightarrow> byte \<Rightarrow> byte \<Rightarrow> byte \<Rightarrow> IP" where
  "net_IPv4 a b c d = v4InV6Prefix @ [a, b, c, d]"

definition IP_To4 :: "IP \<Rightarrow> IP option" where
  "IP_To4 ip =
     (if length ip = 4 then Some ip
      else if length ip = 16 \<and> take 12 ip = v4InV6Prefix then Some (drop 12 ip)
      else None)"

text \<open>One byte of a mask: \<open>k\<close> one bits followed by zeros.\<close>

definition ones_byte :: "nat \<Rightarrow> byte" where
  "ones_byte k = NOT (drop_bit k 0xff)"

fun mask_bytes :: "nat \<Rightarrow> nat \<Rightarrow> IPMask" where
  "mask_bytes n 0 = []"
| "mask_bytes n (Suc l) =
     (if 8 \<le> n then 0xff # mask_bytes (n - 8) l else ones_byte n # mask_bytes 0 l)"

text \<open>\<^verbatim>\<open>net.CIDRMask(ones, bits)\<close>: nil unless \<open>bits\<close> is 32 or 128 and \<open>ones\<close> fits.\<close>

definition CIDRMask :: "nat \<Rightarrow> nat \<Rightarrow> IPMask" where
  "CIDRMask n bits =
     (if (bits = 32 \<or> bits = 128) \<and> n \<le> bits then mask_bytes n (bits div 8) else [])"

text \<open>The number of leading ones of a mask, nothing if a zero bit is followed by a one.\<close>

fun simpleMaskLength :: "IPMask \<Rightarrow> nat option" where
  "simpleMaskLength [] = Some 0"
| "simpleMaskLength (v # vs) =
     (if v = 0xff then map_option (\<lambda>n. n + 8) (simpleMaskLength vs)
      else if list_all (\<lambda>b. b = 0) vs then find (\<lambda>k. ones_byte k = v) [0..<8]
      else None)"

definition IPMask_Size :: "IPMask \<Rightarrow> nat \<times> nat" where
  "IPMask_Size m = (case simpleMaskLength m of None \<Rightarrow> (0, 0) | Some n \<Rightarrow> (n, length m * 8))"

definition networkNumberAndMask :: "IPNet \<Rightarrow> (IP \<times> IPMask) option" where
  "networkNumberAndMask n =
     (let ip' = (case IP_To4 (net_IP n) of
                   Some x \<Rightarrow> Some x
                 | None \<Rightarrow> if length (net_IP n) = 16 then Some (net_IP n) else None);
          m = net_Mask n
      in case ip' of
           None \<Rightarrow> None
         | Some ip \<Rightarrow>
             if length m = 4 then (if length ip = 4 then Some (ip, m) else None)
             else if length m = 16 then Some (ip, if length ip = 4 then drop 12 m else m)
             else None)"

definition masked_eq :: "IPMask \<Rightarrow> IP \<Rightarrow> IP \<Rightarrow> bool" where
  "masked_eq m a b =
     list_all (\<lambda>i. (a ! i) AND (m ! i) = (b ! i) AND (m ! i)) [0..<length a]"

definition IPNet_Contains :: "IPNet \<Rightarrow> IP \<Rightarrow> bool" where
  "IPNet_Contains n ip =
     (let ip' = (case IP_To4 ip of Some x \<Rightarrow> x | None \<Rightarrow> ip)
      in case networkNumberAndMask n of
           None \<Rightarrow> ip' = []
         | Some (nn, m) \<Rightarrow> length ip' = length nn \<and> masked_eq m ip' nn)"

section \<open>Printing\<close>

definition byte_dec :: "byte \<Rightarrow> string" where
  "byte_dec b = FormatUint 10 (unat b)"

definition v4_String :: "IP \<Rightarrow> string" where
  "v4_String ip = strings_Join (map byte_dec ip) ''.''"

fun hextets :: "IP \<Rightarrow> nat list" where
  "hextets (a # b # rest) = (unat a * 256 + unat b) # hextets rest"
| "hextets _ = []"

definition zero_run :: "nat list \<Rightarrow> nat" where
  "zero_run xs = length (takeWhile (\<lambda>x. x = 0) xs)"

text \<open>The leftmost longest run of zero groups, as a start and a length.\<close>

fun best_run :: "nat \<Rightarrow> nat \<times> nat \<Rightarrow> nat list \<Rightarrow> nat \<times> nat" where
  "best_run i best [] = best"
| "best_run i best (x # xs) =
     (if snd best < zero_run (x # xs) then best_run (Suc i) (i, zero_run (x # xs)) xs
      else best_run (Suc i) best xs)"

definition v6_String :: "IP \<Rightarrow> string" where
  "v6_String ip =
     (let hs = hextets ip; (e0, l) = best_run 0 (0, 0) hs;
          hex = (\<lambda>xs. strings_Join (map (FormatUint 16) xs) '':'')
      in if l \<le> 1 then hex hs
         else hex (take e0 hs) @ ''::'' @ hex (drop (e0 + l) hs))"

definition hex_byte :: "byte \<Rightarrow> string" where
  "hex_byte b = [digit_char (unat b div 16), digit_char (unat b mod 16)]"

definition IP_String :: "IP \<Rightarrow> string" where
  "IP_String ip =
     (if ip = [] then ''<nil>''
      else case IP_To4 ip of
             Some p4 \<Rightarrow> v4_String p4
           | None \<Rightarrow> if length ip \<noteq> 16 then ''?'' @ concat (map hex_byte ip) else v6_String ip)"

definition IPNet_String :: "IPNet \<Rightarrow> string" where
  "IPNet_String n =
     (case networkNumberAndMask n of
        None \<Rightarrow> ''<nil>''
      | Some (nn, m) \<Rightarrow>
          IP_String nn @ ''/'' @
          (case simpleMaskLength m of
             None \<Rightarrow> concat (map hex_byte m)
           | Some l \<Rightarrow> FormatUint 10 l))"

section \<open>Parsing\<close>

text \<open>
  \<^verbatim>\<open>dtoi\<close> and \<^verbatim>\<open>xtoi\<close> read the digits at the start of a string and return the
  value and the rest; no digit, or a value of \<^verbatim>\<open>0xFFFFFF\<close> or more, is a failure.
\<close>

definition is_digit_of :: "nat \<Rightarrow> char \<Rightarrow> bool" where
  "is_digit_of b c = (case digit_val c of Some d \<Rightarrow> d < b | None \<Rightarrow> False)"

definition xtoi_base :: "nat \<Rightarrow> string \<Rightarrow> (nat \<times> string) option" where
  "xtoi_base b s =
     (let ds = takeWhile (is_digit_of b) s; rest = dropWhile (is_digit_of b) s
      in if ds = [] then None
         else case parse_digits 0xFFFFFF b 0 ds of Inl _ \<Rightarrow> None | Inr n \<Rightarrow> Some (n, rest))"

definition v4_octet :: "string \<Rightarrow> (byte \<times> string) option" where
  "v4_octet s =
     (case xtoi_base 10 s of
        None \<Rightarrow> None
      | Some (n, rest) \<Rightarrow>
          if 0xFF < n then None
          else if length s - length rest > 1 \<and> hd s = CHR ''0'' then None
          else Some (of_nat n, rest))"

fun v4_octets :: "nat \<Rightarrow> bool \<Rightarrow> string \<Rightarrow> (byte list \<times> string) option" where
  "v4_octets 0 first s = Some ([], s)"
| "v4_octets (Suc k) first s =
     (case s of
        [] \<Rightarrow> None
      | c # cs \<Rightarrow>
          if \<not> first \<and> c \<noteq> CHR ''.'' then None
          else (case v4_octet (if first then s else cs) of
                  None \<Rightarrow> None
                | Some (b, rest) \<Rightarrow>
                    (case v4_octets k False rest of
                       None \<Rightarrow> None
                     | Some (bs, rest') \<Rightarrow> Some (b # bs, rest'))))"

definition parseIPv4 :: "string \<Rightarrow> IP option" where
  "parseIPv4 s =
     (case v4_octets 4 True s of
        Some ([a, b, c, d], []) \<Rightarrow> Some (net_IPv4 a b c d)
      | _ \<Rightarrow> None)"

text \<open>
  The loop of \<^verbatim>\<open>parseIPv6\<close>: \<open>out\<close> holds the bytes written so far and \<open>ell\<close> the
  position of the ellipsis; the result also holds the text left over.
\<close>

function v6_loop :: "IP \<Rightarrow> nat option \<Rightarrow> string \<Rightarrow> (IP \<times> nat option \<times> string) option" where
  "v6_loop out ell s =
     (if 16 \<le> length out then Some (out, ell, s)
      else case xtoi_base 16 s of
        None \<Rightarrow> None
      | Some (n, rest) \<Rightarrow>
          if 0xFFFF < n then None
          else if rest \<noteq> [] \<and> hd rest = CHR ''.'' then
            (if ell = None \<and> length out \<noteq> 12 then None
             else if 16 < length out + 4 then None
             else (case parseIPv4 s of
                     None \<Rightarrow> None
                   | Some ip4 \<Rightarrow> Some (out @ drop 12 ip4, ell, [])))
          else
            (let out' = out @ [of_nat (n div 256), of_nat (n mod 256)]
             in case rest of
                  [] \<Rightarrow> Some (out', ell, [])
                | c # cs \<Rightarrow>
                    if c \<noteq> CHR '':'' \<or> cs = [] then None
                    else if hd cs = CHR '':'' then
                      (if ell \<noteq> None then None
                       else if tl cs = [] then Some (out', Some (length out'), [])
                       else v6_loop out' (Some (length out')) (tl cs))
                    else v6_loop out' ell cs))"
  by pat_completeness auto
termination
  by (relation "measure (\<lambda>(out, ell, s). 16 - length out)") auto

declare v6_loop.simps [simp del]

definition parseIPv6 :: "string \<Rightarrow> IP option" where
  "parseIPv6 s =
     (let lead = strings_HasPrefix s ''::''; s' = (if lead then drop 2 s else s)
      in if lead \<and> s' = [] then Some (replicate 16 0)
         else case v6_loop [] (if lead then Some 0 else None) s' of
                Some (out, ell, []) \<Rightarrow>
                  if length out < 16 then
                    (case ell of
                       None \<Rightarrow> None
                     | Some e \<Rightarrow> Some (take e out @ replicate (16 - length out) 0 @ drop e out))
                  else if ell \<noteq> None then None else Some out
              | _ \<Rightarrow> None)"

text \<open>
  \<^verbatim>\<open>net.ParseCIDR\<close>, as the pair of the address (in 16-byte form) and the mask of the
  network, which is all its caller uses.
\<close>

definition net_ParseCIDR :: "string \<Rightarrow> (IP \<times> IPMask) result" where
  "net_ParseCIDR s =
     (case strings_Cut CHR ''/'' s of (addr, msk, ok) \<Rightarrow>
        if \<not> ok then Inl (ErrMsg ''invalid CIDR address'')
        else
          (let v4 = parseIPv4 addr;
               iplen = (if v4 = None then 16 else 4);
               ip = (if v4 = None then parseIPv6 addr else v4)
           in case (ip, xtoi_base 10 msk) of
                (Some a, Some (n, [])) \<Rightarrow>
                  if n \<le> 8 * iplen then Inr (a, CIDRMask n (8 * iplen))
                  else Inl (ErrMsg ''invalid CIDR address'')
              | _ \<Rightarrow> Inl (ErrMsg ''invalid CIDR address'')))"

section \<open>Masks: printing gives back the prefix length\<close>

lemma ones_byte_eval:
  "ones_byte 0 = 0" "ones_byte 1 = 128" "ones_byte (Suc 0) = 128" "ones_byte 2 = 192" "ones_byte 3 = 224"
  "ones_byte 4 = 240" "ones_byte 5 = 248" "ones_byte 6 = 252" "ones_byte 7 = 254"
  by (simp_all add: ones_byte_def)

lemma less_8_cases: "n < 8 \<Longrightarrow> n \<in> {0, 1, 2, 3, 4, 5, 6, 7 :: nat}"
  by auto

lemma ones_byte_not_ff: "n < 8 \<Longrightarrow> ones_byte n \<noteq> 0xff"
  by (drule less_8_cases) (auto simp: ones_byte_eval)

lemma upt_8: "[0..<8] = [0, 1, 2, 3, 4, 5, 6, 7 :: nat]"
  by code_simp

lemma find_ones_byte: "n < 8 \<Longrightarrow> find (\<lambda>k. ones_byte k = ones_byte n) [0..<8] = Some n"
  by (drule less_8_cases) (auto simp: ones_byte_eval upt_8)

lemma mask_bytes_0: "mask_bytes 0 l = replicate l 0"
  by (induction l) (auto simp: ones_byte_eval)

lemma length_mask_bytes [simp]: "length (mask_bytes n l) = l"
  by (induction n l rule: mask_bytes.induct) auto

lemma simpleMaskLength_mask_bytes: "n \<le> 8 * l \<Longrightarrow> simpleMaskLength (mask_bytes n l) = Some n"
proof (induction n l rule: mask_bytes.induct)
  case (2 n l)
  show ?case
  proof (cases "8 \<le> n")
    case True
    with 2 show ?thesis by simp
  next
    case False
    then show ?thesis
      by (simp add: ones_byte_not_ff find_ones_byte mask_bytes_0 list_all_iff)
  qed
qed simp

lemma length_CIDRMask [simp]:
  "n \<le> 32 \<Longrightarrow> length (CIDRMask n 32) = 4" "n \<le> 128 \<Longrightarrow> length (CIDRMask n 128) = 16"
  by (simp_all add: CIDRMask_def)

lemma simpleMaskLength_CIDRMask [simp]:
  "n \<le> 32 \<Longrightarrow> simpleMaskLength (CIDRMask n 32) = Some n"
  "n \<le> 128 \<Longrightarrow> simpleMaskLength (CIDRMask n 128) = Some n"
  by (simp_all add: CIDRMask_def simpleMaskLength_mask_bytes)

lemma IPMask_Size_CIDRMask [simp]:
  "n \<le> 32 \<Longrightarrow> IPMask_Size (CIDRMask n 32) = (n, 32)"
  "n \<le> 128 \<Longrightarrow> IPMask_Size (CIDRMask n 128) = (n, 128)"
  by (simp_all add: IPMask_Size_def)

section \<open>Numbers inside addresses\<close>

lemma is_digit_FormatUint:
  "2 \<le> b \<Longrightarrow> b \<le> 36 \<Longrightarrow> c \<in> set (FormatUint b n) \<Longrightarrow> is_digit_of b c"
proof (induction b n rule: FormatUint.induct)
  case (1 b n)
  show ?case
  proof (cases "n < b")
    case True
    with "1.prems" show ?thesis
      by (auto simp: FormatUint.simps [of b n] is_digit_of_def digit_val_digit_char)
  next
    case False
    have mod: "n mod b < b" using "1.prems" by simp
    with "1.prems" have "digit_val (digit_char (n mod b)) = Some (n mod b)"
      by (intro digit_val_digit_char) linarith
    with mod False "1" show ?thesis
      by (auto simp: FormatUint.simps [of b n] is_digit_of_def)
  qed
qed

lemma takeWhile_digits:
  "\<forall>c\<in>set ds. P c \<Longrightarrow> rest = [] \<or> \<not> P (hd rest) \<Longrightarrow>
   takeWhile P (ds @ rest) = ds \<and> dropWhile P (ds @ rest) = rest"
  by (cases rest) (auto simp: takeWhile_append dropWhile_append)

lemma xtoi_base_FormatUint:
  assumes "2 \<le> b" "b \<le> 36" "n < 0xFFFFFF" "rest = [] \<or> \<not> is_digit_of b (hd rest)"
  shows "xtoi_base b (FormatUint b n @ rest) = Some (n, rest)"
proof -
  have "takeWhile (is_digit_of b) (FormatUint b n @ rest) = FormatUint b n"
    "dropWhile (is_digit_of b) (FormatUint b n @ rest) = rest"
    using takeWhile_digits [of "FormatUint b n" "is_digit_of b" rest] assms
    by (auto simp: is_digit_FormatUint)
  then show ?thesis
    using assms by (simp add: xtoi_base_def Let_def parse_digits_FormatUint)
qed

lemma hd_FormatUint_nonzero: "2 \<le> b \<Longrightarrow> b \<le> 36 \<Longrightarrow> 0 < n \<Longrightarrow> hd (FormatUint b n) \<noteq> CHR ''0''"
proof (induction b n rule: FormatUint.induct)
  case (1 b n)
  show ?case
  proof (cases "n < b")
    case True
    have "digit_val CHR ''0'' = Some 0" by (simp add: digit_val_def)
    with True "1.prems" have "digit_char n \<noteq> CHR ''0''"
      using digit_val_digit_char [of n] by (cases n) auto
    with True show ?thesis by (simp add: FormatUint.simps [of b n])
  next
    case False
    with "1.prems" have "0 < n div b" by (simp add: div_greater_zero_iff)
    with False "1" show ?thesis by (simp add: FormatUint.simps [of b n])
  qed
qed

lemma length_FormatUint_small: "n < b \<Longrightarrow> length (FormatUint b n) = 1"
  by (simp add: FormatUint.simps)

lemma v4_octet_byte_dec:
  assumes "rest = [] \<or> \<not> is_digit_of 10 (hd rest)"
  shows "v4_octet (byte_dec x @ rest) = Some (x, rest)"
proof -
  have bound: "unat x < 256" using unsigned_less [of x] by simp
  then have "xtoi_base 10 (byte_dec x @ rest) = Some (unat x, rest)"
    using assms by (simp add: byte_dec_def xtoi_base_FormatUint)
  moreover have "hd (byte_dec x @ rest) = CHR ''0'' \<Longrightarrow> length (byte_dec x) = 1"
    using hd_FormatUint_nonzero [of 10 "unat x"] length_FormatUint_small [of "unat x" 10]
    by (cases "unat x = 0") (auto simp: byte_dec_def)
  ultimately show ?thesis
    using bound by (auto simp: v4_octet_def)
qed

lemma is_digit_dot [simp]: "\<not> is_digit_of 10 CHR ''.''"
  by (simp add: is_digit_of_def digit_val_def)

lemma byte_dec_Cons: "\<exists>c cs. byte_dec x @ s = c # cs"
  by (cases "byte_dec x") (auto simp: byte_dec_def)

lemma v4_octets_first:
  assumes "rest = [] \<or> \<not> is_digit_of 10 (hd rest)"
  shows "v4_octets (Suc k) True (byte_dec x @ rest) =
    (case v4_octets k False rest of None \<Rightarrow> None | Some (bs, r) \<Rightarrow> Some (x # bs, r))"
proof -
  obtain c cs where "byte_dec x @ rest = c # cs" using byte_dec_Cons by blast
  with v4_octet_byte_dec [OF assms, of x] show ?thesis by simp
qed

lemma v4_octets_next:
  assumes "rest = [] \<or> \<not> is_digit_of 10 (hd rest)"
  shows "v4_octets (Suc k) False (CHR ''.'' # byte_dec x @ rest) =
    (case v4_octets k False rest of None \<Rightarrow> None | Some (bs, r) \<Rightarrow> Some (x # bs, r))"
  using v4_octet_byte_dec [OF assms, of x] by simp

lemma v4_octets_last: "v4_octets (Suc 0) False (CHR ''.'' # byte_dec x) = Some ([x], [])"
  using v4_octets_next [of "[]" 0 x] by simp

lemma four: "4 = Suc (Suc (Suc (Suc 0)))"
  by simp

lemma parseIPv4_String: "parseIPv4 (v4_String [a, b, c, d]) = Some (net_IPv4 a b c d)"
proof -
  have "v4_String [a, b, c, d] =
      byte_dec a @ CHR ''.'' # byte_dec b @ CHR ''.'' # byte_dec c @ CHR ''.'' # byte_dec d"
    by (simp add: v4_String_def)
  moreover have "v4_octets 4 True
      (byte_dec a @ CHR ''.'' # byte_dec b @ CHR ''.'' # byte_dec c @ CHR ''.'' # byte_dec d) =
      Some ([a, b, c, d], [])"
    unfolding four
    by (simp add: v4_octets_first v4_octets_next v4_octets_last del: v4_octets.simps(2))
  ultimately show ?thesis by (simp add: parseIPv4_def)
qed

lemma IP_To4_net_IPv4 [simp]: "IP_To4 (net_IPv4 a b c d) = Some [a, b, c, d]"
  by (simp add: IP_To4_def net_IPv4_def v4InV6Prefix_def)

lemma length_net_IPv4 [simp]: "length (net_IPv4 a b c d) = 16"
  by (simp add: net_IPv4_def v4InV6Prefix_def)

lemma net_IPv4_not_Nil [simp]: "net_IPv4 a b c d \<noteq> []"
  by (simp add: net_IPv4_def)

lemma v4_String_no_slash: "CHR ''/'' \<notin> set (v4_String ip)"
proof -
  have digit: "\<not> is_digit_of 10 CHR ''/''" by (simp add: is_digit_of_def digit_val_def)
  have "CHR ''/'' \<notin> set (strings_Join (map byte_dec ip) ''.'')"
  proof (induction ip)
    case (Cons x xs)
    have "CHR ''/'' \<notin> set (byte_dec x)"
      using digit is_digit_FormatUint [of 10] by (auto simp: byte_dec_def)
    with Cons show ?case by (cases xs) auto
  qed simp
  then show ?thesis by (simp add: v4_String_def)
qed

lemma IPNet_String_v4:
  assumes "n \<le> 32"
  shows "IPNet_String \<lparr>net_IP = net_IPv4 a b c d, net_Mask = CIDRMask n 32\<rparr> =
    v4_String [a, b, c, d] @ CHR ''/'' # FormatUint 10 n"
  using assms
  by (simp add: IPNet_String_def networkNumberAndMask_def IP_String_def IP_To4_def [of "[a, b, c, d]"])

lemma net_ParseCIDR_v4:
  assumes "n \<le> 32"
  shows "net_ParseCIDR (v4_String [a, b, c, d] @ CHR ''/'' # FormatUint 10 n) =
    Inr (net_IPv4 a b c d, CIDRMask n 32)"
proof -
  have "xtoi_base 10 (FormatUint 10 n @ []) = Some (n, [])"
    using assms by (intro xtoi_base_FormatUint) auto
  with assms show ?thesis
    by (simp add: net_ParseCIDR_def strings_Cut_append v4_String_no_slash parseIPv4_String)
qed

end
