(* ===== verification/Go_Net6.thy ===== *)
theory Go_Net6
  imports Go_Net
begin

text \<open>
  IPv6 addresses are read back from their text: the eight groups in hexadecimal, with the
  longest run of zero groups written as an ellipsis.
\<close>

section \<open>Groups and bytes\<close>

definition hextet_bytes :: "nat list \<Rightarrow> IP" where
  "hextet_bytes hs = concat (map (\<lambda>h. [of_nat (h div 256), of_nat (h mod 256)]) hs)"

lemma hextet_bytes_simps [simp]:
  "hextet_bytes [] = []"
  "hextet_bytes (h # hs) = of_nat (h div 256) # of_nat (h mod 256) # hextet_bytes hs"
  "hextet_bytes (hs @ hs') = hextet_bytes hs @ hextet_bytes hs'"
  by (simp_all add: hextet_bytes_def)

lemma length_hextet_bytes [simp]: "length (hextet_bytes hs) = 2 * length hs"
  by (induction hs) simp_all

lemma hextet_bytes_zeros [simp]: "hextet_bytes (replicate l 0) = replicate (2 * l) 0"
  by (induction l) simp_all

lemma hextet_bytes_hextets: "even (length ip) \<Longrightarrow> hextet_bytes (hextets ip) = ip"
proof (induction ip rule: hextets.induct)
  case (1 a b rest)
  have "unat b < 256" using unsigned_less [of b] by simp
  with 1 show ?case by simp
qed auto

lemma length_hextets: "length (hextets ip) = length ip div 2"
  by (induction ip rule: hextets.induct) simp_all

lemma hextets_bound: "h \<in> set (hextets ip) \<Longrightarrow> h \<le> 0xFFFF"
proof (induction ip rule: hextets.induct)
  case (1 a b rest)
  have "unat a < 256" "unat b < 256" using unsigned_less [of a] unsigned_less [of b] by simp_all
  with 1 show ?case by auto
qed simp_all

section \<open>The run of zeros\<close>

lemma zero_run_zeros: "take (zero_run xs) xs = replicate (zero_run xs) 0"
proof -
  have "takeWhile (\<lambda>x. x = 0) xs = replicate (length (takeWhile (\<lambda>x. x = 0) xs)) 0"
    by (rule replicate_length_same [symmetric]) (auto dest: set_takeWhileD)
  then show ?thesis by (simp add: zero_run_def takeWhile_eq_take [symmetric])
qed

lemma zero_run_le: "zero_run xs \<le> length xs"
  by (simp add: zero_run_def length_takeWhile_le)

lemma best_run_zeros:
  assumes "best_run i best xs = (e, l)"
  shows "(e, l) = best \<or> (i \<le> e \<and> e - i + l \<le> length xs \<and> take l (drop (e - i) xs) = replicate l 0)"
  using assms
proof (induction i best xs rule: best_run.induct)
  case (2 i best x xs)
  have here: "zero_run (x # xs) \<le> Suc (length xs)" "take (zero_run (x # xs)) (x # xs) = replicate (zero_run (x # xs)) 0"
    using zero_run_le [of "x # xs"] zero_run_zeros [of "x # xs"] by simp_all
  have later: "i \<le> e \<and> e - i + l \<le> length (x # xs) \<and> take l (drop (e - i) (x # xs)) = replicate l 0"
    if "Suc i \<le> e" "e - Suc i + l \<le> length xs" "take l (drop (e - Suc i) xs) = replicate l 0"
    using that by (simp add: Suc_diff_le drop_Cons')
  show ?case
  proof (cases "snd best < zero_run (x # xs)")
    case True
    with 2 have "(e, l) = (i, zero_run (x # xs)) \<or>
        (Suc i \<le> e \<and> e - Suc i + l \<le> length xs \<and> take l (drop (e - Suc i) xs) = replicate l 0)"
      by simp
    with here later show ?thesis by auto
  next
    case False
    with 2 later show ?thesis by auto
  qed
qed simp

section \<open>Reading the groups\<close>

abbreviation hex_groups :: "nat list \<Rightarrow> string" where
  "hex_groups hs \<equiv> strings_Join (map (FormatUint 16) hs) '':''"

lemma is_digit_colon [simp]: "\<not> is_digit_of b CHR '':''"
  by (simp add: is_digit_of_def digit_val_def)

lemma hex_groups_Cons: "hs \<noteq> [] \<Longrightarrow> strings_Join (FormatUint 16 h # map (FormatUint 16) hs) '':'' = FormatUint 16 h @ CHR '':'' # hex_groups hs"
  by (simp add: strings_Join_Cons)

lemma hex_groups_start:
  assumes "hs \<noteq> []"
  shows "hex_groups hs \<noteq> [] \<and> hd (hex_groups hs) \<noteq> CHR '':''"
proof -
  obtain h hs' where hs: "hs = h # hs'" using assms by (cases hs) auto
  have "is_digit_of 16 (hd (FormatUint 16 h))" by (rule is_digit_FormatUint [where n = h]) simp_all
  then have "hd (FormatUint 16 h) \<noteq> CHR '':''" by (metis is_digit_colon)
  then show ?thesis by (cases "hs' = []") (simp_all add: hs strings_Join_Cons)
qed

lemma v6_loop_group:
  assumes "length out < 16" "h \<le> 0xFFFF" "rest = [] \<or> hd rest = CHR '':''"
  shows "v6_loop out ell (FormatUint 16 h @ rest) =
    (let out' = out @ hextet_bytes [h]
     in case rest of
          [] \<Rightarrow> Some (out', ell, [])
        | c # cs \<Rightarrow>
            if cs = [] then None
            else if hd cs = CHR '':'' then
              (if ell \<noteq> None then None
               else if tl cs = [] then Some (out', Some (length out'), [])
               else v6_loop out' (Some (length out')) (tl cs))
            else v6_loop out' ell cs)"
proof -
  have "xtoi_base 16 (FormatUint 16 h @ rest) = Some (h, rest)"
    using assms by (intro xtoi_base_FormatUint) auto
  then show ?thesis using assms by (subst v6_loop.simps) (auto simp: Let_def split: list.split)
qed

lemma v6_loop_groups:
  assumes "hs \<noteq> []" "\<forall>h\<in>set hs. h \<le> 0xFFFF" "length out + 2 * length hs \<le> 16"
  shows "v6_loop out ell (hex_groups hs) = Some (out @ hextet_bytes hs, ell, [])"
  using assms
proof (induction hs arbitrary: out)
  case (Cons h hs)
  show ?case
  proof (cases "hs = []")
    case True
    with Cons.prems v6_loop_group [of out h "[]"] show ?thesis by simp
  next
    case False
    with Cons hex_groups_start [OF False] show ?thesis
      by (simp add: hex_groups_Cons v6_loop_group)
  qed
qed simp

lemma v6_loop_ellipsis:
  assumes "hs \<noteq> []" "\<forall>h\<in>set hs. h \<le> 0xFFFF" "\<forall>h\<in>set hs'. h \<le> 0xFFFF"
    and "length out + 2 * length hs + 2 * length hs' \<le> 16"
  shows "v6_loop out None (hex_groups hs @ ''::'' @ hex_groups hs') =
    Some (out @ hextet_bytes hs @ hextet_bytes hs', Some (length out + 2 * length hs), [])"
  using assms
proof (induction hs arbitrary: out)
  case (Cons h hs)
  show ?case
  proof (cases "hs = []")
    case True
    with Cons.prems hex_groups_start [of hs'] show ?thesis
      by (cases "hs' = []") (simp_all add: v6_loop_group v6_loop_groups)
  next
    case False
    with Cons hex_groups_start [OF False] show ?thesis
      by (simp add: hex_groups_Cons v6_loop_group)
  qed
qed simp

lemma v6_String_cases:
  assumes "length ip = 16"
  obtains "v6_String ip = hex_groups (hextets ip)"
  | hs l hs' where "v6_String ip = hex_groups hs @ ''::'' @ hex_groups hs'"
      "hextets ip = hs @ replicate l 0 @ hs'" "1 < l"
proof -
  obtain e l where el: "best_run 0 (0, 0) (hextets ip) = (e, l)" by fastforce
  show thesis
  proof (cases "l \<le> 1")
    case True
    with el that(1) show thesis by (simp add: v6_String_def)
  next
    case False
    with best_run_zeros [OF el] have "take l (drop e (hextets ip)) = replicate l 0" by auto
    then have "hextets ip = take e (hextets ip) @ replicate l 0 @ drop (e + l) (hextets ip)"
      by (metis append_take_drop_id drop_drop add.commute)
    from that(2) [OF _ this] False el show thesis by (simp add: v6_String_def Let_def)
  qed
qed

lemma HasPrefix_ellipsis: "hs \<noteq> [] \<Longrightarrow> \<not> strings_HasPrefix (hex_groups hs @ s) ''::''"
  using hex_groups_start [of hs] by (cases "hex_groups hs") (auto simp: strings_HasPrefix_def)

lemma parseIPv6_String:
  assumes "length ip = 16"
  shows "parseIPv6 (v6_String ip) = Some ip"
proof -
  have ip: "hextet_bytes (hextets ip) = ip" "length (hextets ip) = 8" "\<forall>h\<in>set (hextets ip). h \<le> 0xFFFF"
    using assms hextets_bound by (auto simp: hextet_bytes_hextets length_hextets)
  from assms show ?thesis
  proof (cases rule: v6_String_cases)
    case 1
    have "hextets ip \<noteq> []" using ip(2) by auto
    with 1 ip assms HasPrefix_ellipsis [of "hextets ip" "[]"] show ?thesis
      by (simp add: parseIPv6_def v6_loop_groups)
  next
    case (2 hs l hs')
    have bytes: "ip = hextet_bytes hs @ replicate (2 * l) 0 @ hextet_bytes hs'" and len: "length hs + l + length hs' = 8"
      using ip(1,2) 2(2) by auto
    have l: "16 - (2 * length hs + 2 * length hs') = 2 * l" "2 * length hs + 2 * length hs' < 16"
      using len 2(3) by linarith+
    show ?thesis
    proof (cases "hs = []")
      case True
      with 2 ip(3) len l bytes hex_groups_start [of hs'] show ?thesis
        by (cases "hs' = []") (auto simp add: parseIPv6_def v6_loop_groups strings_HasPrefix_def)
    next
      case False
      with 2 ip(3) len l bytes HasPrefix_ellipsis [OF False] show ?thesis
        by (auto simp add: parseIPv6_def v6_loop_ellipsis [where out = "[]", simplified])
    qed
  qed
qed

section \<open>An IPv6 text is no IPv4 text\<close>

lemma v4_octet_rest:
  assumes "v4_octet s = Some (b, rest)"
  shows "\<exists>ds. s = ds @ rest \<and> (\<forall>c\<in>set ds. is_digit_of 10 c)"
proof -
  have "rest = dropWhile (is_digit_of 10) s"
    using assms by (auto simp: v4_octet_def xtoi_base_def Let_def split: option.splits if_splits sum.splits)
  then show ?thesis by (metis takeWhile_dropWhile_id set_takeWhileD)
qed

lemma v4_octets_chars:
  "v4_octets k first s = Some (bs, rest) \<Longrightarrow> CHR '':'' \<in> set s \<Longrightarrow> CHR '':'' \<in> set rest"
proof (induction k arbitrary: first s bs)
  case (Suc k)
  then obtain c cs b rest' bs' where s: "s = c # cs" "first \<or> c = CHR ''.''"
    "v4_octet (if first then s else cs) = Some (b, rest')" "v4_octets k False rest' = Some (bs', rest)"
    by (auto split: list.splits if_splits option.splits)
  have "CHR '':'' \<in> set (if first then s else cs)" using s(1,2) Suc.prems(2) by auto
  moreover obtain ds where ds: "(if first then s else cs) = ds @ rest'" "\<forall>c\<in>set ds. is_digit_of 10 c"
    using v4_octet_rest [OF s(3)] by blast
  ultimately have "CHR '':'' \<in> set (ds @ rest')" by (simp only: ds(1))
  then have "CHR '':'' \<in> set rest'" using ds(2) by auto
  with Suc.IH s(4) show ?case by blast
qed simp

lemma parseIPv4_colon: "CHR '':'' \<in> set s \<Longrightarrow> parseIPv4 s = None"
  using v4_octets_chars [of 4 True s _ "[]"] by (auto simp: parseIPv4_def split: option.split list.split)

lemma v6_String_colon:
  assumes "length ip = 16"
  shows "CHR '':'' \<in> set (v6_String ip)"
  using assms
proof (cases rule: v6_String_cases)
  case 1
  obtain h k hs where "hextets ip = h # k # hs"
    using assms length_hextets [of ip] by (cases "hextets ip"; cases "tl (hextets ip)") auto
  with 1 show ?thesis by simp
qed auto

lemma v6_String_no_slash:
  assumes "length ip = 16"
  shows "CHR ''/'' \<notin> set (v6_String ip)"
proof -
  have "\<not> is_digit_of 16 CHR ''/''" by (simp add: is_digit_of_def digit_val_def)
  then have digits: "CHR ''/'' \<notin> set (FormatUint 16 h)" for h using is_digit_FormatUint [of 16 "CHR ''/''" h] by auto
  have "CHR ''/'' \<notin> set (hex_groups hs)" for hs
  proof (induction hs)
    case (Cons h hs)
    then show ?case by (cases "hs = []") (simp_all add: digits hex_groups_Cons)
  qed simp
  with assms show ?thesis by (cases rule: v6_String_cases) auto
qed

lemma IPNet_String_v6:
  assumes "length ip = 16" "IP_To4 ip = None" "n \<le> 128"
  shows "IPNet_String \<lparr>net_IP = ip, net_Mask = CIDRMask n 128\<rparr> = v6_String ip @ CHR ''/'' # FormatUint 10 n"
  using assms by (auto simp: IPNet_String_def networkNumberAndMask_def IP_String_def)

lemma net_ParseCIDR_v6:
  assumes "length ip = 16" "n \<le> 128"
  shows "net_ParseCIDR (v6_String ip @ CHR ''/'' # FormatUint 10 n) = Inr (ip, CIDRMask n 128)"
proof -
  have "xtoi_base 10 (FormatUint 10 n @ []) = Some (n, [])"
    using assms(2) by (intro xtoi_base_FormatUint) auto
  with assms show ?thesis
    by (simp add: net_ParseCIDR_def strings_Cut_append v6_String_no_slash parseIPv4_colon v6_String_colon parseIPv6_String)
qed

text \<open>The other 16-byte addresses are the IPv4 addresses.\<close>

lemma IP_To4_16:
  assumes "IP_To4 ip = Some p" "length ip = 16"
  shows "\<exists>a b c d. ip = net_IPv4 a b c d"
proof -
  have "take 12 ip = v4InV6Prefix" using assms by (simp add: IP_To4_def split: if_splits)
  moreover obtain a b c d where "drop 12 ip = [a, b, c, d]"
    using assms(2) length_drop [of 12 ip] by (auto simp: numeral_eq_Suc length_Suc_conv)
  ultimately have "ip = net_IPv4 a b c d" by (metis append_take_drop_id net_IPv4_def)
  then show ?thesis by blast
qed

end
