(* ===== verification/Go_JSON.thy ===== *)
theory Go_JSON
  imports Go_Strings
begin

text \<open>
  JSON documents as \<^verbatim>\<open>encoding/json\<close> sees them, and the conversions between them and Go
  values. A document is a tree; its text is not modelled. \<open>JTime\<close> is the string form of a
  \<^verbatim>\<open>time.Time\<close> and \<open>JBytes\<close> the base64 string of a byte slice that itself holds a
  document, both opaque to decoders of other types.
\<close>

datatype json =
    JNull
  | JBool bool
  | JInt int
  | JStr string
  | JTime gotime
  | JBytes json
  | JArr "json list"
  | JObj "(string \<times> json) list"

definition ErrUnmarshal :: error where
  "ErrUnmarshal = ErrMsg ''json: cannot unmarshal value''"

text \<open>
  The decoder matches an object key with a field's tag ignoring case. The tags of one
  struct here are distinct ignoring case, so the preference for an exact match does not
  show.
\<close>

definition lower_char :: "char \<Rightarrow> char" where
  "lower_char c = (let n = of_char c :: nat in
     if 65 \<le> n \<and> n \<le> 90 then char_of (n + 32) else c)"

definition key_eq :: "string \<Rightarrow> string \<Rightarrow> bool" where
  "key_eq k tag = (map lower_char k = map lower_char tag)"

lemma key_eq_refl [simp]: "key_eq k k"
  by (simp add: key_eq_def)

section \<open>Decoding into fields\<close>

text \<open>Each decoder takes the value the field has and returns the value it gets.\<close>

fun dec_string :: "string \<Rightarrow> json \<Rightarrow> string result" where
  "dec_string cur (JStr s) = Inr s"
| "dec_string cur JNull = Inr cur"
| "dec_string cur _ = Inl ErrUnmarshal"

fun dec_int :: "int \<Rightarrow> json \<Rightarrow> int result" where
  "dec_int cur (JInt i) = (if - (2 ^ 63) \<le> i \<and> i < 2 ^ 63 then Inr i else Inl ErrUnmarshal)"
| "dec_int cur JNull = Inr cur"
| "dec_int cur _ = Inl ErrUnmarshal"

fun dec_time :: "gotime \<Rightarrow> json \<Rightarrow> gotime result" where
  "dec_time cur (JTime t) = Inr t"
| "dec_time cur JNull = Inr cur"
| "dec_time cur _ = Inl ErrUnmarshal"

fun dec_uint64 :: "uint64 \<Rightarrow> json \<Rightarrow> uint64 result" where
  "dec_uint64 cur (JInt i) = (if 0 \<le> i \<and> i < 2 ^ 64 then Inr (word_of_int i) else Inl ErrUnmarshal)"
| "dec_uint64 cur JNull = Inr cur"
| "dec_uint64 cur _ = Inl ErrUnmarshal"

text \<open>The zero byte slice is written as \<open>JNull\<close>, so a byte slice is an optional document.\<close>

fun dec_bytes :: "json option \<Rightarrow> json \<Rightarrow> json option result" where
  "dec_bytes cur (JBytes d) = Inr (Some d)"
| "dec_bytes cur JNull = Inr None"
| "dec_bytes cur _ = Inl ErrUnmarshal"

fun dec_string_list :: "json list \<Rightarrow> string list result" where
  "dec_string_list [] = Inr []"
| "dec_string_list (j # js) =
     (case dec_string [] j of
        Inl e \<Rightarrow> Inl e
      | Inr s \<Rightarrow> (case dec_string_list js of Inl e \<Rightarrow> Inl e | Inr ss \<Rightarrow> Inr (s # ss)))"

fun dec_strings :: "string list \<Rightarrow> json \<Rightarrow> string list result" where
  "dec_strings cur (JArr js) = dec_string_list js"
| "dec_strings cur JNull = Inr []"
| "dec_strings cur _ = Inl ErrUnmarshal"

definition put_field :: "('v \<Rightarrow> 'r) \<Rightarrow> 'v result \<Rightarrow> 'r result" where
  "put_field upd r = (case r of Inl e \<Rightarrow> Inl e | Inr v \<Rightarrow> Inr (upd v))"

lemma put_field_simps [simp]:
  "put_field upd (Inl e) = Inl e" "put_field upd (Inr v) = Inr (upd v)"
  by (simp_all add: put_field_def)

text \<open>The fields of an object are decoded in the order of the document.\<close>

fun dec_fields :: "('r \<Rightarrow> string \<Rightarrow> json \<Rightarrow> 'r result) \<Rightarrow> 'r \<Rightarrow> (string \<times> json) list \<Rightarrow> 'r result" where
  "dec_fields setf r [] = Inr r"
| "dec_fields setf r ((k, v) # kvs) =
     (case setf r k v of Inl e \<Rightarrow> Inl e | Inr r' \<Rightarrow> dec_fields setf r' kvs)"

text \<open>\<^verbatim>\<open>json.Unmarshal\<close> into a pointer to a struct.\<close>

fun dec_struct :: "('r \<Rightarrow> string \<Rightarrow> json \<Rightarrow> 'r result) \<Rightarrow> 'r \<Rightarrow> json \<Rightarrow> 'r result" where
  "dec_struct setf r (JObj kvs) = dec_fields setf r kvs"
| "dec_struct setf r JNull = Inr r"
| "dec_struct setf r _ = Inl ErrUnmarshal"

text \<open>A slice of strings is written as an array, a nil slice as \<open>JNull\<close>.\<close>

definition enc_strings :: "string list \<Rightarrow> json" where
  "enc_strings xs = (if xs = [] then JNull else JArr (map JStr xs))"

lemma dec_string_list_map_JStr: "dec_string_list (map JStr xs) = Inr xs"
  by (induction xs) auto

lemma dec_enc_strings [simp]: "dec_strings cur (enc_strings xs) = Inr xs"
  by (simp add: enc_strings_def dec_string_list_map_JStr)

end
