(* ===== verification/Cidr.thy ===== *)
theory Cidr
  imports Go_Net6 Go_JSON
begin

text \<open>
  The type \<^verbatim>\<open>model.CIDR\<close> (\<^verbatim>\<open>datastore/model/cidr.go\<close>): a network address with a
  prefix length, and its forms in SQL and JSON. The type embeds \<^verbatim>\<open>net.IPNet\<close>, so a value is
  an \<open>IPNet\<close>, and a pointer that may be nil is an optional value.
\<close>

section \<open>SQL values\<close>

datatype sqlval = SNull | SInt int | SText string | STime gotime

section \<open>Operations\<close>

type_synonym CIDR = IPNet

definition CIDR_zero :: CIDR where
  "CIDR_zero = \<lparr>net_IP = [], net_Mask = []\<rparr>"

text \<open>The method \<^verbatim>\<open>parse\<close> leaves the receiver alone on an empty string.\<close>

definition CIDR_parse :: "CIDR \<Rightarrow> string \<Rightarrow> CIDR result" where
  "CIDR_parse c s =
     (if s = [] then Inr c
      else case net_ParseCIDR s of
             Inl e \<Rightarrow> Inl e
           | Inr (ip, m) \<Rightarrow> Inr (c\<lparr>net_IP := ip, net_Mask := m\<rparr>))"

definition ParseCIDR :: "string \<Rightarrow> CIDR result" where
  "ParseCIDR s = CIDR_parse CIDR_zero s"

definition NewCIDR :: "IP \<Rightarrow> nat \<Rightarrow> CIDR" where
  "NewCIDR ip sz = \<lparr>net_IP = ip, net_Mask = CIDRMask sz (8 * length ip)\<rparr>"

definition CIDR_IsNil :: "CIDR option \<Rightarrow> bool" where
  "CIDR_IsNil c = (case c of None \<Rightarrow> True | Some n \<Rightarrow> net_IP n = [])"

definition CIDR_String :: "CIDR option \<Rightarrow> string" where
  "CIDR_String c = (if CIDR_IsNil c then [] else IPNet_String (the c))"

text \<open>
  A nil pointer is encoded as null by \<^verbatim>\<open>encoding/json\<close> itself, which does not call the
  method then.
\<close>

definition CIDR_MarshalJSON :: "CIDR option \<Rightarrow> json" where
  "CIDR_MarshalJSON c = (case c of None \<Rightarrow> JNull | Some _ \<Rightarrow> JStr (CIDR_String c))"

fun CIDR_UnmarshalJSON :: "CIDR option \<Rightarrow> json \<Rightarrow> CIDR option result" where
  "CIDR_UnmarshalJSON cur JNull = Inr None"
| "CIDR_UnmarshalJSON cur (JStr s) =
     (case CIDR_parse (case cur of None \<Rightarrow> CIDR_zero | Some c \<Rightarrow> c) s of
        Inl e \<Rightarrow> Inl e | Inr c \<Rightarrow> Inr (Some c))"
| "CIDR_UnmarshalJSON cur _ = Inl ErrUnmarshal"

text \<open>\<^verbatim>\<open>Scan\<close> on a value receiver, as in a scan into a \<^verbatim>\<open>model.CIDR\<close> variable.\<close>

fun CIDR_Scan :: "CIDR \<Rightarrow> sqlval \<Rightarrow> CIDR result" where
  "CIDR_Scan c (SText s) = CIDR_parse c s"
| "CIDR_Scan c _ = Inr CIDR_zero"

text \<open>
  A scan into a pointer field: \<^verbatim>\<open>database/sql\<close> stores nil for NULL and otherwise calls
  \<open>CIDR_Scan\<close> on a new value.
\<close>

definition CIDR_Scan_ptr :: "sqlval \<Rightarrow> CIDR option result" where
  "CIDR_Scan_ptr v =
     (if v = SNull then Inr None
      else case CIDR_Scan CIDR_zero v of Inl e \<Rightarrow> Inl e | Inr c \<Rightarrow> Inr (Some c))"

definition CIDR_Value :: "CIDR option \<Rightarrow> sqlval" where
  "CIDR_Value c = (if CIDR_IsNil c then SNull else SText (CIDR_String c))"

section \<open>Round trips\<close>

text \<open>
  A CIDR pointer is textual when it is nil, or its text parses back to it. Every address in its
  16-byte form is, with a prefix length that fits its family.
\<close>

definition CIDR_textual :: "CIDR option \<Rightarrow> bool" where
  "CIDR_textual c =
     (case c of None \<Rightarrow> True
      | Some n \<Rightarrow> net_IP n \<noteq> [] \<and> net_ParseCIDR (IPNet_String n) = Inr (net_IP n, net_Mask n))"

definition v4_CIDR :: "byte \<Rightarrow> byte \<Rightarrow> byte \<Rightarrow> byte \<Rightarrow> nat \<Rightarrow> CIDR" where
  "v4_CIDR a b c d n = \<lparr>net_IP = net_IPv4 a b c d, net_Mask = CIDRMask n 32\<rparr>"

lemma CIDR_String_v4:
  "n \<le> 32 \<Longrightarrow>
   CIDR_String (Some (v4_CIDR a b c d n)) = v4_String [a, b, c, d] @ CHR ''/'' # FormatUint 10 n"
  by (simp add: CIDR_String_def CIDR_IsNil_def v4_CIDR_def IPNet_String_v4)

lemma CIDR_textual_v4: "n \<le> 32 \<Longrightarrow> CIDR_textual (Some (v4_CIDR a b c d n))"
  by (simp add: CIDR_textual_def v4_CIDR_def IPNet_String_v4 net_ParseCIDR_v4)

definition family_bits :: "IP \<Rightarrow> nat" where
  "family_bits ip = (if IP_To4 ip = None then 128 else 32)"

definition ip_CIDR :: "IP \<Rightarrow> nat \<Rightarrow> CIDR" where
  "ip_CIDR ip n = \<lparr>net_IP = ip, net_Mask = CIDRMask n (family_bits ip)\<rparr>"

lemma CIDR_textual_ip:
  assumes "length ip = 16" "n \<le> family_bits ip"
  shows "CIDR_textual (Some (ip_CIDR ip n))"
proof (cases "IP_To4 ip")
  case None
  with assms have "n \<le> 128" "ip \<noteq> []" by (auto simp: family_bits_def)
  with None assms(1) show ?thesis
    by (simp add: CIDR_textual_def ip_CIDR_def family_bits_def IPNet_String_v6 net_ParseCIDR_v6)
next
  case (Some p)
  then obtain a b c d where "ip = net_IPv4 a b c d" using assms(1) IP_To4_16 by blast
  with assms(2) CIDR_textual_v4 [of n a b c d] show ?thesis by (simp add: ip_CIDR_def v4_CIDR_def family_bits_def)
qed

lemma IPNet_String_not_Nil [simp]: "IPNet_String n \<noteq> []"
  by (simp add: IPNet_String_def split: option.splits prod.splits)

lemma CIDR_parse_String:
  "CIDR_textual (Some n) \<Longrightarrow> CIDR_parse c (CIDR_String (Some n)) = Inr n"
  by (simp add: CIDR_textual_def CIDR_String_def CIDR_IsNil_def CIDR_parse_def)

lemma CIDR_Unmarshal_Marshal:
  "CIDR_textual c \<Longrightarrow> CIDR_UnmarshalJSON cur (CIDR_MarshalJSON c) = Inr c"
  by (cases c) (simp_all add: CIDR_MarshalJSON_def CIDR_parse_String)

lemma CIDR_textual_not_nil: "CIDR_textual (Some n) \<Longrightarrow> \<not> CIDR_IsNil (Some n)"
  by (simp add: CIDR_textual_def CIDR_IsNil_def)

lemma CIDR_Scan_Value: "CIDR_textual c \<Longrightarrow> CIDR_Scan_ptr (CIDR_Value c) = Inr c"
  by (cases c)
    (simp_all add: CIDR_Scan_ptr_def CIDR_Value_def CIDR_textual_not_nil CIDR_parse_String,
     simp add: CIDR_IsNil_def)

text \<open>
  C23: a network survives its SQL and its JSON form, whatever it is stored over, be it IPv4 or
  IPv6: every 16-byte address with every prefix length that its family allows is read back
  from its text, including the compressed forms of IPv6.
\<close>

theorem cidr_roundtrip:
  assumes "length ip = 16" "n \<le> family_bits ip"
  shows "ParseCIDR (CIDR_String (Some (ip_CIDR ip n))) = Inr (ip_CIDR ip n) \<and>
    CIDR_Scan_ptr (CIDR_Value (Some (ip_CIDR ip n))) = Inr (Some (ip_CIDR ip n)) \<and>
    CIDR_UnmarshalJSON cur (CIDR_MarshalJSON (Some (ip_CIDR ip n))) = Inr (Some (ip_CIDR ip n))"
  using CIDR_textual_ip [OF assms]
  by (simp add: ParseCIDR_def CIDR_parse_String CIDR_Unmarshal_Marshal CIDR_Scan_Value)

theorem cidr_roundtrip_witness:
  "CIDR_String (Some (ip_CIDR [0xfd, 0, 0, 0, 0, 0, 0, 0, 0, 0, 0, 0, 0, 0, 0, 1] 64)) = ''fd00::1/64'' \<and>
   ParseCIDR (CIDR_String (Some (ip_CIDR [0xfd, 0, 0, 0, 0, 0, 0, 0, 0, 0, 0, 0, 0, 0, 0, 1] 64))) =
     Inr (ip_CIDR [0xfd, 0, 0, 0, 0, 0, 0, 0, 0, 0, 0, 0, 0, 0, 0, 1] 64)"
proof -
  let ?ip = "[0xfd, 0, 0, 0, 0, 0, 0, 0, 0, 0, 0, 0, 0, 0, 0, 1] :: IP"
  have v6: "IP_To4 ?ip = None" by (simp add: IP_To4_def v4InV6Prefix_def)
  then have bits: "family_bits ?ip = 128" by (simp add: family_bits_def)
  then have "ParseCIDR (CIDR_String (Some (ip_CIDR ?ip 64))) = Inr (ip_CIDR ?ip 64)"
    using cidr_roundtrip [of ?ip 64 None] by simp
  moreover have "v6_String ?ip = ''fd00::1''" "FormatUint 10 64 = ''64''"
    by (simp_all add: v6_String_def zero_run_def FormatUint.simps digit_char_def char_of_def bit_Suc_0_iff)
  then have "CIDR_String (Some (ip_CIDR ?ip 64)) = ''fd00::1/64''"
    using v6 bits by (simp add: CIDR_String_def CIDR_IsNil_def ip_CIDR_def IPNet_String_v6)
  ultimately show ?thesis by simp
qed

end
