(* ===== verification/Schema.thy ===== *)
theory Schema
  imports Sqlite Cidr
begin

text \<open>
  The database schema (\<^verbatim>\<open>datastore/migrations.go\<close>) and the meaning of the SQL statements
  the program issues on its tables: constraints of SQLite with foreign keys on, as
  \<^verbatim>\<open>OpenDB\<close> asks for. Only the statement forms of the source are given a meaning.
\<close>

section \<open>Data definition\<close>

record coldef =
  col_name :: string
  col_type :: string
  col_pk :: bool
  col_notnull :: bool

text \<open>A foreign key: a column, the referenced table and its column, with delete cascade.\<close>

type_synonym fkey = "string \<times> string \<times> string"

record tabledef =
  tb_cols :: "coldef list"
  tb_fks :: "fkey list"

record catalog =
  cat_tables :: "(string, tabledef) gomap"
  cat_indexes :: "(string \<times> string \<times> string) list"
  cat_sequence :: "int list"

datatype ddl =
    CreateTable string "coldef list" "fkey list"
  | CreateIndex string string string
  | InsertSequence int
  | AddColumn string coldef
  | DropColumn string string

definition col :: "string \<Rightarrow> string \<Rightarrow> coldef" where
  "col n t = \<lparr>col_name = n, col_type = t, col_pk = False, col_notnull = False\<rparr>"

definition col_nn :: "string \<Rightarrow> string \<Rightarrow> coldef" where
  "col_nn n t = \<lparr>col_name = n, col_type = t, col_pk = False, col_notnull = True\<rparr>"

definition col_key :: "string \<Rightarrow> string \<Rightarrow> coldef" where
  "col_key n t = \<lparr>col_name = n, col_type = t, col_pk = True, col_notnull = True\<rparr>"

definition col_names :: "tabledef \<Rightarrow> string list" where
  "col_names td = map col_name (tb_cols td)"

definition Migrations :: "ddl list list" where
  "Migrations =
    [[CreateTable ''log''
        [col_key ''seq'' ''INTEGER'', col_nn ''type'' ''INTEGER'', col ''value'' ''TEXT'',
         col ''timestamp'' ''DATETIME''] [],
      CreateTable ''interfaces''
        [col_key ''name'' ''SMALLTEXT'', col ''port'' ''INTEGER'', col ''ip'' ''TEXT'',
         col ''ip6'' ''TEXT'', col ''fwmark'' ''INTEGER'', col ''private_key'' ''TEXT'',
         col ''public_key'' ''TEXT''] [],
      CreateTable ''peers''
        [col_key ''public_key'' ''SMALLTEXT'', col_nn ''interface'' ''SMALLTEXT'',
         col ''ip'' ''TEXT'', col ''ip6'' ''TEXT'', col ''expire'' ''DATETIME'']
        [(''interface'', ''interfaces'', ''name'')],
      CreateIndex ''idx_peers_ip'' ''peers'' ''ip'',
      CreateIndex ''idx_peers_ip6'' ''peers'' ''ip6'',
      CreateTable ''sequence'' [col ''seq'' ''INTEGER''] [],
      InsertSequence 0,
      CreateTable ''active_sessions''
        [col ''peer_public_key'' ''SMALLTEXT'', col ''begin_timestamp'' ''DATETIME'',
         col ''end_timestamp'' ''DATETIME'', col ''last_handshake'' ''DATETIME'',
         col ''active'' ''BOOL'', col ''src_as'' ''TEXT'', col ''src_country'' ''TEXT''] [],
      CreateTable ''sessions''
        [col ''peer_public_key'' ''SMALLTEXT'', col ''begin_timestamp'' ''DATETIME'',
         col ''end_timestamp'' ''DATETIME'', col ''src_as'' ''TEXT'',
         col ''src_country'' ''TEXT''] [],
      CreateIndex ''idx_sessions_peer'' ''sessions'' ''peer_public_key'',
      CreateTable ''tokens''
        [col_key ''id'' ''TEXT'', col_nn ''secret'' ''TEXT'', col ''roles'' ''TEXT''] []],
     [AddColumn ''active_sessions'' (col ''src_as_num'' ''SMALLTEXT''),
      AddColumn ''active_sessions'' (col ''src_as_org'' ''SMALLTEXT''),
      DropColumn ''active_sessions'' ''src_as'',
      AddColumn ''sessions'' (col ''src_as_num'' ''SMALLTEXT''),
      AddColumn ''sessions'' (col ''src_as_org'' ''SMALLTEXT''),
      DropColumn ''sessions'' ''src_as'']]"

definition no_such_table :: "string \<Rightarrow> error" where
  "no_such_table t = ErrMsg (''no such table: '' @ t)"

definition no_such_column :: "string \<Rightarrow> error" where
  "no_such_column c = ErrMsg (''no such column: '' @ c)"

fun exec_ddl :: "ddl \<Rightarrow> catalog \<Rightarrow> catalog result" where
  "exec_ddl (CreateTable t cs fks) c =
     (if map_of (cat_tables c) t \<noteq> None then Inl (ErrMsg (''table already exists: '' @ t))
      else Inr (c\<lparr>cat_tables := cat_tables c @ [(t, \<lparr>tb_cols = cs, tb_fks = fks\<rparr>)]\<rparr>))"
| "exec_ddl (CreateIndex i t k) c =
     (case map_of (cat_tables c) t of
        None \<Rightarrow> Inl (no_such_table t)
      | Some td \<Rightarrow>
          if k \<notin> set (col_names td) then Inl (no_such_column k)
          else if i \<in> set (map fst (cat_indexes c)) then Inl (ErrMsg (''index already exists: '' @ i))
          else Inr (c\<lparr>cat_indexes := cat_indexes c @ [(i, t, k)]\<rparr>))"
| "exec_ddl (InsertSequence n) c =
     (case map_of (cat_tables c) ''sequence'' of
        None \<Rightarrow> Inl (no_such_table ''sequence'')
      | Some _ \<Rightarrow> Inr (c\<lparr>cat_sequence := cat_sequence c @ [n]\<rparr>))"
| "exec_ddl (AddColumn t cd) c =
     (case map_of (cat_tables c) t of
        None \<Rightarrow> Inl (no_such_table t)
      | Some td \<Rightarrow>
          if col_name cd \<in> set (col_names td) then Inl (ErrMsg (''duplicate column name: '' @ col_name cd))
          else Inr (c\<lparr>cat_tables := map_put t (td\<lparr>tb_cols := tb_cols td @ [cd]\<rparr>) (cat_tables c)\<rparr>))"
| "exec_ddl (DropColumn t k) c =
     (case map_of (cat_tables c) t of
        None \<Rightarrow> Inl (no_such_table t)
      | Some td \<Rightarrow>
          if k \<notin> set (col_names td) then Inl (no_such_column k)
          else if list_ex (\<lambda>cd. col_name cd = k \<and> col_pk cd) (tb_cols td)
               \<or> list_ex (\<lambda>(_, t', k'). t' = t \<and> k' = k) (cat_indexes c)
          then Inl (ErrMsg (''error in drop column: '' @ k))
          else Inr (c\<lparr>cat_tables :=
                 map_put t (td\<lparr>tb_cols := filter (\<lambda>cd. col_name cd \<noteq> k) (tb_cols td)\<rparr>)
                   (cat_tables c)\<rparr>))"

definition empty_catalog :: catalog where
  "empty_catalog = \<lparr>cat_tables = [], cat_indexes = [], cat_sequence = []\<rparr>"

text \<open>The tables that the current version of the program works with.\<close>

definition wig_catalog :: catalog where
  "wig_catalog =
    \<lparr>cat_tables =
      [(''log'', \<lparr>tb_cols =
          [col_key ''seq'' ''INTEGER'', col_nn ''type'' ''INTEGER'', col ''value'' ''TEXT'',
           col ''timestamp'' ''DATETIME''], tb_fks = []\<rparr>),
       (''interfaces'', \<lparr>tb_cols =
          [col_key ''name'' ''SMALLTEXT'', col ''port'' ''INTEGER'', col ''ip'' ''TEXT'',
           col ''ip6'' ''TEXT'', col ''fwmark'' ''INTEGER'', col ''private_key'' ''TEXT'',
           col ''public_key'' ''TEXT''], tb_fks = []\<rparr>),
       (''peers'', \<lparr>tb_cols =
          [col_key ''public_key'' ''SMALLTEXT'', col_nn ''interface'' ''SMALLTEXT'',
           col ''ip'' ''TEXT'', col ''ip6'' ''TEXT'', col ''expire'' ''DATETIME''],
          tb_fks = [(''interface'', ''interfaces'', ''name'')]\<rparr>),
       (''sequence'', \<lparr>tb_cols = [col ''seq'' ''INTEGER''], tb_fks = []\<rparr>),
       (''active_sessions'', \<lparr>tb_cols =
          [col ''peer_public_key'' ''SMALLTEXT'', col ''begin_timestamp'' ''DATETIME'',
           col ''end_timestamp'' ''DATETIME'', col ''last_handshake'' ''DATETIME'',
           col ''active'' ''BOOL'', col ''src_country'' ''TEXT'',
           col ''src_as_num'' ''SMALLTEXT'', col ''src_as_org'' ''SMALLTEXT''], tb_fks = []\<rparr>),
       (''sessions'', \<lparr>tb_cols =
          [col ''peer_public_key'' ''SMALLTEXT'', col ''begin_timestamp'' ''DATETIME'',
           col ''end_timestamp'' ''DATETIME'', col ''src_country'' ''TEXT'',
           col ''src_as_num'' ''SMALLTEXT'', col ''src_as_org'' ''SMALLTEXT''], tb_fks = []\<rparr>),
       (''tokens'', \<lparr>tb_cols =
          [col_key ''id'' ''TEXT'', col_nn ''secret'' ''TEXT'', col ''roles'' ''TEXT''],
          tb_fks = []\<rparr>)],
     cat_indexes =
      [(''idx_peers_ip'', ''peers'', ''ip''), (''idx_peers_ip6'', ''peers'', ''ip6''),
       (''idx_sessions_peer'', ''sessions'', ''peer_public_key'')],
     cat_sequence = [0]\<rparr>"

lemmas col_defs = col_def col_nn_def col_key_def col_names_def

lemma Statement_Migrations:
  "Statement exec_ddl (concat Migrations) empty_catalog = Inr wig_catalog"
  by (simp add: Migrations_def wig_catalog_def empty_catalog_def col_defs)

lemma migrate_wig_fresh:
  "migrate sql_ok exec_ddl Migrations (0, empty_catalog) = (Returns (Inr ()), (2, wig_catalog))"
proof -
  have "run_migrations exec_ddl 0 Migrations empty_catalog = Inr wig_catalog"
    by (simp add: Migrations_def wig_catalog_def empty_catalog_def col_defs)
  moreover have "length Migrations = 2"
    by (simp add: Migrations_def)
  ultimately show ?thesis
    by (simp add: migrate_def migrate_body_def WithTx_def)
qed

text \<open>
  C22: a migration is all or nothing. When it succeeds the database is at version 2 and
  exactly the statements of the missing migrations were run, in order; when it fails, for
  any reason, version and schema are as before.
\<close>

theorem migrate_all_or_nothing:
  assumes "migrate env exec_ddl Migrations (v, c) = (r, (v', c'))"
  shows "if r = Returns (Inr ())
         then v' = 2 \<and> Statement exec_ddl (concat (drop (nat v) Migrations)) c = Inr c'
         else v' = v \<and> c' = c"
proof (cases "r = Returns (Inr ())")
  case True
  have "Migrations \<noteq> []" "length Migrations = 2" by (simp_all add: Migrations_def)
  with True assms show ?thesis by (auto dest!: migrate_success)
next
  case False
  with assms show ?thesis by (auto dest: migrate_failed_unchanged)
qed

theorem migrate_all_or_nothing_witness:
  "migrate sql_ok exec_ddl Migrations (0, empty_catalog) = (Returns (Inr ()), (2, wig_catalog)) \<and>
   Statement exec_ddl (concat (drop (nat 0) Migrations)) empty_catalog = Inr wig_catalog"
  using migrate_all_or_nothing [OF migrate_wig_fresh] migrate_wig_fresh by simp

end
