(* ===== verification/Tables.thy ===== *)
theory Tables
  imports Schema
begin

text \<open>
  The meaning of the statements that \<^verbatim>\<open>datastore/crud/sql_table.go\<close> builds, on tables whose
  rows are association lists in column order, and the builders themselves.
\<close>

type_synonym row = "(string \<times> sqlval) list"
type_synonym tables = "string \<Rightarrow> row list"

definition cell :: "row \<Rightarrow> string \<Rightarrow> sqlval" where
  "cell r c = (case map_of r c of None \<Rightarrow> SNull | Some v \<Rightarrow> v)"

lemma cell_simps [simp]:
  "cell [] k = SNull" "cell ((c, v) # r) k = (if k = c then v else cell r k)"
  by (simp_all add: cell_def)

definition pk_col :: "tabledef \<Rightarrow> string option" where
  "pk_col td = map_option col_name (find col_pk (tb_cols td))"

section \<open>Constraints\<close>

definition notnull_ok :: "tabledef \<Rightarrow> row \<Rightarrow> bool" where
  "notnull_ok td r = list_all (\<lambda>cd. col_notnull cd \<longrightarrow> cell r (col_name cd) \<noteq> SNull) (tb_cols td)"

definition fk_ok :: "tabledef \<Rightarrow> tables \<Rightarrow> row \<Rightarrow> bool" where
  "fk_ok td tabs r =
     list_all (\<lambda>(c, rt, rc). cell r c = SNull \<or> list_ex (\<lambda>p. cell p rc = cell r c) (tabs rt))
       (tb_fks td)"

definition pk_free :: "tabledef \<Rightarrow> row list \<Rightarrow> row \<Rightarrow> bool" where
  "pk_free td rows r =
     (case pk_col td of None \<Rightarrow> True
      | Some k \<Rightarrow> list_all (\<lambda>r'. cell r' k \<noteq> cell r k) rows)"

definition ErrNotNull :: error where "ErrNotNull = ErrMsg ''NOT NULL constraint failed''"
definition ErrUnique :: error where "ErrUnique = ErrMsg ''UNIQUE constraint failed''"
definition ErrForeignKey :: error where "ErrForeignKey = ErrMsg ''FOREIGN KEY constraint failed''"
definition ErrSQLSyntax :: error where "ErrSQLSyntax = ErrMsg ''incomplete input''"
definition ErrBind :: error where "ErrBind = ErrMsg ''could not find name in struct''"

section \<open>Statements\<close>

text \<open>\<^verbatim>\<open>INSERT INTO t (cols) VALUES (vals)\<close>; columns not named get NULL.\<close>

definition sql_insert :: "catalog \<Rightarrow> string \<Rightarrow> (string \<times> sqlval) list \<Rightarrow> tables \<Rightarrow> tables result" where
  "sql_insert cat t cvs tabs =
     (case map_of (cat_tables cat) t of
        None \<Rightarrow> Inl (no_such_table t)
      | Some td \<Rightarrow>
          if \<not> list_all (\<lambda>(c, _). c \<in> set (col_names td)) cvs then Inl (no_such_column t)
          else
            (let r = map (\<lambda>c. (c, cell cvs c)) (col_names td)
             in if \<not> notnull_ok td r then Inl ErrNotNull
                else if \<not> pk_free td (tabs t) r then Inl ErrUnique
                else if \<not> fk_ok td (tabs(t := tabs t @ [r])) r then Inl ErrForeignKey
                else Inr (tabs(t := tabs t @ [r]))))"

text \<open>
  \<^verbatim>\<open>UPDATE t SET sets WHERE pk = v\<close>. The statements of the program never set a key column,
  so only the constraints of the updated rows themselves can fail.
\<close>

definition set_cells :: "(string \<times> sqlval) list \<Rightarrow> row \<Rightarrow> row" where
  "set_cells sets r =
     map (\<lambda>(c, v). (c, case map_of sets c of None \<Rightarrow> v | Some v' \<Rightarrow> v')) r"

definition matches :: "string \<Rightarrow> sqlval \<Rightarrow> row \<Rightarrow> bool" where
  "matches k v r = (v \<noteq> SNull \<and> cell r k = v)"

definition sql_update :: "catalog \<Rightarrow> string \<Rightarrow> (string \<times> sqlval) list \<Rightarrow> string \<Rightarrow> sqlval \<Rightarrow>
    tables \<Rightarrow> tables result" where
  "sql_update cat t sets k v tabs =
     (case map_of (cat_tables cat) t of
        None \<Rightarrow> Inl (no_such_table t)
      | Some td \<Rightarrow>
          if \<not> list_all (\<lambda>(c, _). c \<in> set (col_names td)) sets \<or> k \<notin> set (col_names td)
          then Inl (no_such_column t)
          else
            (let changed = map (set_cells sets) (filter (matches k v) (tabs t));
                 tabs' = tabs(t := map (\<lambda>r. if matches k v r then set_cells sets r else r) (tabs t))
             in if \<not> list_all (notnull_ok td) changed then Inl ErrNotNull
                else if \<not> list_all (fk_ok td tabs') changed then Inl ErrForeignKey
                else Inr tabs'))"

text \<open>
  \<^verbatim>\<open>DELETE FROM t WHERE pk = v\<close>, with the rows of other tables that refer to a deleted row
  through a foreign key deleted as well.
\<close>

definition refers :: "fkey list \<Rightarrow> string \<Rightarrow> row list \<Rightarrow> row \<Rightarrow> bool" where
  "refers fks t gone r =
     list_ex (\<lambda>(c, rt, rc). rt = t \<and> cell r c \<noteq> SNull \<and> list_ex (\<lambda>g. cell g rc = cell r c) gone) fks"

definition cascade :: "catalog \<Rightarrow> string \<Rightarrow> row list \<Rightarrow> tables \<Rightarrow> tables" where
  "cascade cat t gone tabs =
     (\<lambda>t'. case map_of (cat_tables cat) t' of
             None \<Rightarrow> tabs t'
           | Some td \<Rightarrow> filter (\<lambda>r. \<not> refers (tb_fks td) t gone r) (tabs t'))"

definition sql_delete :: "catalog \<Rightarrow> string \<Rightarrow> string \<Rightarrow> sqlval \<Rightarrow> tables \<Rightarrow> tables result" where
  "sql_delete cat t k v tabs =
     (case map_of (cat_tables cat) t of
        None \<Rightarrow> Inl (no_such_table t)
      | Some td \<Rightarrow>
          if k \<notin> set (col_names td) then Inl (no_such_column k)
          else Inr (cascade cat t (filter (matches k v) (tabs t))
                 (tabs(t := filter (\<lambda>r. \<not> matches k v r) (tabs t)))))"

definition sql_delete_all :: "catalog \<Rightarrow> string \<Rightarrow> tables \<Rightarrow> tables result" where
  "sql_delete_all cat t tabs =
     (case map_of (cat_tables cat) t of
        None \<Rightarrow> Inl (no_such_table t)
      | Some td \<Rightarrow> Inr (cascade cat t (tabs t) (tabs(t := []))))"

text \<open>
  A comparison \<^verbatim>\<open>column = ?\<close> with a string argument: integer columns apply numeric affinity
  to the argument (here: the text of an integer), NULL equals nothing.
\<close>

definition numeric_text :: "string \<Rightarrow> int option" where
  "numeric_text a =
     (case a of
        [] \<Rightarrow> None
      | c # cs \<Rightarrow>
          (case ParseUint (if c = CHR ''-'' \<or> c = CHR ''+'' then cs else a) 10 of
             Inl _ \<Rightarrow> None
           | Inr n \<Rightarrow> Some (if c = CHR ''-'' then - int n else int n)))"

fun col_eq_arg :: "sqlval \<Rightarrow> string \<Rightarrow> bool" where
  "col_eq_arg (SText s) a = (s = a)"
| "col_eq_arg (SInt i) a = (numeric_text a = Some i)"
| "col_eq_arg _ a = False"

text \<open>
  \<^verbatim>\<open>SELECT * FROM t WHERE c1 = ? AND ...\<close>. SQL has no empty \<^verbatim>\<open>WHERE\<close> clause: without
  conditions the text ends after the keyword and does not parse.
\<close>

definition sql_select :: "catalog \<Rightarrow> string \<Rightarrow> (string \<times> string) list \<Rightarrow> tables \<Rightarrow> row list result" where
  "sql_select cat t conds tabs =
     (if conds = [] then Inl ErrSQLSyntax
      else case map_of (cat_tables cat) t of
             None \<Rightarrow> Inl (no_such_table t)
           | Some td \<Rightarrow>
               if \<not> list_all (\<lambda>(c, _). c \<in> set (col_names td)) conds then Inl (no_such_column t)
               else Inr (filter (\<lambda>r. list_all (\<lambda>(c, a). col_eq_arg (cell r c) a) conds) (tabs t)))"

section \<open>Building statements\<close>

text \<open>
  The builders return the parts that they put into the statement text, and \<open>stmt_text\<close> is
  that text.
\<close>

datatype stmt =
    InsertStmt string "string list" "string list"
  | UpdateStmt string "(string \<times> string) list" string string
  | DeleteStmt string string string

fun stmt_text :: "stmt \<Rightarrow> string" where
  "stmt_text (InsertStmt t cols labels) =
     ''INSERT INTO `'' @ t @ ''` ('' @ strings_Join cols '','' @ '') VALUES ('' @
     strings_Join (map (\<lambda>l. CHR '':'' # l) labels) '','' @ '')''"
| "stmt_text (UpdateStmt t sets k l) =
     ''UPDATE `'' @ t @ ''` SET '' @
     strings_Join (map (\<lambda>(f, g). f @ ''=:'' @ g) sets) '','' @ '' WHERE '' @ k @ ''=:'' @ l"
| "stmt_text (DeleteStmt t k l) = ''DELETE FROM `'' @ t @ ''` WHERE '' @ k @ ''=:'' @ l"

definition buildInsertStatement :: "string \<Rightarrow> string \<Rightarrow> string list \<Rightarrow> stmt" where
  "buildInsertStatement table primaryKeyField flds =
     InsertStmt table (primaryKeyField # flds) (primaryKeyField # flds)"

definition buildUpdateStatement :: "string \<Rightarrow> string \<Rightarrow> string list \<Rightarrow> stmt" where
  "buildUpdateStatement table primaryKeyField flds =
     UpdateStmt table (map (\<lambda>f. (f, f)) flds) primaryKeyField primaryKeyField"

definition buildDeleteStatement :: "string \<Rightarrow> string \<Rightarrow> stmt" where
  "buildDeleteStatement table primaryKeyField = DeleteStmt table primaryKeyField primaryKeyField"

text \<open>
  \<^verbatim>\<open>NamedExec\<close> looks every label up in the fields of the object, then runs the statement.
\<close>

fun bind_labels :: "(string \<times> sqlval) list \<Rightarrow> string list \<Rightarrow> sqlval list result" where
  "bind_labels fs [] = Inr []"
| "bind_labels fs (l # ls) =
     (case map_of fs l of
        None \<Rightarrow> Inl ErrBind
      | Some v \<Rightarrow> (case bind_labels fs ls of Inl e \<Rightarrow> Inl e | Inr vs \<Rightarrow> Inr (v # vs)))"

fun NamedExec :: "sqlenv \<Rightarrow> catalog \<Rightarrow> stmt \<Rightarrow> (string \<times> sqlval) list \<Rightarrow> tables \<Rightarrow> tables result" where
  "NamedExec env cat (InsertStmt t cols labels) fs tabs =
     (case bind_labels fs labels of
        Inl e \<Rightarrow> Inl e
      | Inr vs \<Rightarrow>
          run_stmt env (stmt_text (InsertStmt t cols labels)) (sql_insert cat t (zip cols vs) tabs))"
| "NamedExec env cat (UpdateStmt t sets k l) fs tabs =
     (case bind_labels fs (map snd sets @ [l]) of
        Inl e \<Rightarrow> Inl e
      | Inr vs \<Rightarrow>
          if sets = [] then Inl ErrSQLSyntax
          else run_stmt env (stmt_text (UpdateStmt t sets k l))
                 (sql_update cat t (zip (map fst sets) vs) k (last vs) tabs))"
| "NamedExec env cat (DeleteStmt t k l) fs tabs =
     (case bind_labels fs [l] of
        Inl e \<Rightarrow> Inl e
      | Inr vs \<Rightarrow> run_stmt env (stmt_text (DeleteStmt t k l)) (sql_delete cat t k (last vs) tabs))"

record queryBuilder =
  qb_table :: string
  qb_clauses :: "string list"
  qb_args :: "string list"

definition newQueryBuilder :: "string \<Rightarrow> (string, string) gomap \<Rightarrow> queryBuilder" where
  "newQueryBuilder table query =
     \<lparr>qb_table = table, qb_clauses = map (\<lambda>(k, v). k @ '' = ?'') query, qb_args = map snd query\<rparr>"

definition query_text :: "queryBuilder \<Rightarrow> string" where
  "query_text q =
     ''SELECT * FROM `'' @ qb_table q @ ''` WHERE '' @ strings_Join (qb_clauses q) '' AND ''"

definition queryBuilder_exec :: "sqlenv \<Rightarrow> catalog \<Rightarrow> queryBuilder \<Rightarrow> tables \<Rightarrow> row list result" where
  "queryBuilder_exec env cat q tabs =
     run_stmt env (query_text q)
       (sql_select cat (qb_table q)
         (zip (map (\<lambda>c. take (length c - 4) c) (qb_clauses q)) (qb_args q)) tabs)"

end
