(* ===== verification/Data_Model.thy ===== *)
theory Data_Model
  imports Tables
begin

text \<open>
  The objects of the data store (\<^verbatim>\<open>datastore/model\<close>): peers, interfaces and tokens, with
  the column and JSON names given by their struct tags, and the conversions that
  \<^verbatim>\<open>database/sql\<close>, \<^verbatim>\<open>sqlx\<close> and \<^verbatim>\<open>encoding/json\<close> derive from those tags.
\<close>

section \<open>Objects\<close>

record Peer =
  peer_PublicKey :: string
  peer_Interface :: string
  peer_IP :: "CIDR option"
  peer_IP6 :: "CIDR option"
  peer_Expire :: gotime

record Interface =
  intf_Name :: string
  intf_Port :: int
  intf_IP :: "CIDR option"
  intf_IP6 :: "CIDR option"
  intf_Fwmark :: int
  intf_PrivateKey :: string
  intf_PublicKey :: string

record Token =
  tok_ID :: string
  tok_Secret :: string
  tok_Roles :: "string list"

text \<open>
  Values that travel as \<^verbatim>\<open>interface{}\<close>: pointers to the three struct types, and the plain
  values that untyped JSON decoding and the command line produce.
\<close>

datatype obj =
    OPeer Peer
  | OInterface Interface
  | OToken Token
  | OString string
  | OJson json

datatype gotype = TPeer | TInterface | TToken | TOther

fun obj_type :: "obj \<Rightarrow> gotype" where
  "obj_type (OPeer _) = TPeer"
| "obj_type (OInterface _) = TInterface"
| "obj_type (OToken _) = TToken"
| "obj_type _ = TOther"

definition Peer_zero :: Peer where
  "Peer_zero = \<lparr>peer_PublicKey = [], peer_Interface = [], peer_IP = None, peer_IP6 = None,
     peer_Expire = 0\<rparr>"

definition Interface_zero :: Interface where
  "Interface_zero = \<lparr>intf_Name = [], intf_Port = 0, intf_IP = None, intf_IP6 = None,
     intf_Fwmark = 0, intf_PrivateKey = [], intf_PublicKey = []\<rparr>"

definition Token_zero :: Token where
  "Token_zero = \<lparr>tok_ID = [], tok_Secret = [], tok_Roles = []\<rparr>"

section \<open>Comma-separated lists\<close>

definition CommaSepList_Value :: "string list \<Rightarrow> sqlval" where
  "CommaSepList_Value l = (if length l = 0 then SNull else SText (strings_Join l '',''))"

fun CommaSepList_Scan :: "sqlval \<Rightarrow> string list" where
  "CommaSepList_Scan (SText s) = strings_Split CHR '','' s"
| "CommaSepList_Scan _ = []"

lemma CommaSepList_roundtrip:
  "\<forall>r\<in>set l. CHR '','' \<notin> set r \<Longrightarrow> CommaSepList_Scan (CommaSepList_Value l) = l"
  by (cases "l = []") (simp_all add: CommaSepList_Value_def strings_Split_Join)

section \<open>Columns of an object\<close>

fun db_fields :: "obj \<Rightarrow> (string \<times> sqlval) list" where
  "db_fields (OPeer p) =
     [(''public_key'', SText (peer_PublicKey p)), (''interface'', SText (peer_Interface p)),
      (''ip'', CIDR_Value (peer_IP p)), (''ip6'', CIDR_Value (peer_IP6 p)),
      (''expire'', STime (peer_Expire p))]"
| "db_fields (OInterface i) =
     [(''name'', SText (intf_Name i)), (''port'', SInt (intf_Port i)),
      (''ip'', CIDR_Value (intf_IP i)), (''ip6'', CIDR_Value (intf_IP6 i)),
      (''fwmark'', SInt (intf_Fwmark i)), (''private_key'', SText (intf_PrivateKey i)),
      (''public_key'', SText (intf_PublicKey i))]"
| "db_fields (OToken t) =
     [(''id'', SText (tok_ID t)), (''secret'', SText (tok_Secret t)),
      (''roles'', CommaSepList_Value (tok_Roles t))]"
| "db_fields _ = []"

text \<open>
  \<^verbatim>\<open>StructScan\<close>: each column of a row goes to the field with its tag; a column without a
  field is an error, and so is a NULL for a field that is neither a pointer nor a scanner.
\<close>

definition ErrMissingField :: error where
  "ErrMissingField = ErrMsg ''missing destination name''"

definition ErrScan :: error where
  "ErrScan = ErrMsg ''unsupported Scan''"

fun scan_string :: "sqlval \<Rightarrow> string result" where
  "scan_string (SText s) = Inr s"
| "scan_string (SInt i) = Inr (if i < 0 then CHR ''-'' # FormatUint 10 (nat (- i)) else FormatUint 10 (nat i))"
| "scan_string _ = Inl ErrScan"

fun scan_int :: "sqlval \<Rightarrow> int result" where
  "scan_int (SInt i) = Inr i"
| "scan_int _ = Inl ErrScan"

fun scan_time :: "sqlval \<Rightarrow> gotime result" where
  "scan_time (STime t) = Inr t"
| "scan_time _ = Inl ErrScan"

definition Peer_scan_col :: "Peer \<Rightarrow> string \<Rightarrow> sqlval \<Rightarrow> Peer result" where
  "Peer_scan_col p c v =
     (if c = ''public_key'' then put_field (\<lambda>x. p\<lparr>peer_PublicKey := x\<rparr>) (scan_string v)
      else if c = ''interface'' then put_field (\<lambda>x. p\<lparr>peer_Interface := x\<rparr>) (scan_string v)
      else if c = ''ip'' then put_field (\<lambda>x. p\<lparr>peer_IP := x\<rparr>) (CIDR_Scan_ptr v)
      else if c = ''ip6'' then put_field (\<lambda>x. p\<lparr>peer_IP6 := x\<rparr>) (CIDR_Scan_ptr v)
      else if c = ''expire'' then put_field (\<lambda>x. p\<lparr>peer_Expire := x\<rparr>) (scan_time v)
      else Inl ErrMissingField)"

definition Interface_scan_col :: "Interface \<Rightarrow> string \<Rightarrow> sqlval \<Rightarrow> Interface result" where
  "Interface_scan_col i c v =
     (if c = ''name'' then put_field (\<lambda>x. i\<lparr>intf_Name := x\<rparr>) (scan_string v)
      else if c = ''port'' then put_field (\<lambda>x. i\<lparr>intf_Port := x\<rparr>) (scan_int v)
      else if c = ''ip'' then put_field (\<lambda>x. i\<lparr>intf_IP := x\<rparr>) (CIDR_Scan_ptr v)
      else if c = ''ip6'' then put_field (\<lambda>x. i\<lparr>intf_IP6 := x\<rparr>) (CIDR_Scan_ptr v)
      else if c = ''fwmark'' then put_field (\<lambda>x. i\<lparr>intf_Fwmark := x\<rparr>) (scan_int v)
      else if c = ''private_key'' then put_field (\<lambda>x. i\<lparr>intf_PrivateKey := x\<rparr>) (scan_string v)
      else if c = ''public_key'' then put_field (\<lambda>x. i\<lparr>intf_PublicKey := x\<rparr>) (scan_string v)
      else Inl ErrMissingField)"

definition Token_scan_col :: "Token \<Rightarrow> string \<Rightarrow> sqlval \<Rightarrow> Token result" where
  "Token_scan_col t c v =
     (if c = ''id'' then put_field (\<lambda>x. t\<lparr>tok_ID := x\<rparr>) (scan_string v)
      else if c = ''secret'' then put_field (\<lambda>x. t\<lparr>tok_Secret := x\<rparr>) (scan_string v)
      else if c = ''roles'' then Inr (t\<lparr>tok_Roles := CommaSepList_Scan v\<rparr>)
      else Inl ErrMissingField)"

fun scan_cols :: "('r \<Rightarrow> string \<Rightarrow> sqlval \<Rightarrow> 'r result) \<Rightarrow> 'r \<Rightarrow> row \<Rightarrow> 'r result" where
  "scan_cols setc r [] = Inr r"
| "scan_cols setc r ((c, v) # cs) =
     (case setc r c v of Inl e \<Rightarrow> Inl e | Inr r' \<Rightarrow> scan_cols setc r' cs)"

fun StructScan :: "gotype \<Rightarrow> row \<Rightarrow> obj result" where
  "StructScan TPeer r = put_field OPeer (scan_cols Peer_scan_col Peer_zero r)"
| "StructScan TInterface r = put_field OInterface (scan_cols Interface_scan_col Interface_zero r)"
| "StructScan TToken r = put_field OToken (scan_cols Token_scan_col Token_zero r)"
| "StructScan TOther r = Inl ErrMissingField"

section \<open>JSON form of an object\<close>

fun obj_MarshalJSON :: "obj \<Rightarrow> json" where
  "obj_MarshalJSON (OPeer p) =
     JObj [(''public_key'', JStr (peer_PublicKey p)), (''interface'', JStr (peer_Interface p)),
       (''ip'', CIDR_MarshalJSON (peer_IP p)), (''ip6'', CIDR_MarshalJSON (peer_IP6 p)),
       (''expire'', JTime (peer_Expire p))]"
| "obj_MarshalJSON (OInterface i) =
     JObj [(''name'', JStr (intf_Name i)), (''port'', JInt (intf_Port i)),
       (''ip'', CIDR_MarshalJSON (intf_IP i)), (''ip6'', CIDR_MarshalJSON (intf_IP6 i)),
       (''fwmark'', JInt (intf_Fwmark i)), (''private_key'', JStr (intf_PrivateKey i)),
       (''public_key'', JStr (intf_PublicKey i))]"
| "obj_MarshalJSON (OToken t) =
     JObj [(''id'', JStr (tok_ID t)), (''secret'', JStr (tok_Secret t)),
       (''roles'', enc_strings (tok_Roles t))]"
| "obj_MarshalJSON (OString s) = JStr s"
| "obj_MarshalJSON (OJson j) = j"

definition Peer_set :: "Peer \<Rightarrow> string \<Rightarrow> json \<Rightarrow> Peer result" where
  "Peer_set p k v =
     (if key_eq k ''public_key'' then put_field (\<lambda>x. p\<lparr>peer_PublicKey := x\<rparr>) (dec_string (peer_PublicKey p) v)
      else if key_eq k ''interface'' then put_field (\<lambda>x. p\<lparr>peer_Interface := x\<rparr>) (dec_string (peer_Interface p) v)
      else if key_eq k ''ip'' then put_field (\<lambda>x. p\<lparr>peer_IP := x\<rparr>) (CIDR_UnmarshalJSON (peer_IP p) v)
      else if key_eq k ''ip6'' then put_field (\<lambda>x. p\<lparr>peer_IP6 := x\<rparr>) (CIDR_UnmarshalJSON (peer_IP6 p) v)
      else if key_eq k ''expire'' then put_field (\<lambda>x. p\<lparr>peer_Expire := x\<rparr>) (dec_time (peer_Expire p) v)
      else Inr p)"

definition Interface_set :: "Interface \<Rightarrow> string \<Rightarrow> json \<Rightarrow> Interface result" where
  "Interface_set i k v =
     (if key_eq k ''name'' then put_field (\<lambda>x. i\<lparr>intf_Name := x\<rparr>) (dec_string (intf_Name i) v)
      else if key_eq k ''port'' then put_field (\<lambda>x. i\<lparr>intf_Port := x\<rparr>) (dec_int (intf_Port i) v)
      else if key_eq k ''ip'' then put_field (\<lambda>x. i\<lparr>intf_IP := x\<rparr>) (CIDR_UnmarshalJSON (intf_IP i) v)
      else if key_eq k ''ip6'' then put_field (\<lambda>x. i\<lparr>intf_IP6 := x\<rparr>) (CIDR_UnmarshalJSON (intf_IP6 i) v)
      else if key_eq k ''fwmark'' then put_field (\<lambda>x. i\<lparr>intf_Fwmark := x\<rparr>) (dec_int (intf_Fwmark i) v)
      else if key_eq k ''private_key'' then put_field (\<lambda>x. i\<lparr>intf_PrivateKey := x\<rparr>) (dec_string (intf_PrivateKey i) v)
      else if key_eq k ''public_key'' then put_field (\<lambda>x. i\<lparr>intf_PublicKey := x\<rparr>) (dec_string (intf_PublicKey i) v)
      else Inr i)"

definition Token_set :: "Token \<Rightarrow> string \<Rightarrow> json \<Rightarrow> Token result" where
  "Token_set t k v =
     (if key_eq k ''id'' then put_field (\<lambda>x. t\<lparr>tok_ID := x\<rparr>) (dec_string (tok_ID t) v)
      else if key_eq k ''secret'' then put_field (\<lambda>x. t\<lparr>tok_Secret := x\<rparr>) (dec_string (tok_Secret t) v)
      else if key_eq k ''roles'' then put_field (\<lambda>x. t\<lparr>tok_Roles := x\<rparr>) (dec_strings (tok_Roles t) v)
      else Inr t)"

text \<open>\<^verbatim>\<open>json.Unmarshal\<close> into a new instance of a type, or into an untyped value.\<close>

fun obj_UnmarshalJSON :: "gotype \<Rightarrow> json \<Rightarrow> obj result" where
  "obj_UnmarshalJSON TPeer j = put_field OPeer (dec_struct Peer_set Peer_zero j)"
| "obj_UnmarshalJSON TInterface j = put_field OInterface (dec_struct Interface_set Interface_zero j)"
| "obj_UnmarshalJSON TToken j = put_field OToken (dec_struct Token_set Token_zero j)"
| "obj_UnmarshalJSON TOther j = Inr (OJson j)"

text \<open>
  An object is well formed when its networks are textual and its integers fit the machine
  type of their Go field; role names hold no comma.
\<close>

definition int_ok :: "int \<Rightarrow> bool" where
  "int_ok i = (- (2 ^ 63) \<le> i \<and> i < 2 ^ 63)"

fun obj_wf :: "obj \<Rightarrow> bool" where
  "obj_wf (OPeer p) = (CIDR_textual (peer_IP p) \<and> CIDR_textual (peer_IP6 p))"
| "obj_wf (OInterface i) =
     (CIDR_textual (intf_IP i) \<and> CIDR_textual (intf_IP6 i) \<and> int_ok (intf_Port i) \<and> int_ok (intf_Fwmark i))"
| "obj_wf (OToken t) = list_all (\<lambda>r. CHR '','' \<notin> set r) (tok_Roles t)"
| "obj_wf _ = False"

lemma key_eq_peer_tags [simp]:
  "\<not> key_eq ''interface'' ''public_key''"
  "\<not> key_eq ''ip'' ''public_key''" "\<not> key_eq ''ip'' ''interface''"
  "\<not> key_eq ''ip6'' ''public_key''" "\<not> key_eq ''ip6'' ''interface''" "\<not> key_eq ''ip6'' ''ip''"
  "\<not> key_eq ''expire'' ''public_key''" "\<not> key_eq ''expire'' ''interface''"
  "\<not> key_eq ''expire'' ''ip''" "\<not> key_eq ''expire'' ''ip6''"
  by (simp_all add: key_eq_def lower_char_def)

lemma key_eq_interface_tags [simp]:
  "\<not> key_eq ''port'' ''name''" "\<not> key_eq ''ip'' ''name''" "\<not> key_eq ''ip'' ''port''"
  "\<not> key_eq ''ip6'' ''name''" "\<not> key_eq ''ip6'' ''port''"
  "\<not> key_eq ''fwmark'' ''name''" "\<not> key_eq ''fwmark'' ''port''" "\<not> key_eq ''fwmark'' ''ip''"
  "\<not> key_eq ''fwmark'' ''ip6''" "\<not> key_eq ''private_key'' ''name''" "\<not> key_eq ''private_key'' ''port''"
  "\<not> key_eq ''private_key'' ''ip''" "\<not> key_eq ''private_key'' ''ip6''" "\<not> key_eq ''private_key'' ''fwmark''"
  "\<not> key_eq ''public_key'' ''name''" "\<not> key_eq ''public_key'' ''port''" "\<not> key_eq ''public_key'' ''ip''"
  "\<not> key_eq ''public_key'' ''ip6''" "\<not> key_eq ''public_key'' ''fwmark''"
  "\<not> key_eq ''public_key'' ''private_key''"
  by (simp_all add: key_eq_def lower_char_def)

lemma key_eq_token_tags [simp]:
  "\<not> key_eq ''secret'' ''id''" "\<not> key_eq ''roles'' ''id''" "\<not> key_eq ''roles'' ''secret''"
  by (simp_all add: key_eq_def lower_char_def)

lemma obj_Unmarshal_Marshal:
  "obj_wf ob \<Longrightarrow> obj_UnmarshalJSON (obj_type ob) (obj_MarshalJSON ob) = Inr ob"
  by (cases ob)
    (simp_all add: Peer_set_def Interface_set_def Token_set_def Peer_zero_def Interface_zero_def
      Token_zero_def CIDR_Unmarshal_Marshal int_ok_def)

end
