(* ===== verification/Crud.thy ===== *)
theory Crud
  imports Data_Model
begin

text \<open>
  The generic CRUD layer (\<^verbatim>\<open>datastore/crud\<close>): table adapters, the registry of types, the
  dispatcher that routes operations by the type of the object, the reader, the read-only
  writer and the encoding of objects as self-describing values; and the three types of the
  data model registered in it (\<^verbatim>\<open>datastore/model\<close>).
\<close>

section \<open>Values from the command line\<close>

type_synonym Values = "(string, string) gomap"

definition Values_add :: "Values \<Rightarrow> string \<Rightarrow> Values" where
  "Values_add v k = map_put k [] v"

definition Values_Get :: "Values \<Rightarrow> string \<Rightarrow> string" where
  "Values_Get v k = (case map_of v k of Some s \<Rightarrow> s | None \<Rightarrow> [])"

section \<open>Table adapters\<close>

record sqlTableAdapter =
  ad_typename :: string
  ad_table :: string
  ad_allFields :: "string list"
  ad_newFn :: gotype
  ad_newFnValues :: "Values \<Rightarrow> obj result"
  ad_insStmt :: stmt
  ad_updStmt :: stmt
  ad_delStmt :: stmt

definition NewSQLTableType :: "string \<Rightarrow> string \<Rightarrow> string \<Rightarrow> string list \<Rightarrow> gotype \<Rightarrow>
    (Values \<Rightarrow> obj result) \<Rightarrow> sqlTableAdapter" where
  "NewSQLTableType typename table primaryKey flds newFn newFnValues =
     \<lparr>ad_typename = typename, ad_table = table, ad_allFields = primaryKey # flds,
      ad_newFn = newFn, ad_newFnValues = newFnValues,
      ad_insStmt = buildInsertStatement table primaryKey flds,
      ad_updStmt = buildUpdateStatement table primaryKey flds,
      ad_delStmt = buildDeleteStatement table primaryKey\<rparr>"

definition adapter_PrimaryKeyField :: "sqlTableAdapter \<Rightarrow> string" where
  "adapter_PrimaryKeyField t = ad_allFields t ! 0"

definition adapter_Create :: "sqlenv \<Rightarrow> sqlTableAdapter \<Rightarrow> obj \<Rightarrow> tables \<Rightarrow> tables result" where
  "adapter_Create env t ob tabs = NamedExec env wig_catalog (ad_insStmt t) (db_fields ob) tabs"

definition adapter_Update :: "sqlenv \<Rightarrow> sqlTableAdapter \<Rightarrow> obj \<Rightarrow> tables \<Rightarrow> tables result" where
  "adapter_Update env t ob tabs = NamedExec env wig_catalog (ad_updStmt t) (db_fields ob) tabs"

definition adapter_Delete :: "sqlenv \<Rightarrow> sqlTableAdapter \<Rightarrow> obj \<Rightarrow> tables \<Rightarrow> tables result" where
  "adapter_Delete env t ob tabs = NamedExec env wig_catalog (ad_delStmt t) (db_fields ob) tabs"

definition adapter_DeleteAll :: "sqlenv \<Rightarrow> sqlTableAdapter \<Rightarrow> tables \<Rightarrow> tables result" where
  "adapter_DeleteAll env t tabs =
     run_stmt env (''DELETE FROM `'' @ ad_table t @ ''`'') (sql_delete_all wig_catalog (ad_table t) tabs)"

definition adapter_Count :: "sqlenv \<Rightarrow> sqlTableAdapter \<Rightarrow> tables \<Rightarrow> nat" where
  "adapter_Count env t tabs =
     (case run_stmt env (''SELECT COUNT(*) FROM `'' @ ad_table t @ ''`'')
             (case map_of (cat_tables wig_catalog) (ad_table t) of
                None \<Rightarrow> Inl (no_such_table (ad_table t)) | Some _ \<Rightarrow> Inr (length (tabs (ad_table t)))) of
        Inl _ \<Rightarrow> 0
      | Inr n \<Rightarrow> n)"

text \<open>
  The loop of \<^verbatim>\<open>Find\<close>: every row is scanned into a new object and handed to the callback,
  which may change the caller's state and may stop the loop with an error.
\<close>

fun find_loop :: "sqlenv \<Rightarrow> gotype \<Rightarrow> (obj \<Rightarrow> 's \<Rightarrow> error option \<times> 's) \<Rightarrow> row list \<Rightarrow> 's \<Rightarrow>
    error option \<times> 's" where
  "find_loop env ty f [] s = (stmt_err env ''rows.Err'', s)"
| "find_loop env ty f (r # rs) s =
     (case StructScan ty r of
        Inl e \<Rightarrow> (Some e, s)
      | Inr ob \<Rightarrow>
          (case f ob s of
             (Some e, s') \<Rightarrow> (Some e, s')
           | (None, s') \<Rightarrow> find_loop env ty f rs s'))"

definition adapter_Find :: "sqlenv \<Rightarrow> sqlTableAdapter \<Rightarrow> (string, string) gomap \<Rightarrow>
    (obj \<Rightarrow> 's \<Rightarrow> error option \<times> 's) \<Rightarrow> tables \<Rightarrow> 's \<Rightarrow> error option \<times> 's" where
  "adapter_Find env t query f tabs s =
     (case queryBuilder_exec env wig_catalog (newQueryBuilder (ad_table t) query) tabs of
        Inl e \<Rightarrow> (Some e, s)
      | Inr rows \<Rightarrow> find_loop env (ad_newFn t) f rows s)"

definition adapter_Each :: "sqlenv \<Rightarrow> sqlTableAdapter \<Rightarrow> (obj \<Rightarrow> 's \<Rightarrow> error option \<times> 's) \<Rightarrow>
    tables \<Rightarrow> 's \<Rightarrow> error option \<times> 's" where
  "adapter_Each env t f tabs s = adapter_Find env t [] f tabs s"

section \<open>The registry of types\<close>

record registry =
  byType :: "(gotype, sqlTableAdapter) gomap"
  byName :: "(string, sqlTableAdapter) gomap"

definition newRegistry :: registry where
  "newRegistry = \<lparr>byType = [], byName = []\<rparr>"

definition Register :: "sqlTableAdapter \<Rightarrow> registry \<Rightarrow> registry" where
  "Register m r = r\<lparr>byType := map_put (ad_newFn m) m (byType r),
                    byName := map_put (ad_typename m) m (byName r)\<rparr>"

definition getType :: "registry \<Rightarrow> obj \<Rightarrow> sqlTableAdapter option" where
  "getType r ob = map_of (byType r) (obj_type ob)"

definition getTypeByName :: "registry \<Rightarrow> string \<Rightarrow> sqlTableAdapter option" where
  "getTypeByName r name = map_of (byName r) name"

text \<open>
  \<^verbatim>\<open>each\<close> ranges over a map, in an order the runtime chooses: the argument \<open>ord\<close>, a
  listing of the names. The callback may not return (\<open>None\<close>).
\<close>

fun registry_each :: "registry \<Rightarrow> (sqlTableAdapter \<Rightarrow> 's \<Rightarrow> (error option \<times> 's) option) \<Rightarrow>
    string list \<Rightarrow> 's \<Rightarrow> (error option \<times> 's) option" where
  "registry_each r f [] s = Some (None, s)"
| "registry_each r f (n # ns) s =
     (case map_of (byName r) n of
        None \<Rightarrow> registry_each r f ns s
      | Some m \<Rightarrow>
          (case f m s of
             None \<Rightarrow> None
           | Some (Some e, s') \<Rightarrow> Some (Some e, s')
           | Some (None, s') \<Rightarrow> registry_each r f ns s'))"

definition map_order :: "registry \<Rightarrow> string list \<Rightarrow> bool" where
  "map_order r ord = (distinct ord \<and> set ord = fst ` set (byName r))"

section \<open>The dispatcher\<close>

definition dispatcher_Create :: "sqlenv \<Rightarrow> registry \<Rightarrow> obj \<Rightarrow> tables \<Rightarrow> tables result" where
  "dispatcher_Create env r ob tabs =
     (case getType r ob of None \<Rightarrow> Inl ErrUnknownType | Some m \<Rightarrow> adapter_Create env m ob tabs)"

definition dispatcher_Update :: "sqlenv \<Rightarrow> registry \<Rightarrow> obj \<Rightarrow> tables \<Rightarrow> tables result" where
  "dispatcher_Update env r ob tabs =
     (case getType r ob of None \<Rightarrow> Inl ErrUnknownType | Some m \<Rightarrow> adapter_Update env m ob tabs)"

definition dispatcher_Delete :: "sqlenv \<Rightarrow> registry \<Rightarrow> obj \<Rightarrow> tables \<Rightarrow> tables result" where
  "dispatcher_Delete env r ob tabs =
     (case getType r ob of None \<Rightarrow> Inl ErrUnknownType | Some m \<Rightarrow> adapter_Delete env m ob tabs)"

text \<open>
  \<^verbatim>\<open>DeleteAll\<close> of the dispatcher calls itself for every registered type. The first argument
  is the depth of the stack, \<open>None\<close> its overflow; \<open>ords d\<close> is the map order the call at
  depth \<open>d\<close> sees.
\<close>

primrec dispatcher_DeleteAll :: "nat \<Rightarrow> registry \<Rightarrow> (nat \<Rightarrow> string list) \<Rightarrow> tables \<Rightarrow>
    (error option \<times> tables) option" where
  "dispatcher_DeleteAll 0 r ords tabs = None"
| "dispatcher_DeleteAll (Suc d) r ords tabs =
     registry_each r (\<lambda>m. dispatcher_DeleteAll d r ords) (ords d) tabs"

definition dispatcher_Count :: "sqlenv \<Rightarrow> registry \<Rightarrow> string list \<Rightarrow> tables \<Rightarrow> nat" where
  "dispatcher_Count env r ord tabs =
     (case registry_each r (\<lambda>m count. Some (None, count + adapter_Count env m tabs)) ord 0 of
        Some (_, count) \<Rightarrow> count
      | None \<Rightarrow> 0)"

definition dispatcher_Each :: "sqlenv \<Rightarrow> registry \<Rightarrow> string list \<Rightarrow> (obj \<Rightarrow> 's \<Rightarrow> error option \<times> 's) \<Rightarrow>
    tables \<Rightarrow> 's \<Rightarrow> (error option \<times> 's) option" where
  "dispatcher_Each env r ord f tabs s =
     registry_each r (\<lambda>m s. Some (adapter_Each env m f tabs s)) ord s"

section \<open>Readers and writers\<close>

text \<open>\<^verbatim>\<open>SQLReader.Find\<close>; the callback's state is the memory of the transaction.\<close>

definition SQLReader_Find :: "sqlenv \<Rightarrow> registry \<Rightarrow> string \<Rightarrow> (string, string) gomap \<Rightarrow>
    (obj \<Rightarrow> 's \<Rightarrow> error option \<times> 's) \<Rightarrow> (tables, 's, unit) txbody" where
  "SQLReader_Find env r typ query f =
     (case getTypeByName r typ of
        None \<Rightarrow> (\<lambda>s. (Returns (Inl ErrUnknownType), s))
      | Some t \<Rightarrow>
          WithTx env (\<lambda>(tabs, s).
            case adapter_Find env t query f tabs s of
              (Some e, s') \<Rightarrow> (Returns (Inl e), (tabs, s'))
            | (None, s') \<Rightarrow> (Returns (Inr ()), (tabs, s'))))"

definition roWriter_Create :: "obj \<Rightarrow> 's \<Rightarrow> error option \<times> 's" where
  "roWriter_Create ob s = (Some ErrReadonly, s)"

definition roWriter_Update :: "obj \<Rightarrow> 's \<Rightarrow> error option \<times> 's" where
  "roWriter_Update ob s = (Some ErrReadonly, s)"

definition roWriter_Delete :: "obj \<Rightarrow> 's \<Rightarrow> error option \<times> 's" where
  "roWriter_Delete ob s = (Some ErrReadonly, s)"

section \<open>The encoding of values\<close>

record valueContainer =
  vc_Type :: string
  vc_Data :: "json option"

definition valueContainer_set :: "valueContainer \<Rightarrow> string \<Rightarrow> json \<Rightarrow> valueContainer result" where
  "valueContainer_set c k v =
     (if key_eq k ''type'' then put_field (\<lambda>x. c\<lparr>vc_Type := x\<rparr>) (dec_string (vc_Type c) v)
      else if key_eq k ''data'' then put_field (\<lambda>x. c\<lparr>vc_Data := x\<rparr>) (dec_bytes (vc_Data c) v)
      else Inr c)"

definition MarshalValue :: "registry \<Rightarrow> obj \<Rightarrow> json result" where
  "MarshalValue r ob =
     (let encoded = obj_MarshalJSON ob
      in case getType r ob of
           None \<Rightarrow> Inl ErrUnknownType
         | Some m \<Rightarrow> Inr (JObj [(''type'', JStr (ad_typename m)), (''data'', JBytes encoded)]))"

definition UnmarshalValue :: "registry \<Rightarrow> json \<Rightarrow> obj result" where
  "UnmarshalValue r b =
     (case dec_struct valueContainer_set \<lparr>vc_Type = [], vc_Data = None\<rparr> b of
        Inl e \<Rightarrow> Inl e
      | Inr cont \<Rightarrow>
          (case map_of (byName r) (vc_Type cont) of
             None \<Rightarrow> Inl ErrUnknownType
           | Some m \<Rightarrow>
               (case vc_Data cont of
                  None \<Rightarrow> Inl (ErrMsg ''unexpected end of JSON input'')
                | Some d \<Rightarrow> obj_UnmarshalJSON (ad_newFn m) d)))"

section \<open>The registered types\<close>

text \<open>
  Key parsing belongs to the Wireguard library: an argument \<open>wgkeys\<close>, which gives the text of
  a parsed key and the public key of a private key.
\<close>

record wgkeys =
  wg_ParseKey :: "string \<Rightarrow> string result"
  wg_PublicKey :: "string \<Rightarrow> string"

definition opt_CIDR :: "string \<Rightarrow> CIDR option result" where
  "opt_CIDR s =
     (if s \<noteq> [] then (case ParseCIDR s of Inl e \<Rightarrow> Inl e | Inr c \<Rightarrow> Inr (Some c)) else Inr None)"

definition Peer_from_values :: "wgkeys \<Rightarrow> Values \<Rightarrow> obj result" where
  "Peer_from_values wg values =
     (let s = Values_Get values ''public_key''
      in case (if s \<noteq> [] then (case wg_ParseKey wg s of Inl e \<Rightarrow> Inl e | Inr _ \<Rightarrow> Inr s) else Inr []) of
           Inl e \<Rightarrow> Inl e
         | Inr pk \<Rightarrow>
             (case opt_CIDR (Values_Get values ''ip'') of
                Inl e \<Rightarrow> Inl e
              | Inr ip \<Rightarrow>
                  (case opt_CIDR (Values_Get values ''ip6'') of
                     Inl e \<Rightarrow> Inl e
                   | Inr ip6 \<Rightarrow>
                       Inr (OPeer (Peer_zero\<lparr>peer_PublicKey := pk, peer_IP := ip, peer_IP6 := ip6,
                         peer_Interface := Values_Get values ''interface''\<rparr>)))))"

definition Interface_from_values :: "wgkeys \<Rightarrow> Values \<Rightarrow> obj result" where
  "Interface_from_values wg values =
     (let s = Values_Get values ''private_key''
      in case (if s \<noteq> [] then (case wg_ParseKey wg s of Inl e \<Rightarrow> Inl e | Inr k \<Rightarrow> Inr (k, wg_PublicKey wg k))
               else Inr ([], [])) of
           Inl e \<Rightarrow> Inl e
         | Inr (priv, pub) \<Rightarrow>
             (case opt_CIDR (Values_Get values ''ip'') of
                Inl e \<Rightarrow> Inl e
              | Inr ip \<Rightarrow>
                  (case opt_CIDR (Values_Get values ''ip6'') of
                     Inl e \<Rightarrow> Inl e
                   | Inr ip6 \<Rightarrow>
                       Inr (OInterface \<lparr>intf_Name = Values_Get values ''name'',
                         intf_Port = Atoi_value (Values_Get values ''port''),
                         intf_IP = ip, intf_IP6 = ip6,
                         intf_Fwmark = Atoi_value (Values_Get values ''fwmark''),
                         intf_PrivateKey = priv, intf_PublicKey = pub\<rparr>))))"

definition Token_from_values :: "Values \<Rightarrow> obj result" where
  "Token_from_values values =
     Inr (OToken \<lparr>tok_ID = Values_Get values ''id'', tok_Secret = Values_Get values ''secret'',
       tok_Roles = strings_Split CHR '','' (Values_Get values ''roles'')\<rparr>)"

definition PeerType :: "wgkeys \<Rightarrow> sqlTableAdapter" where
  "PeerType wg = NewSQLTableType ''peer'' ''peers'' ''public_key''
     [''ip'', ''ip6'', ''interface'', ''expire''] TPeer (Peer_from_values wg)"

definition InterfaceType :: "wgkeys \<Rightarrow> sqlTableAdapter" where
  "InterfaceType wg = NewSQLTableType ''interface'' ''interfaces'' ''name''
     [''ip'', ''ip6'', ''fwmark'', ''port'', ''private_key'', ''public_key''] TInterface
     (Interface_from_values wg)"

definition TokenType :: sqlTableAdapter where
  "TokenType = NewSQLTableType ''token'' ''tokens'' ''id'' [''secret'', ''roles''] TToken
     Token_from_values"

definition Model :: "wgkeys \<Rightarrow> registry" where
  "Model wg = Register TokenType (Register (InterfaceType wg) (Register (PeerType wg) newRegistry))"

end
