(* ===== verification/Crud_Props.thy ===== *)
theory Crud_Props
  imports Crud
begin

text \<open>
  What the CRUD layer does with the objects of the data model: the effect of every operation
  on the tables, the integrity of the tables, storing and finding again, the encoding of
  values, and the two operations that never succeed.
\<close>

section \<open>The registered types\<close>

lemma byType_Model:
  "map_of (byType (Model wg)) =
     [TPeer \<mapsto> PeerType wg, TInterface \<mapsto> InterfaceType wg, TToken \<mapsto> TokenType]"
  by (auto simp: Model_def Register_def newRegistry_def PeerType_def InterfaceType_def TokenType_def
      NewSQLTableType_def)

lemma byName_Model:
  "map_of (byName (Model wg)) =
     [''peer'' \<mapsto> PeerType wg, ''interface'' \<mapsto> InterfaceType wg, ''token'' \<mapsto> TokenType]"
  by (auto simp: Model_def Register_def newRegistry_def PeerType_def InterfaceType_def TokenType_def
      NewSQLTableType_def)

lemma byName_Model_keys: "fst ` set (byName (Model wg)) = {''peer'', ''interface'', ''token''}"
  by (simp add: Model_def Register_def newRegistry_def PeerType_def InterfaceType_def TokenType_def
      NewSQLTableType_def)

lemma getType_Model [simp]:
  "getType (Model wg) (OPeer p) = Some (PeerType wg)"
  "getType (Model wg) (OInterface i) = Some (InterfaceType wg)"
  "getType (Model wg) (OToken t) = Some TokenType"
  "getType (Model wg) (OString s) = None"
  "getType (Model wg) (OJson j) = None"
  by (simp_all add: getType_def byType_Model)

lemma adapter_simps [simp]:
  "ad_typename (PeerType wg) = ''peer''" "ad_typename (InterfaceType wg) = ''interface''"
  "ad_typename TokenType = ''token''"
  "ad_newFn (PeerType wg) = TPeer" "ad_newFn (InterfaceType wg) = TInterface" "ad_newFn TokenType = TToken"
  "ad_table (PeerType wg) = ''peers''" "ad_table (InterfaceType wg) = ''interfaces''"
  "ad_table TokenType = ''tokens''"
  by (simp_all add: PeerType_def InterfaceType_def TokenType_def NewSQLTableType_def)

fun table_of :: "obj \<Rightarrow> string" where
  "table_of (OPeer _) = ''peers''"
| "table_of (OInterface _) = ''interfaces''"
| "table_of (OToken _) = ''tokens''"
| "table_of _ = []"

fun key_col :: "obj \<Rightarrow> string" where
  "key_col (OPeer _) = ''public_key''"
| "key_col (OInterface _) = ''name''"
| "key_col (OToken _) = ''id''"
| "key_col _ = []"

fun key_of :: "obj \<Rightarrow> string" where
  "key_of (OPeer p) = peer_PublicKey p"
| "key_of (OInterface i) = intf_Name i"
| "key_of (OToken t) = tok_ID t"
| "key_of _ = []"

fun storable :: "obj \<Rightarrow> bool" where
  "storable (OString _) = False"
| "storable (OJson _) = False"
| "storable _ = True"

definition has_key :: "row list \<Rightarrow> string \<Rightarrow> string \<Rightarrow> bool" where
  "has_key rows k v = (\<exists>r\<in>set rows. cell r k = SText v)"

fun parent_ok :: "tables \<Rightarrow> obj \<Rightarrow> bool" where
  "parent_ok tabs (OPeer p) = has_key (tabs ''interfaces'') ''name'' (peer_Interface p)"
| "parent_ok tabs _ = True"

section \<open>The effect of the operations\<close>

declare stmt_text.simps [simp del]

lemma catalog_lookup:
  "map_of (cat_tables wig_catalog) ''peers'' =
     Some \<lparr>tb_cols = [col_key ''public_key'' ''SMALLTEXT'', col_nn ''interface'' ''SMALLTEXT'',
           col ''ip'' ''TEXT'', col ''ip6'' ''TEXT'', col ''expire'' ''DATETIME''],
          tb_fks = [(''interface'', ''interfaces'', ''name'')]\<rparr>"
  "map_of (cat_tables wig_catalog) ''interfaces'' =
     Some \<lparr>tb_cols = [col_key ''name'' ''SMALLTEXT'', col ''port'' ''INTEGER'', col ''ip'' ''TEXT'',
           col ''ip6'' ''TEXT'', col ''fwmark'' ''INTEGER'', col ''private_key'' ''TEXT'',
           col ''public_key'' ''TEXT''], tb_fks = []\<rparr>"
  "map_of (cat_tables wig_catalog) ''tokens'' =
     Some \<lparr>tb_cols = [col_key ''id'' ''TEXT'', col_nn ''secret'' ''TEXT'', col ''roles'' ''TEXT''],
          tb_fks = []\<rparr>"
  by (simp_all add: wig_catalog_def)

lemma Create_effect:
  assumes "storable ob"
  shows "dispatcher_Create sql_ok (Model wg) ob tabs =
    (if has_key (tabs (table_of ob)) (key_col ob) (key_of ob) then Inl ErrUnique
     else if \<not> parent_ok tabs ob then Inl ErrForeignKey
     else Inr (tabs(table_of ob := tabs (table_of ob) @ [db_fields ob])))"
  using assms
  by (cases ob)
    (auto simp: dispatcher_Create_def adapter_Create_def PeerType_def InterfaceType_def TokenType_def
      NewSQLTableType_def buildInsertStatement_def sql_insert_def catalog_lookup col_defs
      notnull_ok_def pk_free_def pk_col_def fk_ok_def has_key_def list_all_iff list_ex_iff Let_def)

text \<open>A failure of the engine can only turn a success into an error.\<close>

lemma NamedExec_env:
  "NamedExec env cat st fs tabs = Inr t \<Longrightarrow> NamedExec sql_ok cat st fs tabs = Inr t"
  by (cases st) (auto split: sum.splits if_splits)

lemma Create_env:
  "dispatcher_Create env r ob tabs = Inr t \<Longrightarrow> dispatcher_Create sql_ok r ob tabs = Inr t"
  by (auto simp: dispatcher_Create_def adapter_Create_def NamedExec_env split: option.splits)

lemma Update_env:
  "dispatcher_Update env r ob tabs = Inr t \<Longrightarrow> dispatcher_Update sql_ok r ob tabs = Inr t"
  by (auto simp: dispatcher_Update_def adapter_Update_def NamedExec_env split: option.splits)

lemma Delete_env:
  "dispatcher_Delete env r ob tabs = Inr t \<Longrightarrow> dispatcher_Delete sql_ok r ob tabs = Inr t"
  by (auto simp: dispatcher_Delete_def adapter_Delete_def NamedExec_env split: option.splits)

text \<open>
  An update replaces the row with the key of the object, keeps all others, and does nothing
  when there is none.
\<close>

definition row_shape :: "obj \<Rightarrow> row \<Rightarrow> bool" where
  "row_shape ob r = (map fst r = map fst (db_fields ob))"

definition replace_row :: "obj \<Rightarrow> row list \<Rightarrow> row list" where
  "replace_row ob rows = map (\<lambda>r. if cell r (key_col ob) = SText (key_of ob) then db_fields ob else r) rows"

lemma map_fst_eq_Cons: "map fst r = c # cs \<longleftrightarrow> (\<exists>v r'. r = (c, v) # r' \<and> map fst r' = cs)"
  by (cases r) auto

lemma matches_SText: "matches k (SText v) = (\<lambda>r. cell r k = SText v)"
  by (simp add: matches_def fun_eq_iff)

fun set_list :: "obj \<Rightarrow> row" where
  "set_list (OPeer p) =
     [(''ip'', CIDR_Value (peer_IP p)), (''ip6'', CIDR_Value (peer_IP6 p)),
      (''interface'', SText (peer_Interface p)), (''expire'', STime (peer_Expire p))]"
| "set_list (OInterface i) =
     [(''ip'', CIDR_Value (intf_IP i)), (''ip6'', CIDR_Value (intf_IP6 i)),
      (''fwmark'', SInt (intf_Fwmark i)), (''port'', SInt (intf_Port i)),
      (''private_key'', SText (intf_PrivateKey i)), (''public_key'', SText (intf_PublicKey i))]"
| "set_list (OToken t) =
     [(''secret'', SText (tok_Secret t)), (''roles'', CommaSepList_Value (tok_Roles t))]"
| "set_list _ = []"

lemma set_cells_row:
  "storable ob \<Longrightarrow> row_shape ob r \<Longrightarrow> cell r (key_col ob) = SText (key_of ob) \<Longrightarrow>
   set_cells (set_list ob) r = db_fields ob"
  by (cases ob) (auto simp: row_shape_def map_fst_eq_Cons set_cells_def)

lemma NamedExec_Update:
  "storable ob \<Longrightarrow>
   dispatcher_Update sql_ok (Model wg) ob tabs =
     sql_update wig_catalog (table_of ob) (set_list ob) (key_col ob) (SText (key_of ob)) tabs"
  by (cases ob)
    (simp_all add: dispatcher_Update_def adapter_Update_def PeerType_def InterfaceType_def TokenType_def
      NewSQLTableType_def buildUpdateStatement_def)

lemma update_rows:
  assumes "storable ob" "\<forall>r\<in>set rows. row_shape ob r"
  shows "map (\<lambda>r. if cell r (key_col ob) = SText (key_of ob) then set_cells (set_list ob) r else r) rows =
      replace_row ob rows"
    and "map (set_cells (set_list ob)) (filter (\<lambda>r. cell r (key_col ob) = SText (key_of ob)) rows) =
      map (\<lambda>_. db_fields ob) (filter (\<lambda>r. cell r (key_col ob) = SText (key_of ob)) rows)"
  using assms by (simp_all add: replace_row_def set_cells_row)

lemma Update_effect:
  assumes "storable ob" "\<forall>r\<in>set (tabs (table_of ob)). row_shape ob r"
  shows "dispatcher_Update sql_ok (Model wg) ob tabs =
    (if has_key (tabs (table_of ob)) (key_col ob) (key_of ob) \<and> \<not> parent_ok tabs ob then Inl ErrForeignKey
     else Inr (tabs(table_of ob := replace_row ob (tabs (table_of ob)))))"
proof -
  note rows = update_rows [OF assms]
  show ?thesis
    unfolding NamedExec_Update [OF assms(1)] sql_update_def matches_SText
    using assms(1) rows
    by (cases ob)
      (auto simp: catalog_lookup col_defs Let_def notnull_ok_def fk_ok_def has_key_def list_all_iff list_ex_iff)
qed

definition without_key :: "string \<Rightarrow> string \<Rightarrow> row list \<Rightarrow> row list" where
  "without_key k v rows = filter (\<lambda>r. cell r k \<noteq> SText v) rows"

lemma wig_fks: "map_of (cat_tables wig_catalog) t = Some td \<Longrightarrow> t \<noteq> ''peers'' \<Longrightarrow> tb_fks td = []"
  by (auto simp: wig_catalog_def split: if_splits)

lemma cascade_wig:
  "cascade wig_catalog t gone tabs =
     tabs(''peers'' := filter (\<lambda>r. \<not> refers [(''interface'', ''interfaces'', ''name'')] t gone r) (tabs ''peers''))"
proof
  fix t'
  show "cascade wig_catalog t gone tabs t' =
     (tabs(''peers'' := filter (\<lambda>r. \<not> refers [(''interface'', ''interfaces'', ''name'')] t gone r) (tabs ''peers''))) t'"
    by (cases "t' = ''peers''")
      (auto simp: cascade_def catalog_lookup refers_def dest: wig_fks split: option.splits)
qed

lemma refers_name:
  "filter (\<lambda>r. \<not> refers [(''interface'', ''interfaces'', ''name'')] ''interfaces''
       (filter (\<lambda>r. cell r ''name'' = SText v) is) r) ps =
   (if has_key is ''name'' v then without_key ''interface'' v ps else ps)"
  by (induction ps) (auto simp: refers_def has_key_def without_key_def list_ex_iff)

text \<open>
  A delete removes the row with the key of the object; deleting an interface that exists also
  removes its peers.
\<close>

definition delete_rows :: "obj \<Rightarrow> tables \<Rightarrow> tables" where
  "delete_rows ob tabs =
     (let tabs' = tabs(table_of ob := without_key (key_col ob) (key_of ob) (tabs (table_of ob)))
      in case ob of
           OInterface i \<Rightarrow>
             if has_key (tabs ''interfaces'') ''name'' (intf_Name i)
             then tabs'(''peers'' := without_key ''interface'' (intf_Name i) (tabs ''peers''))
             else tabs'
         | _ \<Rightarrow> tabs')"

lemma Delete_effect:
  assumes "storable ob"
  shows "dispatcher_Delete sql_ok (Model wg) ob tabs = Inr (delete_rows ob tabs)"
proof -
  have no_ref: "\<not> refers [(''interface'', ''interfaces'', ''name'')] t gone r"
    if "t \<noteq> ''interfaces''" for t gone r
    using that by (simp add: refers_def)
  show ?thesis
    using assms
    by (cases ob)
      (auto simp: dispatcher_Delete_def adapter_Delete_def PeerType_def InterfaceType_def TokenType_def
        NewSQLTableType_def buildDeleteStatement_def sql_delete_def catalog_lookup col_defs
        cascade_wig refers_name no_ref delete_rows_def without_key_def
        matches_SText Let_def fun_eq_iff)
qed

section \<open>Integrity of the tables\<close>

text \<open>
  Every row has the columns of its table, keys are strings and unique, and every peer belongs
  to an interface.
\<close>

definition table_ok :: "string list \<Rightarrow> string \<Rightarrow> row list \<Rightarrow> bool" where
  "table_ok cols k rows =
     ((\<forall>r\<in>set rows. map fst r = cols \<and> (\<exists>v. cell r k = SText v)) \<and>
      distinct (map (\<lambda>r. cell r k) rows))"

definition peer_cols :: "string list" where
  "peer_cols = [''public_key'', ''interface'', ''ip'', ''ip6'', ''expire'']"

definition intf_cols :: "string list" where
  "intf_cols = [''name'', ''port'', ''ip'', ''ip6'', ''fwmark'', ''private_key'', ''public_key'']"

definition tok_cols :: "string list" where
  "tok_cols = [''id'', ''secret'', ''roles'']"

definition fk_inv :: "row list \<Rightarrow> row list \<Rightarrow> bool" where
  "fk_inv intfs peers = (\<forall>p\<in>set peers. \<exists>i\<in>set intfs. cell i ''name'' = cell p ''interface'')"

definition tables_inv :: "tables \<Rightarrow> bool" where
  "tables_inv tabs =
     (table_ok peer_cols ''public_key'' (tabs ''peers'') \<and>
      table_ok intf_cols ''name'' (tabs ''interfaces'') \<and>
      table_ok tok_cols ''id'' (tabs ''tokens'') \<and>
      fk_inv (tabs ''interfaces'') (tabs ''peers''))"

lemma tables_inv_empty: "tables_inv (\<lambda>_. [])"
  by (simp add: tables_inv_def table_ok_def fk_inv_def)

lemmas cols_defs = peer_cols_def intf_cols_def tok_cols_def

lemma cell_key [simp]: "storable ob \<Longrightarrow> cell (db_fields ob) (key_col ob) = SText (key_of ob)"
  by (cases ob) simp_all

lemma table_ok_shape:
  "tables_inv tabs \<Longrightarrow> storable ob \<Longrightarrow>
   table_ok (map fst (db_fields ob)) (key_col ob) (tabs (table_of ob))"
  by (cases ob) (simp_all add: tables_inv_def cols_defs)

lemma table_ok_append:
  "table_ok (map fst (db_fields ob)) (key_col ob) rows \<Longrightarrow> storable ob \<Longrightarrow>
   \<not> has_key rows (key_col ob) (key_of ob) \<Longrightarrow>
   table_ok (map fst (db_fields ob)) (key_col ob) (rows @ [db_fields ob])"
  by (auto simp: table_ok_def has_key_def)

lemma replace_row_keys:
  "storable ob \<Longrightarrow> map (\<lambda>r. cell r (key_col ob)) (replace_row ob rows) = map (\<lambda>r. cell r (key_col ob)) rows"
  by (simp add: replace_row_def)

lemma table_ok_replace:
  "table_ok (map fst (db_fields ob)) (key_col ob) rows \<Longrightarrow> storable ob \<Longrightarrow>
   table_ok (map fst (db_fields ob)) (key_col ob) (replace_row ob rows)"
  by (auto simp: table_ok_def replace_row_keys) (auto simp: replace_row_def)

lemma table_ok_filter: "table_ok cs k rows \<Longrightarrow> table_ok cs k (filter P rows)"
  by (auto simp: table_ok_def distinct_map_filter)

lemma fk_inv_filter: "fk_inv is ps \<Longrightarrow> fk_inv is (filter P ps)"
  by (auto simp: fk_inv_def)

lemma fk_inv_delete_interface:
  "fk_inv is ps \<Longrightarrow> fk_inv (without_key ''name'' v is) (without_key ''interface'' v ps)"
  by (auto simp: fk_inv_def without_key_def) metis

lemma without_key_absent: "\<not> has_key rows k v \<Longrightarrow> without_key k v rows = rows"
  by (auto simp: has_key_def without_key_def filter_id_conv)

lemma dispatch_storable:
  "dispatcher_Create env (Model wg) ob tabs = Inr t \<Longrightarrow> storable ob"
  "dispatcher_Update env (Model wg) ob tabs = Inr t \<Longrightarrow> storable ob"
  "dispatcher_Delete env (Model wg) ob tabs = Inr t \<Longrightarrow> storable ob"
  by (cases ob; simp add: dispatcher_Create_def dispatcher_Update_def dispatcher_Delete_def)+

lemma inv_change_table:
  assumes "tables_inv tabs" "storable ob"
    and "table_ok (map fst (db_fields ob)) (key_col ob) rows"
    and "fk_inv ((tabs(table_of ob := rows)) ''interfaces'') ((tabs(table_of ob := rows)) ''peers'')"
  shows "tables_inv (tabs(table_of ob := rows))"
  using assms by (cases ob) (simp_all add: tables_inv_def cols_defs)

lemma Create_inv [op_invs]:
  assumes "dispatcher_Create env (Model wg) ob tabs = Inr tabs'" "tables_inv tabs"
  shows "tables_inv tabs'"
proof -
  have st: "storable ob" using assms(1) by (rule dispatch_storable)
  have "dispatcher_Create sql_ok (Model wg) ob tabs = Inr tabs'"
    using assms(1) by (rule Create_env)
  then have new: "\<not> has_key (tabs (table_of ob)) (key_col ob) (key_of ob)" and par: "parent_ok tabs ob"
    and tabs': "tabs' = tabs(table_of ob := tabs (table_of ob) @ [db_fields ob])"
    by (auto simp: Create_effect [OF st] split: if_splits)
  have "fk_inv (tabs ''interfaces'') (tabs ''peers'')" using assms(2) by (simp add: tables_inv_def)
  with par st have "fk_inv (tabs' ''interfaces'') (tabs' ''peers'')"
    by (cases ob) (auto simp: tabs' fk_inv_def has_key_def)
  then show ?thesis
    unfolding tabs' using assms(2) st new
    by (intro inv_change_table table_ok_append table_ok_shape) simp_all
qed

lemma replace_interface_names:
  "i \<in> set is \<Longrightarrow> \<exists>i'\<in>set (replace_row (OInterface x) is). cell i' ''name'' = cell i ''name''"
  by (rule bexI [of _ "if cell i ''name'' = SText (intf_Name x) then db_fields (OInterface x) else i"])
    (auto simp: replace_row_def)

lemma Update_inv [op_invs]:
  assumes "dispatcher_Update env (Model wg) ob tabs = Inr tabs'" "tables_inv tabs"
  shows "tables_inv tabs'"
proof -
  have st: "storable ob" using assms(1) by (rule dispatch_storable)
  have ok: "table_ok (map fst (db_fields ob)) (key_col ob) (tabs (table_of ob))"
    using assms(2) st by (rule table_ok_shape)
  then have shape: "\<forall>r\<in>set (tabs (table_of ob)). row_shape ob r"
    by (simp add: table_ok_def row_shape_def)
  have "dispatcher_Update sql_ok (Model wg) ob tabs = Inr tabs'"
    using assms(1) by (rule Update_env)
  then have par: "has_key (tabs (table_of ob)) (key_col ob) (key_of ob) \<longrightarrow> parent_ok tabs ob"
    and tabs': "tabs' = tabs(table_of ob := replace_row ob (tabs (table_of ob)))"
    by (auto simp: Update_effect [of ob tabs, OF st shape] split: if_splits)
  have fk: "fk_inv (tabs ''interfaces'') (tabs ''peers'')" using assms(2) by (simp add: tables_inv_def)
  have "fk_inv (tabs' ''interfaces'') (tabs' ''peers'')"
  proof (cases ob)
    case (OPeer p)
    with fk par show ?thesis
      by (auto simp: tabs' fk_inv_def replace_row_def has_key_def)
  next
    case (OInterface i)
    with fk show ?thesis
      by (auto simp: tabs' fk_inv_def) (metis replace_interface_names)
  qed (use fk in \<open>simp_all add: tabs'\<close>)
  then show ?thesis
    unfolding tabs' using assms(2) st ok
    by (intro inv_change_table table_ok_replace) simp_all
qed

lemma Delete_inv [op_invs]:
  assumes "dispatcher_Delete env (Model wg) ob tabs = Inr tabs'" "tables_inv tabs"
  shows "tables_inv tabs'"
proof -
  have st: "storable ob" using assms(1) by (rule dispatch_storable)
  have tabs': "tabs' = delete_rows ob tabs"
    using Delete_env [OF assms(1)] by (simp add: Delete_effect [OF st])
  have fk: "fk_inv (tabs ''interfaces'') (tabs ''peers'')" using assms(2) by (simp add: tables_inv_def)
  show ?thesis
  proof (cases ob)
    case (OInterface i)
    show ?thesis
    proof (cases "has_key (tabs ''interfaces'') ''name'' (intf_Name i)")
      case True
      have "fk_inv (tabs' ''interfaces'') (tabs' ''peers'')"
        using fk_inv_delete_interface [OF fk] True OInterface
        by (simp add: tabs' delete_rows_def Let_def)
      with True OInterface assms(2) show ?thesis
        by (simp add: tabs' delete_rows_def Let_def tables_inv_def without_key_def table_ok_filter)
    next
      case False
      with OInterface assms(2) show ?thesis
        by (simp add: tabs' delete_rows_def without_key_absent)
    qed
  qed (use assms(2) st in \<open>simp_all add: tabs' delete_rows_def Let_def tables_inv_def table_ok_filter
      fk_inv_filter without_key_def\<close>)
qed

text \<open>
  C14: creating, updating or deleting any object through the dispatcher keeps the tables
  intact: keys stay unique, rows keep their columns, and no peer is left without its
  interface. A failing operation has no new tables.
\<close>

theorem crud_integrity:
  assumes "tables_inv tabs"
    and "op \<in> {dispatcher_Create env (Model wg) ob, dispatcher_Update env (Model wg) ob,
               dispatcher_Delete env (Model wg) ob}"
    and "op tabs = Inr tabs'"
  shows "tables_inv tabs'"
  using assms by (auto intro: op_invs)

definition sample_wg :: wgkeys where
  "sample_wg = \<lparr>wg_ParseKey = Inr, wg_PublicKey = (\<lambda>k. k)\<rparr>"

definition sample_interface :: Interface where
  "sample_interface = Interface_zero\<lparr>intf_Name := ''wg0'', intf_IP := Some (v4_CIDR 10 0 0 1 24)\<rparr>"

definition sample_tables :: tables where
  "sample_tables = (\<lambda>_. [])(''interfaces'' := [db_fields (OInterface sample_interface)])"

lemma Create_sample:
  "dispatcher_Create sql_ok (Model wg) (OInterface sample_interface) (\<lambda>_. []) = Inr sample_tables"
  by (simp add: Create_effect has_key_def sample_tables_def)

theorem crud_integrity_witness:
  "tables_inv (\<lambda>_. []) \<and> tables_inv sample_tables"
  using crud_integrity [OF tables_inv_empty, of
      "dispatcher_Create sql_ok (Model sample_wg) (OInterface sample_interface)" sql_ok sample_wg
      "OInterface sample_interface" sample_tables] Create_sample [of sample_wg] tables_inv_empty
  by simp

section \<open>Storing and finding\<close>

lemma StructScan_db_fields: "obj_wf ob \<Longrightarrow> StructScan (obj_type ob) (db_fields ob) = Inr ob"
  by (cases ob)
    (simp_all add: Peer_scan_col_def Interface_scan_col_def Token_scan_col_def Peer_zero_def
      Interface_zero_def Token_zero_def CIDR_Scan_Value CommaSepList_roundtrip list_all_iff)

lemma obj_wf_storable: "obj_wf ob \<Longrightarrow> storable ob"
  by (cases ob) auto

fun type_name :: "obj \<Rightarrow> string" where
  "type_name (OPeer _) = ''peer''"
| "type_name (OInterface _) = ''interface''"
| "type_name (OToken _) = ''token''"
| "type_name _ = []"

definition collect :: "obj \<Rightarrow> obj list \<Rightarrow> error option \<times> obj list" where
  "collect ob acc = (None, acc @ [ob])"

lemma select_by_key:
  assumes "storable ob"
  shows "queryBuilder_exec sql_ok wig_catalog (newQueryBuilder (table_of ob) [(key_col ob, key_of ob)]) tabs =
    Inr (filter (\<lambda>r. col_eq_arg (cell r (key_col ob)) (key_of ob)) (tabs (table_of ob)))"
  using assms
  by (cases ob)
    (simp_all add: queryBuilder_exec_def newQueryBuilder_def sql_select_def catalog_lookup col_defs)

lemma Find_by_key:
  assumes "storable ob"
  shows "SQLReader_Find sql_ok (Model wg) (type_name ob) [(key_col ob, key_of ob)] f (tabs, s) =
    (case find_loop sql_ok (obj_type ob) f
        (filter (\<lambda>r. col_eq_arg (cell r (key_col ob)) (key_of ob)) (tabs (table_of ob))) s of
       (Some e, s') \<Rightarrow> (Returns (Inl e), (tabs, s'))
     | (None, s') \<Rightarrow> (Returns (Inr ()), (tabs, s')))"
  using select_by_key [OF assms, of tabs] assms
  by (cases ob)
    (auto simp: SQLReader_Find_def getTypeByName_def byName_Model adapter_Find_def WithTx_def
      split: prod.splits option.splits)

lemma col_eq_arg_SText: "(\<exists>v. x = SText v) \<Longrightarrow> col_eq_arg x a \<longleftrightarrow> x = SText a"
  by auto

text \<open>
  C15: an object that was created is found again under its primary key, alone and unchanged.
\<close>

theorem create_then_find:
  assumes "tables_inv tabs" "obj_wf ob"
    and "dispatcher_Create env (Model wg) ob tabs = Inr tabs'"
  shows "SQLReader_Find sql_ok (Model wg) (type_name ob) [(key_col ob, key_of ob)] collect (tabs', []) =
    (Returns (Inr ()), (tabs', [ob]))"
proof -
  have st: "storable ob" using assms(2) by (rule obj_wf_storable)
  have "dispatcher_Create sql_ok (Model wg) ob tabs = Inr tabs'"
    using assms(3) by (rule Create_env)
  then have new: "\<not> has_key (tabs (table_of ob)) (key_col ob) (key_of ob)"
    and tabs': "tabs' (table_of ob) = tabs (table_of ob) @ [db_fields ob]"
    by (auto simp: Create_effect [OF st] split: if_splits)
  have "table_ok (map fst (db_fields ob)) (key_col ob) (tabs (table_of ob))"
    using assms(1) st by (rule table_ok_shape)
  then have "filter (\<lambda>r. col_eq_arg (cell r (key_col ob)) (key_of ob)) (tabs' (table_of ob)) = [db_fields ob]"
    using new st by (auto simp: tabs' table_ok_def has_key_def filter_empty_conv col_eq_arg_SText)
  then show ?thesis
    using assms(2) by (simp add: Find_by_key [OF st] StructScan_db_fields collect_def)
qed

lemma obj_wf_sample: "obj_wf (OInterface sample_interface)"
  by (simp add: sample_interface_def Interface_zero_def CIDR_textual_v4 int_ok_def)
    (simp add: CIDR_textual_def)

theorem create_then_find_witness:
  "SQLReader_Find sql_ok (Model sample_wg) ''interface'' [(''name'', ''wg0'')] collect (sample_tables, []) =
    (Returns (Inr ()), (sample_tables, [OInterface sample_interface]))"
  using create_then_find [OF tables_inv_empty obj_wf_sample Create_sample, of sample_wg]
  by (simp add: sample_interface_def Interface_zero_def)

text \<open>
  Updating or deleting an object whose key is not stored succeeds and changes nothing.
\<close>

lemma update_delete_absent:
  assumes "tables_inv tabs" "storable ob" "\<not> has_key (tabs (table_of ob)) (key_col ob) (key_of ob)"
  shows "dispatcher_Update sql_ok (Model wg) ob tabs = Inr tabs \<and>
    dispatcher_Delete sql_ok (Model wg) ob tabs = Inr tabs"
proof (intro conjI)
  have "table_ok (map fst (db_fields ob)) (key_col ob) (tabs (table_of ob))"
    using assms(1,2) by (rule table_ok_shape)
  then have shape: "\<forall>r\<in>set (tabs (table_of ob)). row_shape ob r"
    by (simp add: table_ok_def row_shape_def)
  have "replace_row ob (tabs (table_of ob)) = tabs (table_of ob)"
    using assms(3) by (auto simp: replace_row_def has_key_def intro: map_idI)
  then show "dispatcher_Update sql_ok (Model wg) ob tabs = Inr tabs"
    using assms(3) by (simp add: Update_effect [of ob tabs, OF assms(2) shape])
  show "dispatcher_Delete sql_ok (Model wg) ob tabs = Inr tabs"
    using assms by (cases ob) (simp_all add: Delete_effect delete_rows_def without_key_absent)
qed

lemma update_delete_absent_witness:
  "dispatcher_Update sql_ok (Model sample_wg) (OPeer Peer_zero) sample_tables = Inr sample_tables \<and>
   dispatcher_Delete sql_ok (Model sample_wg) (OPeer Peer_zero) sample_tables = Inr sample_tables"
proof -
  have inv: "tables_inv sample_tables"
    by (rule Create_inv [OF Create_sample [of sample_wg] tables_inv_empty])
  have "\<not> has_key (sample_tables (table_of (OPeer Peer_zero))) (key_col (OPeer Peer_zero))
      (key_of (OPeer Peer_zero))"
    by (simp add: sample_tables_def has_key_def)
  with inv show ?thesis
    using update_delete_absent [of sample_tables "OPeer Peer_zero" sample_wg] by simp
qed

section \<open>The encoding\<close>

lemma MarshalValue_Model:
  "storable ob \<Longrightarrow> MarshalValue (Model wg) ob =
     Inr (JObj [(''type'', JStr (type_name ob)), (''data'', JBytes (obj_MarshalJSON ob))])"
  by (cases ob) (simp_all add: MarshalValue_def)

lemma UnmarshalValue_container:
  "storable ob \<Longrightarrow>
   UnmarshalValue (Model wg) (JObj [(''type'', JStr (type_name ob)), (''data'', JBytes d)]) =
     obj_UnmarshalJSON (obj_type ob) d"
proof -
  have "\<not> key_eq ''data'' ''type''" by (simp add: key_eq_def lower_char_def)
  then show "storable ob \<Longrightarrow> ?thesis"
    by (cases ob) (simp_all add: UnmarshalValue_def valueContainer_set_def byName_Model)
qed

text \<open>
  C24: a well-formed object of the data model survives its encoding as a self-describing
  value; a value of any other type is refused.
\<close>

theorem encoding_roundtrip:
  "obj_wf ob \<Longrightarrow> \<exists>b. MarshalValue (Model wg) ob = Inr b \<and> UnmarshalValue (Model wg) b = Inr ob"
  by (simp add: MarshalValue_Model UnmarshalValue_container obj_wf_storable obj_Unmarshal_Marshal)

theorem encoding_roundtrip_witness:
  "\<exists>b. MarshalValue (Model sample_wg) (OInterface sample_interface) = Inr b \<and>
       UnmarshalValue (Model sample_wg) b = Inr (OInterface sample_interface)"
  using encoding_roundtrip [OF obj_wf_sample] by blast

section \<open>Operations that never succeed\<close>

lemma adapter_Each_fails: "\<exists>e. adapter_Each env m f tabs s = (Some e, s)"
  by (auto simp: adapter_Each_def adapter_Find_def queryBuilder_exec_def newQueryBuilder_def
      sql_select_def run_stmt_def split: option.splits)

lemma dispatcher_Each_fails:
  assumes "map_order (Model wg) ord"
  shows "\<exists>e. dispatcher_Each env (Model wg) ord f tabs s = Some (Some e, s)"
proof -
  have "set ord = {''peer'', ''interface'', ''token''}"
    using assms by (simp add: map_order_def byName_Model_keys)
  then obtain n ns where ord: "ord = n # ns" and "n \<in> {''peer'', ''interface'', ''token''}"
    by (cases ord) auto
  then obtain m where m: "map_of (byName (Model wg)) n = Some m"
    by (auto simp: byName_Model)
  obtain e where "adapter_Each env m f tabs s = (Some e, s)"
    using adapter_Each_fails [of env m f tabs s] by (elim exE)
  with ord m show ?thesis by (simp add: dispatcher_Each_def)
qed

text \<open>
  Iterating over all objects fails for every database, before the callback sees any
  object, because the query without conditions is not valid SQL.
\<close>

lemma each_always_fails:
  assumes "map_order (Model wg) ord"
  shows "\<exists>e. dispatcher_Each env (Model wg) ord f tabs s = Some (Some e, s)"
  using assms by (rule dispatcher_Each_fails)

lemma map_order_sample: "map_order (Model wg) [''peer'', ''interface'', ''token'']"
  by (auto simp: map_order_def byName_Model_keys)

lemma each_always_fails_witness:
  "\<exists>e. dispatcher_Each sql_ok (Model sample_wg) [''peer'', ''interface'', ''token''] collect
     sample_tables [] = Some (Some e, [])"
  by (rule each_always_fails) (rule map_order_sample)

lemma dispatcher_DeleteAll_None:
  assumes "\<And>d. map_order (Model wg) (ords d)"
  shows "dispatcher_DeleteAll depth (Model wg) ords tabs = None"
proof (induction depth arbitrary: tabs)
  case (Suc d)
  have "set (ords d) = {''peer'', ''interface'', ''token''}"
    using assms [of d] by (simp add: map_order_def byName_Model_keys)
  then obtain n ns where "ords d = n # ns" "n \<in> {''peer'', ''interface'', ''token''}"
    by (cases "ords d") auto
  then show ?case using Suc by (auto simp: byName_Model)
qed simp

text \<open>
  Deleting all objects never returns, at any stack depth, because the dispatcher calls
  itself and not the adapter of the type.
\<close>

lemma delete_all_diverges:
  assumes "\<And>d. map_order (Model wg) (ords d)"
  shows "dispatcher_DeleteAll depth (Model wg) ords tabs = None"
  using assms by (rule dispatcher_DeleteAll_None)

lemma delete_all_diverges_witness:
  "dispatcher_DeleteAll 1000 (Model sample_wg) (\<lambda>_. [''peer'', ''interface'', ''token'']) sample_tables = None"
  by (rule delete_all_diverges) (rule map_order_sample)

end
