(* ===== verification/Oplog.thy ===== *)
theory Oplog
  imports Crud_Props
begin

text \<open>
  The entries of the operation log: \<^verbatim>\<open>op.go\<close> and the \<^verbatim>\<open>Sequence\<close> and \<^verbatim>\<open>OpType\<close> of
  \<^verbatim>\<open>interfaces.go\<close> in \<^verbatim>\<open>datastore/crudlog\<close>, and the SQL tables \<^verbatim>\<open>log\<close> and
  \<^verbatim>\<open>sequence\<close> that \<^verbatim>\<open>sql.go\<close> keeps. The database of the datastore is the tables of
  the data model with these two.
\<close>

section \<open>Sequence numbers and operation types\<close>

type_synonym Sequence = uint64

definition ParseSequence :: "string \<Rightarrow> Sequence result" where
  "ParseSequence s =
     (case ParseUint s 16 of Inl e \<Rightarrow> Inl e | Inr u \<Rightarrow> Inr (of_nat u))"

definition Sequence_String :: "Sequence \<Rightarrow> string" where
  "Sequence_String s = FormatUint 16 (unat s)"

definition OpUnknown :: int where "OpUnknown = 0"
definition OpCreate :: int where "OpCreate = 1"
definition OpUpdate :: int where "OpUpdate = 2"
definition OpDelete :: int where "OpDelete = 3"

lemmas OpType_defs = OpUnknown_def OpCreate_def OpUpdate_def OpDelete_def

definition OpType_String :: "int \<Rightarrow> string" where
  "OpType_String t =
     (if t = OpCreate then ''create''
      else if t = OpUpdate then ''update''
      else if t = OpDelete then ''delete''
      else ''UNKNOWN'')"

section \<open>Operations\<close>

record op =
  op_seq :: Sequence
  op_typ :: int
  op_timestamp :: gotime
  op_value :: obj

text \<open>\<^verbatim>\<open>newOp\<close>; the clock's reading is an argument.\<close>

definition newOp :: "gotime \<Rightarrow> int \<Rightarrow> obj \<Rightarrow> op" where
  "newOp now typ value = \<lparr>op_seq = 0, op_typ = typ, op_timestamp = now, op_value = value\<rparr>"

definition WithSequence :: "Sequence \<Rightarrow> op \<Rightarrow> op" where
  "WithSequence seq o' = o'\<lparr>op_seq := seq\<rparr>"

record opSerialized =
  ops_Seq :: Sequence
  ops_Type :: int
  ops_Value :: "json option"
  ops_Timestamp :: gotime

definition op_serialize :: "registry \<Rightarrow> op \<Rightarrow> opSerialized result" where
  "op_serialize enc o' =
     (case MarshalValue enc (op_value o') of
        Inl e \<Rightarrow> Inl e
      | Inr b \<Rightarrow> Inr \<lparr>ops_Seq = op_seq o', ops_Type = op_typ o', ops_Value = Some b, ops_Timestamp = 0\<rparr>)"

definition opSerialized_decode :: "registry \<Rightarrow> opSerialized \<Rightarrow> op result" where
  "opSerialized_decode enc s =
     (case (case ops_Value s of
              None \<Rightarrow> Inl (ErrMsg ''unexpected end of JSON input'')
            | Some b \<Rightarrow> UnmarshalValue enc b) of
        Inl e \<Rightarrow> Inl e
      | Inr v \<Rightarrow> Inr \<lparr>op_seq = ops_Seq s, op_typ = ops_Type s, op_timestamp = ops_Timestamp s,
                     op_value = v\<rparr>)"

section \<open>Operations as JSON\<close>

definition ops_zero :: opSerialized where
  "ops_zero = \<lparr>ops_Seq = 0, ops_Type = 0, ops_Value = None, ops_Timestamp = 0\<rparr>"

definition opSerialized_MarshalJSON :: "opSerialized \<Rightarrow> json" where
  "opSerialized_MarshalJSON s =
     JObj [(''seq'', JInt (uint (ops_Seq s))), (''type'', JInt (ops_Type s)),
           (''value'', case ops_Value s of None \<Rightarrow> JNull | Some b \<Rightarrow> JBytes b),
           (''timestamp'', JTime (ops_Timestamp s))]"

definition opSerialized_set :: "opSerialized \<Rightarrow> string \<Rightarrow> json \<Rightarrow> opSerialized result" where
  "opSerialized_set s k v =
     (if key_eq k ''seq'' then put_field (\<lambda>x. s\<lparr>ops_Seq := x\<rparr>) (dec_uint64 (ops_Seq s) v)
      else if key_eq k ''type'' then put_field (\<lambda>x. s\<lparr>ops_Type := x\<rparr>) (dec_int (ops_Type s) v)
      else if key_eq k ''value'' then put_field (\<lambda>x. s\<lparr>ops_Value := x\<rparr>) (dec_bytes (ops_Value s) v)
      else if key_eq k ''timestamp'' then
        put_field (\<lambda>x. s\<lparr>ops_Timestamp := x\<rparr>) (dec_time (ops_Timestamp s) v)
      else Inr s)"

definition op_MarshalJSON :: "registry \<Rightarrow> op \<Rightarrow> json result" where
  "op_MarshalJSON enc o' =
     (case op_serialize enc o' of Inl e \<Rightarrow> Inl e | Inr s \<Rightarrow> Inr (opSerialized_MarshalJSON s))"

definition op_UnmarshalJSON :: "registry \<Rightarrow> json \<Rightarrow> op result" where
  "op_UnmarshalJSON enc b =
     (case dec_struct opSerialized_set ops_zero b of
        Inl e \<Rightarrow> Inl e
      | Inr s \<Rightarrow> opSerialized_decode enc s)"

section \<open>The log and the sequence in the database\<close>

record db =
  db_tables :: tables
  db_log :: "opSerialized list"
  db_sequence :: "Sequence list"

definition ErrHighBit :: error where
  "ErrHighBit = ErrMsg ''uint64 values with high bit set are not supported''"

text \<open>The SQL driver takes a 64-bit argument only below \<open>2 ^ 63\<close>.\<close>

definition sql_uint64 :: "uint64 \<Rightarrow> uint64 result" where
  "sql_uint64 u = (if unat u < 2 ^ 63 then Inr u else Inl ErrHighBit)"

definition insert_log_sql :: string where
  "insert_log_sql =
     ''INSERT INTO log (seq, type, timestamp, value) VALUES (:seq, :type, :timestamp, :value)''"

definition select_log_sql :: string where
  "select_log_sql = ''SELECT seq, type, timestamp, value FROM log WHERE seq >= ? ORDER BY seq ASC''"

definition select_sequence_sql :: string where
  "select_sequence_sql = ''SELECT seq FROM sequence LIMIT 1''"

definition update_sequence_sql :: string where
  "update_sequence_sql = ''UPDATE sequence SET seq = ?''"

definition AppendToLog :: "sqlenv \<Rightarrow> registry \<Rightarrow> op \<Rightarrow> db \<Rightarrow> db result" where
  "AppendToLog env enc o' d =
     (case op_serialize enc o' of
        Inl e \<Rightarrow> Inl e
      | Inr ops \<Rightarrow>
          (case sql_uint64 (ops_Seq ops) of
             Inl e \<Rightarrow> Inl e
           | Inr _ \<Rightarrow>
               run_stmt env insert_log_sql
                 (if ops_Seq ops \<in> ops_Seq ` set (db_log d) then Inl ErrUnique
                  else Inr (d\<lparr>db_log := db_log d @ [ops]\<rparr>))))"

fun scanOps :: "registry \<Rightarrow> opSerialized list \<Rightarrow> op list result" where
  "scanOps enc [] = Inr []"
| "scanOps enc (s # ss) =
     (case opSerialized_decode enc s of
        Inl e \<Rightarrow> Inl e
      | Inr o' \<Rightarrow> (case scanOps enc ss of Inl e \<Rightarrow> Inl e | Inr os \<Rightarrow> Inr (o' # os)))"

definition QueryLogSince :: "sqlenv \<Rightarrow> registry \<Rightarrow> Sequence \<Rightarrow> db \<Rightarrow> op list result" where
  "QueryLogSince env enc seq d =
     (case sql_uint64 seq of
        Inl e \<Rightarrow> Inl e
      | Inr _ \<Rightarrow>
          (case run_stmt env select_log_sql
                  (Inr (sort_key (\<lambda>s. unat (ops_Seq s))
                         (filter (\<lambda>s. seq \<le> ops_Seq s) (db_log d)))) of
             Inl e \<Rightarrow> Inl e
           | Inr rows \<Rightarrow>
               (case scanOps enc rows of
                  Inl e \<Rightarrow> Inl e
                | Inr out \<Rightarrow> run_stmt env ''rows.Err'' (Inr out))))"

definition GetSequence :: "sqlenv \<Rightarrow> db \<Rightarrow> Sequence" where
  "GetSequence env d =
     (case run_stmt env select_sequence_sql
             (case db_sequence d of [] \<Rightarrow> Inl (ErrMsg ''sql: no rows in result set'') | u # _ \<Rightarrow> Inr u) of
        Inl _ \<Rightarrow> 0
      | Inr u \<Rightarrow> u)"

definition GetNextSequence :: "sqlenv \<Rightarrow> db \<Rightarrow> Sequence" where
  "GetNextSequence env d = GetSequence env d + 1"

definition SetSequence :: "sqlenv \<Rightarrow> Sequence \<Rightarrow> db \<Rightarrow> db result" where
  "SetSequence env seq d =
     (case sql_uint64 seq of
        Inl e \<Rightarrow> Inl e
      | Inr _ \<Rightarrow> run_stmt env update_sequence_sql (Inr (d\<lparr>db_sequence := map (\<lambda>_. seq) (db_sequence d)\<rparr>)))"

section \<open>Round trips\<close>

lemma ParseSequence_String: "ParseSequence (Sequence_String s) = Inr s"
proof -
  have "unat s < 2 ^ 64" using unsigned_less [of s] by simp
  then show ?thesis
    by (simp add: ParseSequence_def Sequence_String_def ParseUint_FormatUint)
qed

text \<open>The hexadecimal text of a sequence number is parsed back to it.\<close>

lemma sequence_roundtrip: "ParseSequence (Sequence_String s) = Inr s"
  by (rule ParseSequence_String)

text \<open>What an operation means to a reader of the log: everything but its timestamp.\<close>

definition untimed :: "op \<Rightarrow> op" where
  "untimed o' = o'\<lparr>op_timestamp := 0\<rparr>"

lemma untimed_simps [simp]:
  "op_seq (untimed o') = op_seq o'" "op_typ (untimed o') = op_typ o'"
  "op_value (untimed o') = op_value o'" "untimed (untimed o') = untimed o'"
  by (simp_all add: untimed_def)

lemma WithSequence_simps [simp]:
  "op_seq (WithSequence q o') = q" "op_typ (WithSequence q o') = op_typ o'"
  "op_value (WithSequence q o') = op_value o'"
  by (simp_all add: WithSequence_def)

lemma op_serialize_success:
  assumes "op_serialize enc o' = Inr s"
  shows "ops_Seq s = op_seq o'" "ops_Type s = op_typ o'"
  using assms by (auto simp: op_serialize_def split: sum.splits)

lemma op_serialize_untimed: "op_serialize enc (untimed o') = op_serialize enc o'"
  by (simp add: op_serialize_def split: sum.splits)

lemma decode_serialize:
  assumes "obj_wf (op_value o')" "op_serialize (Model wg) o' = Inr s"
  shows "opSerialized_decode (Model wg) s = Inr (untimed o')"
  using assms
  by (auto simp: op_serialize_def opSerialized_decode_def untimed_def MarshalValue_Model
      UnmarshalValue_container obj_wf_storable obj_Unmarshal_Marshal)

lemma dec_uint64_uint [simp]: "dec_uint64 cur (JInt (uint u)) = Inr u"
proof -
  have "uint u < 2 ^ 64" using uint_bounded [of u] by simp
  then show ?thesis by simp
qed

lemma opSerialized_Unmarshal_Marshal:
  assumes "int_ok (ops_Type s)"
  shows "dec_struct opSerialized_set ops_zero (opSerialized_MarshalJSON s) = Inr s"
proof -
  have "\<not> key_eq ''type'' ''seq''" "\<not> key_eq ''value'' ''seq''" "\<not> key_eq ''value'' ''type''"
    "\<not> key_eq ''timestamp'' ''seq''" "\<not> key_eq ''timestamp'' ''type''" "\<not> key_eq ''timestamp'' ''value''"
    by (simp_all add: key_eq_def lower_char_def)
  with assms show ?thesis
    by (cases s)
      (simp add: opSerialized_MarshalJSON_def opSerialized_set_def ops_zero_def int_ok_def
        del: dec_uint64.simps split: option.splits)
qed

text \<open>
  An operation survives its JSON form, except for its timestamp, which the serialised
  form drops.
\<close>

lemma op_json_roundtrip:
  assumes "obj_wf (op_value o')" "int_ok (op_typ o')"
  shows "\<exists>b. op_MarshalJSON (Model wg) o' = Inr b \<and>
    op_UnmarshalJSON (Model wg) b = Inr (o'\<lparr>op_timestamp := 0\<rparr>)"
proof -
  obtain s where s: "op_serialize (Model wg) o' = Inr s"
    using assms(1) by (simp add: op_serialize_def MarshalValue_Model obj_wf_storable)
  with assms(2) have "int_ok (ops_Type s)" by (simp add: op_serialize_success)
  with s decode_serialize [OF assms(1) s] show ?thesis
    by (simp add: op_MarshalJSON_def op_UnmarshalJSON_def opSerialized_Unmarshal_Marshal untimed_def)
qed

definition sample_op :: op where
  "sample_op = newOp 5 OpCreate (OInterface sample_interface)"

lemma sample_op_simps [simp]:
  "op_value sample_op = OInterface sample_interface" "op_typ sample_op = OpCreate"
  "op_seq sample_op = 0" "op_timestamp sample_op = 5"
  by (simp_all add: sample_op_def newOp_def)

lemma op_json_roundtrip_witness:
  "\<exists>b. op_MarshalJSON (Model sample_wg) sample_op = Inr b \<and>
    op_UnmarshalJSON (Model sample_wg) b = Inr (sample_op\<lparr>op_timestamp := 0\<rparr>)"
  by (rule op_json_roundtrip) (simp_all add: obj_wf_sample int_ok_def OpType_defs del: obj_wf.simps)

end
