(* ===== verification/Pubsub.thy ===== *)
theory Pubsub
  imports Oplog
begin

text \<open>
  The in-process fan-out of operations (\<^verbatim>\<open>datastore/crudlog/pubsub.go\<close>). Channels are
  numbered in the order they are made; the heap of channels (what each buffers, which are
  closed) is part of the state. A send blocks when the buffer is full and panics when the
  channel is closed, closing a closed channel panics.
\<close>

definition chanBufSize :: nat where
  "chanBufSize = 1000"

record pubsub =
  ps_next :: nat
  ps_buf :: "nat \<Rightarrow> op list"
  ps_closed :: "nat set"
  ps_toClose :: "nat list"
  ps_subscribers :: "nat list"

definition newPubSub :: pubsub where
  "newPubSub = \<lparr>ps_next = 0, ps_buf = (\<lambda>_. []), ps_closed = {}, ps_toClose = [], ps_subscribers = []\<rparr>"

definition make_chan :: "pubsub \<Rightarrow> nat \<times> pubsub" where
  "make_chan p = (ps_next p, p\<lparr>ps_next := Suc (ps_next p), ps_buf := (ps_buf p)(ps_next p := [])\<rparr>)"

definition close_chan :: "nat \<Rightarrow> pubsub \<Rightarrow> unit outcome \<times> pubsub" where
  "close_chan ch p =
     (if ch \<in> ps_closed p then (Panics ''close of closed channel'', p)
      else (Returns (), p\<lparr>ps_closed := insert ch (ps_closed p)\<rparr>))"

definition send_chan :: "nat \<Rightarrow> op \<Rightarrow> pubsub \<Rightarrow> unit outcome \<times> pubsub" where
  "send_chan ch o' p =
     (if ch \<in> ps_closed p then (Panics ''send on closed channel'', p)
      else if chanBufSize \<le> length (ps_buf p ch) then (Blocks, p)
      else (Returns (), p\<lparr>ps_buf := (ps_buf p)(ch := ps_buf p ch @ [o'])\<rparr>))"

text \<open>\<^verbatim>\<open>AddSubscriber\<close>; the function it returns is \<open>removeSubscriber\<close> for the same channel.\<close>

definition AddSubscriber :: "nat \<Rightarrow> pubsub \<Rightarrow> pubsub" where
  "AddSubscriber ch p = p\<lparr>ps_subscribers := ch # ps_subscribers p\<rparr>"

definition removeSubscriber :: "nat \<Rightarrow> pubsub \<Rightarrow> pubsub" where
  "removeSubscriber ch p =
     p\<lparr>ps_subscribers := removeAll ch (ps_subscribers p), ps_toClose := ps_toClose p @ [ch]\<rparr>"

fun chan_loop :: "(nat \<Rightarrow> pubsub \<Rightarrow> unit outcome \<times> pubsub) \<Rightarrow> nat list \<Rightarrow> pubsub \<Rightarrow>
    unit outcome \<times> pubsub" where
  "chan_loop f [] p = (Returns (), p)"
| "chan_loop f (ch # chs) p =
     (case f ch p of
        (Returns _, p') \<Rightarrow> chan_loop f chs p'
      | r \<Rightarrow> r)"

definition Emit :: "op \<Rightarrow> pubsub \<Rightarrow> unit outcome \<times> pubsub" where
  "Emit o' p =
     (case (if ps_toClose p \<noteq> [] then
              (case chan_loop close_chan (ps_toClose p) p of
                 (Returns _, p') \<Rightarrow> (Returns (), p'\<lparr>ps_toClose := []\<rparr>)
               | r \<Rightarrow> r)
            else (Returns (), p)) of
        (Returns _, p') \<Rightarrow> chan_loop (\<lambda>ch. send_chan ch o') (ps_subscribers p') p'
      | r \<Rightarrow> r)"

section \<open>What the fan-out guarantees\<close>

text \<open>
  Subscribers, channels waiting to be closed and closed channels are disjoint, without
  repetition, and were all made.
\<close>

definition pubsub_inv :: "pubsub \<Rightarrow> bool" where
  "pubsub_inv p =
     (distinct (ps_subscribers p @ ps_toClose p) \<and>
      ps_closed p \<inter> set (ps_subscribers p @ ps_toClose p) = {} \<and>
      (\<forall>ch \<in> set (ps_subscribers p) \<union> set (ps_toClose p) \<union> ps_closed p. ch < ps_next p))"

lemma pubsub_inv_new: "pubsub_inv newPubSub"
  by (simp add: pubsub_inv_def newPubSub_def)

lemma pubsub_inv_subscribe:
  "pubsub_inv p \<Longrightarrow> make_chan p = (ch, p') \<Longrightarrow> pubsub_inv (AddSubscriber ch p')"
  by (auto simp: pubsub_inv_def make_chan_def AddSubscriber_def less_Suc_eq)

lemma pubsub_inv_remove:
  "pubsub_inv p \<Longrightarrow> ch \<in> set (ps_subscribers p) \<Longrightarrow> pubsub_inv (removeSubscriber ch p)"
  by (auto simp: pubsub_inv_def removeSubscriber_def distinct_removeAll)

lemma close_loop:
  "distinct chs \<Longrightarrow> ps_closed p \<inter> set chs = {} \<Longrightarrow>
   chan_loop close_chan chs p = (Returns (), p\<lparr>ps_closed := ps_closed p \<union> set chs\<rparr>)"
  by (induction chs arbitrary: p) (simp_all add: close_chan_def)

definition has_room :: "pubsub \<Rightarrow> nat \<Rightarrow> bool" where
  "has_room p ch = (length (ps_buf p ch) < chanBufSize)"

lemma send_chan_room:
  "ch \<notin> ps_closed p \<Longrightarrow> has_room p ch \<Longrightarrow>
   send_chan ch o' p = (Returns (), p\<lparr>ps_buf := (ps_buf p)(ch := ps_buf p ch @ [o'])\<rparr>)"
  by (simp add: send_chan_def has_room_def)

lemma send_loop:
  assumes "distinct chs" "ps_closed p \<inter> set chs = {}" "list_all (has_room p) chs"
  shows "chan_loop (\<lambda>ch. send_chan ch o') chs p =
    (Returns (), p\<lparr>ps_buf := (\<lambda>ch. if ch \<in> set chs then ps_buf p ch @ [o'] else ps_buf p ch)\<rparr>)"
  using assms
proof (induction chs arbitrary: p)
  case (Cons ch chs)
  let ?p = "p\<lparr>ps_buf := (ps_buf p)(ch := ps_buf p ch @ [o'])\<rparr>"
  have "list_all (has_room ?p) chs"
    using Cons.prems by (auto simp: list_all_iff has_room_def)
  then have "chan_loop (\<lambda>ch. send_chan ch o') chs ?p =
    (Returns (), ?p\<lparr>ps_buf := (\<lambda>c. if c \<in> set chs then ps_buf ?p c @ [o'] else ps_buf ?p c)\<rparr>)"
    using Cons.prems by (intro Cons.IH) auto
  moreover have "(\<lambda>c. if c \<in> set chs then ps_buf ?p c @ [o'] else ps_buf ?p c) =
      (\<lambda>c. if c \<in> set (ch # chs) then ps_buf p c @ [o'] else ps_buf p c)"
    using Cons.prems(1) by auto
  ultimately show ?case using Cons.prems by (simp add: send_chan_room)
qed simp

text \<open>The pubsub after an operation was sent to every subscriber.\<close>

definition delivered :: "op \<Rightarrow> pubsub \<Rightarrow> pubsub" where
  "delivered o' p = p\<lparr>ps_toClose := [], ps_closed := ps_closed p \<union> set (ps_toClose p),
     ps_buf := (\<lambda>ch. if ch \<in> set (ps_subscribers p) then ps_buf p ch @ [o'] else ps_buf p ch)\<rparr>"

lemma Emit_unfold:
  assumes "pubsub_inv p"
  shows "Emit o' p = chan_loop (\<lambda>ch. send_chan ch o') (ps_subscribers p)
    (p\<lparr>ps_toClose := [], ps_closed := ps_closed p \<union> set (ps_toClose p)\<rparr>)"
    (is "_ = chan_loop _ _ ?q")
proof -
  have q: "(if ps_toClose p \<noteq> [] then
              (case chan_loop close_chan (ps_toClose p) p of
                 (Returns _, p') \<Rightarrow> (Returns (), p'\<lparr>ps_toClose := []\<rparr>)
               | r \<Rightarrow> r)
            else (Returns (), p)) = (Returns (), ?q)"
    using assms by (auto simp: pubsub_inv_def close_loop Int_Un_distrib)
  show ?thesis unfolding Emit_def q by simp
qed

lemma Emit_delivers:
  assumes "pubsub_inv p" "list_all (has_room p) (ps_subscribers p)"
  shows "Emit o' p = (Returns (), delivered o' p)"
  using assms unfolding Emit_unfold [OF assms(1)]
  by (subst send_loop)
    (auto simp: pubsub_inv_def has_room_def list_all_iff delivered_def cong: if_cong)

lemma pubsub_inv_delivered: "pubsub_inv p \<Longrightarrow> pubsub_inv (delivered o' p)"
  by (auto simp: pubsub_inv_def delivered_def)

lemma send_loop_blocks:
  assumes "distinct chs" "ps_closed p \<inter> set chs = {}" "\<not> list_all (has_room p) chs"
  shows "fst (chan_loop (\<lambda>ch. send_chan ch o') chs p) = Blocks"
  using assms
proof (induction chs arbitrary: p)
  case (Cons ch chs)
  show ?case
  proof (cases "has_room p ch")
    case True
    let ?p = "p\<lparr>ps_buf := (ps_buf p)(ch := ps_buf p ch @ [o'])\<rparr>"
    have "\<not> list_all (has_room ?p) chs"
      using Cons.prems True by (auto simp: list_all_iff has_room_def)
    then have "fst (chan_loop (\<lambda>ch. send_chan ch o') chs ?p) = Blocks"
      using Cons.prems by (intro Cons.IH) auto
    with True Cons.prems show ?thesis by (simp add: send_chan_room)
  next
    case False
    with Cons.prems show ?thesis by (simp add: send_chan_def has_room_def)
  qed
qed simp

lemma Emit_blocks:
  assumes "pubsub_inv p" "\<not> list_all (has_room p) (ps_subscribers p)"
  shows "fst (Emit o' p) = Blocks"
  using assms unfolding Emit_unfold [OF assms(1)]
  by (intro send_loop_blocks) (auto simp: pubsub_inv_def has_room_def list_all_iff)

lemma Emit_cases:
  assumes "pubsub_inv p" "Emit o' p = (r, p')"
  obtains "list_all (has_room p) (ps_subscribers p)" "r = Returns ()" "p' = delivered o' p"
  | "\<not> list_all (has_room p) (ps_subscribers p)" "r = Blocks"
  using assms Emit_delivers [of p o'] Emit_blocks [of p o']
  by (cases "list_all (has_room p) (ps_subscribers p)") auto

text \<open>
  Sending an operation to the subscribers never panics, it returns exactly when every
  subscriber has room, and then each has received it and the channels of removed subscribers
  are closed.
\<close>

lemma emit_safe:
  assumes "pubsub_inv p"
  shows "if list_all (has_room p) (ps_subscribers p)
    then Emit o' p = (Returns (), delivered o' p) \<and> pubsub_inv (delivered o' p)
    else fst (Emit o' p) = Blocks"
  using assms by (simp add: Emit_delivers Emit_blocks pubsub_inv_delivered)

lemma emit_safe_witness:
  "Emit sample_op (AddSubscriber 0 (snd (make_chan newPubSub))) =
     (Returns (), delivered sample_op (AddSubscriber 0 (snd (make_chan newPubSub))))"
proof -
  have "pubsub_inv (AddSubscriber 0 (snd (make_chan newPubSub)))"
    by (rule pubsub_inv_subscribe [OF pubsub_inv_new]) (simp add: make_chan_def newPubSub_def)
  from emit_safe [OF this, of sample_op] show ?thesis
    by (simp add: AddSubscriber_def make_chan_def newPubSub_def has_room_def chanBufSize_def)
qed

end
