(* ===== verification/Crudlog.thy ===== *)
theory Crudlog
  imports Pubsub
begin

text \<open>
  The log-backed datastore (\<^verbatim>\<open>datastore/crudlog/log.go\<close>): the sink that applies operations
  in a transaction, the source that takes snapshots and opens subscriptions, and the writer
  in front of them. A transaction body works on the database and on the pubsub; a rollback
  undoes the former only.
\<close>

section \<open>The database layer\<close>

text \<open>
  \<^verbatim>\<open>WithTransaction\<close> is \<open>WithTx\<close> under the global mutex. \<^verbatim>\<open>WithROTransaction\<close> runs its
  function in a transaction that is rolled back, and ignores its error.
\<close>

definition WithTransaction :: "sqlenv \<Rightarrow> ('d, 'm, 'a) txbody \<Rightarrow> ('d, 'm, 'a) txbody" where
  "WithTransaction env f = WithTx env f"

definition WithROTransaction :: "sqlenv \<Rightarrow> ('d \<times> 'm \<Rightarrow> 'd \<times> 'm) \<Rightarrow> 'd \<times> 'm \<Rightarrow> 'd \<times> 'm" where
  "WithROTransaction env f s =
     snd (WithTx env (\<lambda>s. (Returns (Inl ErrRollback :: unit result), f s)) s)"

section \<open>The sink\<close>

definition ApplyOp :: "sqlenv \<Rightarrow> registry \<Rightarrow> op \<Rightarrow> tables \<Rightarrow> tables result" where
  "ApplyOp env crud o' tabs =
     (if op_typ o' = OpCreate then dispatcher_Create env crud (op_value o') tabs
      else if op_typ o' = OpUpdate then dispatcher_Update env crud (op_value o') tabs
      else if op_typ o' = OpDelete then dispatcher_Delete env crud (op_value o') tabs
      else Inl ErrInvalidOpType)"

text \<open>The body of \<^verbatim>\<open>Apply\<close> once the operation has its sequence number.\<close>

definition Apply_body :: "sqlenv \<Rightarrow> registry \<Rightarrow> op \<Rightarrow> (db, pubsub, unit) txbody" where
  "Apply_body env crud o' = (\<lambda>(d, p).
     case ApplyOp env crud o' (db_tables d) of
       Inl e \<Rightarrow> (Returns (Inl e), (d, p))
     | Inr tabs \<Rightarrow>
         (let d1 = d\<lparr>db_tables := tabs\<rparr>
          in case AppendToLog env crud o' d1 of
               Inl e \<Rightarrow> (Returns (Inl e), (d1, p))
             | Inr d2 \<Rightarrow>
                 (case SetSequence env (op_seq o') d2 of
                    Inl e \<Rightarrow> (Returns (Inl e), (d2, p))
                  | Inr d3 \<Rightarrow>
                      (case Emit o' p of
                         (Returns _, p') \<Rightarrow> (Returns (Inr ()), (d3, p'))
                       | (Blocks, p') \<Rightarrow> (Blocks, (d3, p'))
                       | (Panics m, p') \<Rightarrow> (Panics m, (d3, p'))))))"

definition Apply :: "sqlenv \<Rightarrow> registry \<Rightarrow> op \<Rightarrow> bool \<Rightarrow> (db, pubsub, unit) txbody" where
  "Apply env crud o' fromLog =
     WithTransaction env (\<lambda>(d, p).
       Apply_body env crud
         (if \<not> fromLog then WithSequence (GetNextSequence env d) o' else o') (d, p))"

definition LatestSequence :: "sqlenv \<Rightarrow> db \<times> pubsub \<Rightarrow> Sequence" where
  "LatestSequence env s =
     snd (snd (WithROTransaction env (\<lambda>(d, (p, seq)). (d, (p, GetSequence env d))) (fst s, (snd s, 0))))"

text \<open>A snapshot held in memory.\<close>

record memSnapshot =
  snap_SeqNum :: Sequence
  snap_Items :: "obj list"

fun memSnapshot_Each :: "(obj \<Rightarrow> 's \<Rightarrow> error option \<times> 's) \<Rightarrow> obj list \<Rightarrow> 's \<Rightarrow> error option \<times> 's" where
  "memSnapshot_Each f [] s = (None, s)"
| "memSnapshot_Each f (ob # obs) s =
     (case f ob s of
        (Some e, s') \<Rightarrow> (Some e, s')
      | (None, s') \<Rightarrow> memSnapshot_Each f obs s')"

text \<open>
  \<^verbatim>\<open>LoadSnapshot\<close>; \<open>depth\<close> is the size of the stack, whose overflow ends the process, and
  \<open>ords\<close> the map orders that \<^verbatim>\<open>DeleteAll\<close> sees.
\<close>

definition create_into :: "sqlenv \<Rightarrow> registry \<Rightarrow> obj \<Rightarrow> tables \<Rightarrow> error option \<times> tables" where
  "create_into env crud ob tabs =
     (case dispatcher_Create env crud ob tabs of Inl e \<Rightarrow> (Some e, tabs) | Inr tabs' \<Rightarrow> (None, tabs'))"

definition LoadSnapshot :: "nat \<Rightarrow> (nat \<Rightarrow> string list) \<Rightarrow> sqlenv \<Rightarrow> registry \<Rightarrow> memSnapshot \<Rightarrow>
    (db, pubsub, unit) txbody" where
  "LoadSnapshot depth ords env crud snap =
     WithTransaction env (\<lambda>(d, p).
       case dispatcher_DeleteAll depth crud ords (db_tables d) of
         None \<Rightarrow> (Panics ''stack overflow'', (d, p))
       | Some (Some e, tabs) \<Rightarrow> (Returns (Inl e), (d\<lparr>db_tables := tabs\<rparr>, p))
       | Some (None, tabs) \<Rightarrow>
           (case memSnapshot_Each (create_into env crud) (snap_Items snap) tabs of
              (Some e, tabs') \<Rightarrow> (Returns (Inl e), (d\<lparr>db_tables := tabs'\<rparr>, p))
            | (None, tabs') \<Rightarrow>
                (case SetSequence env (snap_SeqNum snap) (d\<lparr>db_tables := tabs'\<rparr>) of
                   Inl e \<Rightarrow> (Returns (Inl e), (d\<lparr>db_tables := tabs'\<rparr>, p))
                 | Inr d' \<Rightarrow> (Returns (Inr ()), (d', p)))))"

section \<open>The source\<close>

text \<open>
  \<^verbatim>\<open>Snapshot\<close> assigns its two results inside the transaction; they are the extra memory
  here. A nil snapshot is \<open>None\<close>.
\<close>

definition append_item :: "obj \<Rightarrow> obj list \<Rightarrow> error option \<times> obj list" where
  "append_item ob items = (None, items @ [ob])"

definition Snapshot :: "sqlenv \<Rightarrow> registry \<Rightarrow> string list \<Rightarrow> db \<times> pubsub \<Rightarrow>
    (memSnapshot option \<times> error option)" where
  "Snapshot env crud ord s =
     snd (snd (WithROTransaction env
       (\<lambda>(d, (p, res)).
          case dispatcher_Each env crud ord append_item (db_tables d) [] of
            Some (err, items) \<Rightarrow>
              (d, (p, (Some \<lparr>snap_SeqNum = GetSequence env d, snap_Items = items\<rparr>, err)))
          | None \<Rightarrow> (d, (p, res)))
       (fst s, (snd s, (None, None)))))"

record subscription =
  sub_preload :: "op list"
  sub_ch :: nat

definition Subscribe :: "sqlenv \<Rightarrow> registry \<Rightarrow> Sequence \<Rightarrow> (db, pubsub, subscription) txbody" where
  "Subscribe env enc start =
     WithTransaction env (\<lambda>(d, p).
       if GetSequence env d + 1 < start then (Returns (Inl ErrHorizon), (d, p))
       else
         (case QueryLogSince env enc start d of
            Inl e \<Rightarrow> (Returns (Inl e), (d, p))
          | Inr preload \<Rightarrow>
              (let (ch, p') = make_chan p
               in (Returns (Inr \<lparr>sub_preload = preload, sub_ch = ch\<rparr>), (d, AddSubscriber ch p')))))"

definition subscription_Close :: "subscription \<Rightarrow> pubsub \<Rightarrow> pubsub" where
  "subscription_Close sub p = removeSubscriber (sub_ch sub) p"

section \<open>The writer\<close>

definition writer_Create :: "sqlenv \<Rightarrow> registry \<Rightarrow> gotime \<Rightarrow> obj \<Rightarrow> (db, pubsub, unit) txbody" where
  "writer_Create env crud now ob = Apply env crud (newOp now OpCreate ob) False"

definition writer_Update :: "sqlenv \<Rightarrow> registry \<Rightarrow> gotime \<Rightarrow> obj \<Rightarrow> (db, pubsub, unit) txbody" where
  "writer_Update env crud now ob = Apply env crud (newOp now OpUpdate ob) False"

definition writer_Delete :: "sqlenv \<Rightarrow> registry \<Rightarrow> gotime \<Rightarrow> obj \<Rightarrow> (db, pubsub, unit) txbody" where
  "writer_Delete env crud now ob = Apply env crud (newOp now OpDelete ob) False"

section \<open>The log as the abstract state\<close>

text \<open>
  The contract of the datastore: its state is a list of operations, numbered from 1 without
  gaps, and everything in the database follows from it. \<open>replay\<close> gives the tables that a
  list of operations leads to.
\<close>

fun replay :: "registry \<Rightarrow> op list \<Rightarrow> tables \<Rightarrow> tables result" where
  "replay crud [] tabs = Inr tabs"
| "replay crud (o' # os) tabs =
     (case ApplyOp sql_ok crud o' tabs of Inl e \<Rightarrow> Inl e | Inr tabs' \<Rightarrow> replay crud os tabs')"

definition represents :: "wgkeys \<Rightarrow> op list \<Rightarrow> db \<Rightarrow> bool" where
  "represents wg os d =
     (scanOps (Model wg) (db_log d) = Inr os \<and>
      replay (Model wg) os (\<lambda>_. []) = Inr (db_tables d) \<and>
      map op_seq os = map of_nat [1..<Suc (length os)] \<and>
      list_all (\<lambda>o'. obj_wf (op_value o')) os \<and>
      map untimed os = os \<and>
      length os < 2 ^ 63 \<and>
      db_sequence d = [of_nat (length os)])"

definition empty_db :: db where
  "empty_db = \<lparr>db_tables = (\<lambda>_. []), db_log = [], db_sequence = [0]\<rparr>"

lemma represents_empty: "represents wg [] empty_db"
  by (simp add: represents_def empty_db_def)

lemma replay_append:
  "replay crud (os @ os') tabs =
     (case replay crud os tabs of Inl e \<Rightarrow> Inl e | Inr tabs' \<Rightarrow> replay crud os' tabs')"
  by (induction os arbitrary: tabs) (auto split: sum.splits)

lemma ApplyOp_env: "ApplyOp env (Model wg) o' tabs = Inr t \<Longrightarrow> ApplyOp sql_ok (Model wg) o' tabs = Inr t"
  by (auto simp: ApplyOp_def Create_env Update_env Delete_env split: if_splits)

lemma ApplyOp_untimed [simp]: "ApplyOp env crud (untimed o') = ApplyOp env crud o'"
  by (simp add: ApplyOp_def fun_eq_iff)

lemma scanOps_append:
  "scanOps enc (xs @ ys) =
     (case scanOps enc xs of
        Inl e \<Rightarrow> Inl e
      | Inr os \<Rightarrow> (case scanOps enc ys of Inl e \<Rightarrow> Inl e | Inr os' \<Rightarrow> Inr (os @ os')))"
  by (induction xs) (auto split: sum.splits)

lemma scanOps_drop: "scanOps enc xs = Inr os \<Longrightarrow> scanOps enc (drop k xs) = Inr (drop k os)"
  by (induction xs arbitrary: k os) (auto simp: drop_Cons split: sum.splits nat.splits)

lemma scanOps_seq: "scanOps enc xs = Inr os \<Longrightarrow> map op_seq os = map ops_Seq xs"
  by (induction xs arbitrary: os)
    (auto simp: opSerialized_decode_def split: sum.splits option.splits)

end
