(* ===== verification/Log_Props.thy ===== *)
theory Log_Props
  imports Crudlog
begin

text \<open>
  The datastore implements its contract: every successful \<^verbatim>\<open>Apply\<close> appends one operation to
  the abstract log, a failing one leaves the database alone, and a subscription starts with
  the part of the log it asked for. Further on, the operations of the source and the sink
  that cannot succeed, and the ways a write can go wrong.
\<close>

section \<open>Applying an operation\<close>

lemma sql_uint64_Inr [simp]: "sql_uint64 u = Inr v \<longleftrightarrow> unat u < 2 ^ 63 \<and> v = u"
  by (auto simp: sql_uint64_def)

lemma AppendToLog_success:
  assumes "AppendToLog env enc o' d = Inr d'"
  obtains s where "op_serialize enc o' = Inr s" "unat (op_seq o') < 2 ^ 63"
    "op_seq o' \<notin> ops_Seq ` set (db_log d)" "d' = d\<lparr>db_log := db_log d @ [s]\<rparr>"
  using assms
  by (auto simp: AppendToLog_def op_serialize_success split: sum.splits if_splits)

lemma SetSequence_success:
  assumes "SetSequence env q d = Inr d'"
  shows "unat q < 2 ^ 63" "d' = d\<lparr>db_sequence := map (\<lambda>_. q) (db_sequence d)\<rparr>"
  using assms by (auto simp: SetSequence_def split: sum.splits)

lemma Apply_body_success:
  assumes "Apply_body env crud o' (d, p) = (Returns (Inr ()), (d', p'))"
  obtains tabs s where "ApplyOp env crud o' (db_tables d) = Inr tabs"
    "op_serialize crud o' = Inr s" "unat (op_seq o') < 2 ^ 63"
    "op_seq o' \<notin> ops_Seq ` set (db_log d)"
    "d' = \<lparr>db_tables = tabs, db_log = db_log d @ [s], db_sequence = map (\<lambda>_. op_seq o') (db_sequence d)\<rparr>"
    "Emit o' p = (Returns (), p')"
proof -
  from assms obtain tabs d2 d3 where
    tabs: "ApplyOp env crud o' (db_tables d) = Inr tabs"
    and d2: "AppendToLog env crud o' (d\<lparr>db_tables := tabs\<rparr>) = Inr d2"
    and d3: "SetSequence env (op_seq o') d2 = Inr d3"
    and emit: "Emit o' p = (Returns (), p')" and "d' = d3"
    by (auto simp: Apply_body_def Let_def split: call_splits)
  from d2 obtain s where "op_serialize crud o' = Inr s" "unat (op_seq o') < 2 ^ 63"
    "op_seq o' \<notin> ops_Seq ` set (db_log d)" "d2 = d\<lparr>db_tables := tabs, db_log := db_log d @ [s]\<rparr>"
    by (rule AppendToLog_success) simp
  with tabs emit \<open>d' = d3\<close> SetSequence_success(2) [OF d3] show ?thesis
    by (intro that [of tabs s]) simp_all
qed

lemma Apply_body_represents:
  assumes rep: "represents wg os d" and wf: "obj_wf (op_value o')"
    and seq: "op_seq o' = of_nat (Suc (length os))"
    and ok: "Apply_body env (Model wg) o' (d, p) = (Returns (Inr ()), (d', p'))"
  shows "represents wg (os @ [untimed o']) d'"
proof -
  from Apply_body_success [OF ok] obtain tabs s where
    tabs: "ApplyOp env (Model wg) o' (db_tables d) = Inr tabs"
    and s: "op_serialize (Model wg) o' = Inr s" and bound: "unat (op_seq o') < 2 ^ 63"
    and d': "d' = \<lparr>db_tables = tabs, db_log = db_log d @ [s],
      db_sequence = map (\<lambda>_. op_seq o') (db_sequence d)\<rparr>"
    by metis
  have "length os < 2 ^ 63" using rep by (simp add: represents_def)
  then have "unat (of_nat (Suc (length os)) :: uint64) = Suc (length os)"
    by (simp add: unat_of_nat_uint64 del: of_nat_Suc)
  with bound seq have "Suc (length os) < 2 ^ 63" by simp
  with rep seq show ?thesis
    using decode_serialize [OF wf s] ApplyOp_env [OF tabs] wf
    by (simp add: represents_def d' scanOps_append replay_append)
qed

lemma GetSequence_represents:
  "represents wg os d \<Longrightarrow> GetSequence env d = of_nat (length os) \<or> GetSequence env d = 0"
  by (auto simp: represents_def GetSequence_def split: sum.splits)

lemma GetSequence_ok [simp]:
  "represents wg os d \<Longrightarrow> stmt_err env select_sequence_sql = None \<Longrightarrow>
   GetSequence env d = of_nat (length os)"
  by (simp add: represents_def GetSequence_def run_stmt_def)

text \<open>
  The number a new operation gets is fresh only if it continues the log, even when the
  current number could not be read.
\<close>

lemma fresh_next_sequence:
  assumes rep: "represents wg os d" and fresh: "GetNextSequence env d \<notin> ops_Seq ` set (db_log d)"
  shows "GetNextSequence env d = of_nat (Suc (length os))"
proof (cases "GetSequence env d = of_nat (length os)")
  case False
  then have next1: "GetNextSequence env d = 1" and "os \<noteq> []"
    using GetSequence_represents [OF rep, of env] by (auto simp: GetNextSequence_def)
  have "map op_seq os = map of_nat [1..<Suc (length os)]"
    and "map op_seq os = map ops_Seq (db_log d)"
    using rep by (auto simp: represents_def scanOps_seq)
  then have "ops_Seq ` set (db_log d) = of_nat ` {1..<Suc (length os)}"
    by (metis set_map set_upt)
  then have "1 \<in> ops_Seq ` set (db_log d)"
    using \<open>os \<noteq> []\<close> by (force simp: image_iff Bex_def Suc_le_eq)
  with fresh next1 show ?thesis by simp
qed (simp add: GetNextSequence_def)

lemma Apply_success:
  assumes "represents wg os d" "obj_wf (op_value o')"
    and "Apply env (Model wg) o' False (d, p) = (Returns (Inr ()), (d', p'))"
  shows "represents wg (os @ [untimed (WithSequence (of_nat (Suc (length os))) o')]) d'"
    and "Emit (WithSequence (of_nat (Suc (length os))) o') p = (Returns (), p')"
proof -
  have "Apply_body env (Model wg) (WithSequence (GetNextSequence env d) o') (d, p) =
      (Returns (Inr ()), (d', p'))"
    using assms(3) by (simp add: Apply_def WithTransaction_def WithTx_success)
  moreover from this have "GetNextSequence env d \<notin> ops_Seq ` set (db_log d)"
    by (rule Apply_body_success) simp
  then have "GetNextSequence env d = of_nat (Suc (length os))"
    by (rule fresh_next_sequence [OF assms(1)])
  ultimately have body: "Apply_body env (Model wg) (WithSequence (of_nat (Suc (length os))) o') (d, p) =
      (Returns (Inr ()), (d', p'))"
    by simp
  show "represents wg (os @ [untimed (WithSequence (of_nat (Suc (length os))) o')]) d'"
    using Apply_body_represents [OF assms(1) _ _ body] assms(2) by simp
  show "Emit (WithSequence (of_nat (Suc (length os))) o') p = (Returns (), p')"
    using body by (rule Apply_body_success)
qed

lemma Apply_failure:
  assumes "Apply env crud o' fromLog (d, p) = (r, (d', p'))" "r \<noteq> Returns (Inr ())"
  shows "d' = d"
  using assms WithTx_rollback [of env _ "(d, p)" r "(d', p')"]
  by (auto simp: Apply_def WithTransaction_def)

lemma Apply_error:
  assumes "Apply env crud o' fromLog (d, p) = (Returns (Inl e), (d', p'))" "commit_err env = None"
  shows "p' = p"
  using assms
  by (auto simp: Apply_def WithTransaction_def WithTx_def Apply_body_def Let_def
      split: call_splits option.splits)

text \<open>
  C1: \<^verbatim>\<open>Apply\<close> refines appending to the log. Whatever the database engine does, a call for
  a new operation either succeeds and has appended exactly that operation under the next
  number, with tables and sequence counter to match, or leaves the database as it was.
\<close>

theorem apply_refines_append:
  assumes "represents wg os d" "obj_wf (op_value o')"
    and "Apply env (Model wg) o' False (d, p) = (r, (d', p'))"
  shows "if r = Returns (Inr ())
    then represents wg (os @ [untimed (WithSequence (of_nat (Suc (length os))) o')]) d'
    else d' = d"
  using assms Apply_success(1) Apply_failure by auto

section \<open>When a write succeeds\<close>

lemma represents_log_seqs:
  assumes "represents wg os d"
  shows "map ops_Seq (db_log d) = map of_nat [1..<Suc (length os)]"
  using assms by (auto simp: represents_def dest!: scanOps_seq)

lemma next_sequence_fresh:
  assumes rep: "represents wg os d"
  shows "of_nat (Suc (length os)) \<notin> ops_Seq ` set (db_log d)"
proof
  assume "of_nat (Suc (length os)) \<in> ops_Seq ` set (db_log d)"
  moreover have "ops_Seq ` set (db_log d) = of_nat ` {1..<Suc (length os)}"
    using represents_log_seqs [OF rep] by (metis set_map set_upt)
  ultimately obtain k where k: "k < Suc (length os)"
    "(of_nat (Suc (length os)) :: uint64) = of_nat k"
    by auto
  have "Suc (length os) < 2 ^ 64" using rep by (simp add: represents_def)
  with k have "Suc (length os) = k"
    by (metis unat_of_nat_uint64 order.strict_trans)
  with k(1) show False by simp
qed

lemma AppendToLog_ok:
  assumes "op_serialize enc o' = Inr s" "unat (op_seq o') < 2 ^ 63"
    "op_seq o' \<notin> ops_Seq ` set (db_log d)"
  shows "AppendToLog sql_ok enc o' d = Inr (d\<lparr>db_log := db_log d @ [s]\<rparr>)"
  using assms by (simp add: AppendToLog_def op_serialize_success sql_uint64_def)

text \<open>The database after an operation.\<close>

definition after_op :: "tables \<Rightarrow> opSerialized \<Rightarrow> db \<Rightarrow> db" where
  "after_op tabs s d = \<lparr>db_tables = tabs, db_log = db_log d @ [s],
     db_sequence = map (\<lambda>_. ops_Seq s) (db_sequence d)\<rparr>"

lemma Apply_body_ok:
  assumes rep: "represents wg os d" and seq: "op_seq o' = of_nat (Suc (length os))"
    and len: "Suc (length os) < 2 ^ 63"
    and tabs: "ApplyOp sql_ok (Model wg) o' (db_tables d) = Inr tabs"
    and s: "op_serialize (Model wg) o' = Inr s"
  shows "Apply_body sql_ok (Model wg) o' (d, p) =
    (case Emit o' p of
       (Returns _, p') \<Rightarrow> (Returns (Inr ()), (after_op tabs s d, p'))
     | (Blocks, p') \<Rightarrow> (Blocks, (after_op tabs s d, p'))
     | (Panics m, p') \<Rightarrow> (Panics m, (after_op tabs s d, p')))"
proof -
  have bound: "unat (op_seq o') < 2 ^ 63"
    unfolding seq using len by (simp add: unat_of_nat_uint64 del: of_nat_Suc)
  have "op_seq o' \<notin> ops_Seq ` set (db_log (d\<lparr>db_tables := tabs\<rparr>))"
    unfolding seq using next_sequence_fresh [OF rep] by simp
  from AppendToLog_ok [OF s bound this]
  show ?thesis
    using bound s
    by (simp add: Apply_body_def tabs SetSequence_def sql_uint64_def after_op_def op_serialize_success
        split: prod.splits outcome.splits)
qed

lemma storable_serializes: "storable (op_value o') \<Longrightarrow> \<exists>s. op_serialize (Model wg) o' = Inr s"
  by (simp add: op_serialize_def MarshalValue_Model)

lemma ApplyOp_storable: "ApplyOp env (Model wg) o' tabs = Inr t \<Longrightarrow> storable (op_value o')"
  by (cases "op_value o'")
    (auto simp: ApplyOp_def dispatcher_Create_def dispatcher_Update_def dispatcher_Delete_def
      split: if_splits)

lemma ApplyOp_WithSequence [simp]: "ApplyOp env crud (WithSequence q o') = ApplyOp env crud o'"
  by (simp add: ApplyOp_def fun_eq_iff)

lemma Apply_new:
  assumes rep: "represents wg os d" and len: "Suc (length os) < 2 ^ 63"
    and tabs: "ApplyOp sql_ok (Model wg) o' (db_tables d) = Inr tabs"
    and inv: "pubsub_inv p"
  shows "if list_all (has_room p) (ps_subscribers p)
    then \<exists>d'. Apply sql_ok (Model wg) o' False (d, p) =
      (Returns (Inr ()), (d', delivered (WithSequence (of_nat (Suc (length os))) o') p)) \<and>
      db_tables d' = tabs
    else \<exists>p'. Apply sql_ok (Model wg) o' False (d, p) = (Blocks, (d, p'))"
proof -
  let ?o = "WithSequence (of_nat (Suc (length os))) o'"
  have o: "WithSequence (GetNextSequence sql_ok d) o' = ?o"
    using rep by (simp add: GetNextSequence_def add.commute)
  obtain s where s: "op_serialize (Model wg) ?o = Inr s"
    using storable_serializes [of ?o] ApplyOp_storable [OF tabs] by auto
  have body: "Apply_body sql_ok (Model wg) ?o (d, p) =
    (case Emit ?o p of
       (Returns _, p') \<Rightarrow> (Returns (Inr ()), (after_op tabs s d, p'))
     | (Blocks, p') \<Rightarrow> (Blocks, (after_op tabs s d, p'))
     | (Panics m, p') \<Rightarrow> (Panics m, (after_op tabs s d, p')))"
    using rep _ len _ s by (rule Apply_body_ok) (simp_all add: tabs)
  show ?thesis
    using Emit_delivers [OF inv, of ?o] Emit_blocks [OF inv, of ?o]
    by (cases "Emit ?o p")
      (auto simp: Apply_def WithTransaction_def WithTx_def o body after_op_def simp del: of_nat_Suc)
qed

text \<open>
  C10: a write that the tables allow succeeds as soon as every subscriber has room, with the
  tables changed by it and the operation handed to every subscriber under its number;
  otherwise it waits, inside its transaction, with nothing changed in the database.
\<close>

theorem write_completes_or_waits:
  assumes "represents wg os d" "Suc (length os) < 2 ^ 63"
    and "ApplyOp sql_ok (Model wg) o' (db_tables d) = Inr tabs"
    and "pubsub_inv p"
  shows "if list_all (has_room p) (ps_subscribers p)
    then \<exists>d'. Apply sql_ok (Model wg) o' False (d, p) =
      (Returns (Inr ()), (d', delivered (WithSequence (of_nat (Suc (length os))) o') p)) \<and>
      db_tables d' = tabs
    else \<exists>p'. Apply sql_ok (Model wg) o' False (d, p) = (Blocks, (d, p'))"
  using assms by (rule Apply_new)

lemma ApplyOp_sample: "ApplyOp sql_ok (Model wg) sample_op (db_tables empty_db) = Inr sample_tables"
  by (simp add: ApplyOp_def OpType_defs Create_sample empty_db_def)

lemma newPubSub_room [simp]: "list_all (has_room newPubSub) (ps_subscribers newPubSub)"
  by (simp add: newPubSub_def)

theorem write_completes_or_waits_witness:
  "\<exists>d'. Apply sql_ok (Model sample_wg) sample_op False (empty_db, newPubSub) =
     (Returns (Inr ()), (d', delivered (WithSequence 1 sample_op) newPubSub)) \<and>
     db_tables d' = sample_tables"
  using write_completes_or_waits [OF represents_empty _ ApplyOp_sample pubsub_inv_new, of sample_wg]
  by simp

lemma Apply_sample:
  obtains d' where "Apply sql_ok (Model sample_wg) sample_op False (empty_db, newPubSub) =
     (Returns (Inr ()), (d', delivered (WithSequence 1 sample_op) newPubSub))"
    "db_tables d' = sample_tables"
  using Apply_new [OF represents_empty _ ApplyOp_sample pubsub_inv_new, of sample_wg] by auto

theorem apply_refines_append_witness:
  "\<exists>d' p'. Apply sql_ok (Model sample_wg) sample_op False (empty_db, newPubSub) =
     (Returns (Inr ()), (d', p')) \<and> represents sample_wg [untimed (WithSequence 1 sample_op)] d'"
proof -
  obtain d' where ok: "Apply sql_ok (Model sample_wg) sample_op False (empty_db, newPubSub) =
     (Returns (Inr ()), (d', delivered (WithSequence 1 sample_op) newPubSub))"
    by (rule Apply_sample)
  have "obj_wf (op_value sample_op)" using obj_wf_sample by simp
  from apply_refines_append [OF represents_empty this ok] ok show ?thesis by auto
qed

section \<open>A commit that fails\<close>

lemma run_stmt_cong: "stmt_err env = stmt_err env' \<Longrightarrow> run_stmt env = run_stmt env'"
  by (simp add: run_stmt_def fun_eq_iff)

lemma NamedExec_cong: "stmt_err env = stmt_err env' \<Longrightarrow> NamedExec env = NamedExec env'"
proof (intro ext)
  fix c st fs tabs
  assume "stmt_err env = stmt_err env'"
  then have "run_stmt env = (run_stmt env' :: string \<Rightarrow> tables result \<Rightarrow> tables result)"
    by (rule run_stmt_cong)
  then show "NamedExec env c st fs tabs = NamedExec env' c st fs tabs"
    by (cases st) (simp_all split: sum.splits)
qed

lemma ApplyOp_cong:
  assumes "stmt_err env = stmt_err env'"
  shows "ApplyOp env = ApplyOp env'"
  unfolding ApplyOp_def dispatcher_Create_def dispatcher_Update_def dispatcher_Delete_def
    adapter_Create_def adapter_Update_def adapter_Delete_def NamedExec_cong [OF assms] ..

lemma Apply_body_cong:
  assumes "stmt_err env = stmt_err env'"
  shows "Apply_body env = Apply_body env'"
  unfolding Apply_body_def AppendToLog_def SetSequence_def ApplyOp_cong [OF assms]
    run_stmt_cong [OF assms] ..

text \<open>
  C29: an operation reaches the subscribers before its transaction is committed. When the
  commit fails, the caller gets the error and the database is unchanged, but every
  subscriber has received an operation that is in no log.
\<close>

theorem emitted_before_commit:
  assumes rep: "represents wg os d" and len: "Suc (length os) < 2 ^ 63"
    and tabs: "ApplyOp sql_ok (Model wg) o' (db_tables d) = Inr tabs"
    and inv: "pubsub_inv p" and room: "list_all (has_room p) (ps_subscribers p)"
  shows "Apply (sql_ok\<lparr>commit_err := Some e\<rparr>) (Model wg) o' False (d, p) =
    (Returns (Inl e), (d, delivered (WithSequence (of_nat (Suc (length os))) o') p))"
proof -
  let ?env = "sql_ok\<lparr>commit_err := Some e\<rparr>"
  have env: "stmt_err ?env = stmt_err sql_ok" by simp
  have "GetNextSequence ?env d = GetNextSequence sql_ok d"
    unfolding GetNextSequence_def GetSequence_def run_stmt_cong [OF env] ..
  moreover obtain d' where "Apply sql_ok (Model wg) o' False (d, p) =
      (Returns (Inr ()), (d', delivered (WithSequence (of_nat (Suc (length os))) o') p))"
    using Apply_new [OF rep len tabs inv] room by auto
  ultimately show ?thesis
    using Apply_body_cong [OF env]
    by (simp add: Apply_def WithTransaction_def WithTx_def
        split: call_splits option.splits)
qed

theorem emitted_before_commit_witness:
  "Apply (sql_ok\<lparr>commit_err := Some (ErrMsg ''disk I/O error'')\<rparr>) (Model sample_wg) sample_op False
     (empty_db, newPubSub) =
   (Returns (Inl (ErrMsg ''disk I/O error'')), (empty_db, delivered (WithSequence 1 sample_op) newPubSub))"
  using emitted_before_commit [OF represents_empty _ ApplyOp_sample pubsub_inv_new newPubSub_room,
      where wg = sample_wg and e = "ErrMsg ''disk I/O error''"]
  by simp

section \<open>Opening a subscription\<close>

lemma filter_from_sequence:
  assumes "map f xs = map of_nat [a..<a + length xs]" "a + length xs < 2 ^ 64"
  shows "filter (\<lambda>x. (start :: uint64) \<le> f x) xs = drop (unat start - a) xs"
  using assms
proof (induction xs arbitrary: a)
  case (Cons x xs)
  have tail: "f x = of_nat a" "map f xs = map of_nat [Suc a..<Suc a + length xs]"
    using Cons.prems(1) by (simp_all add: upt_conv_Cons del: upt_Suc)
  then have "filter (\<lambda>x. start \<le> f x) xs = drop (unat start - Suc a) xs"
    using Cons.prems(2) by (intro Cons.IH) auto
  moreover have "start \<le> f x \<longleftrightarrow> unat start \<le> a"
    using Cons.prems(2) tail(1) by (simp add: word_le_nat_alt unat_of_nat_uint64)
  ultimately show ?case
    by (cases "unat start \<le> a") (auto simp: drop_Cons')
qed simp

lemma sort_key_id: "sorted (map f xs) \<Longrightarrow> sort_key f xs = xs"
  by (induction xs) (auto simp: insort_is_Cons)

lemma represents_sorted:
  assumes "represents wg os d"
  shows "sorted (map (\<lambda>s. unat (ops_Seq s)) (db_log d))"
proof -
  have "map (\<lambda>s. unat (ops_Seq s)) (db_log d) = map unat (map ops_Seq (db_log d))" by simp
  also have "\<dots> = map (\<lambda>n. unat (of_nat n :: uint64)) [1..<Suc (length os)]"
    by (simp only: represents_log_seqs [OF assms]) simp
  also have "\<dots> = [1..<Suc (length os)]"
    using assms by (intro map_idI) (auto simp: represents_def unat_of_nat_uint64)
  finally show ?thesis by (simp del: upt_Suc)
qed

lemma QueryLogSince_represents:
  assumes rep: "represents wg os d" and start: "unat start < 2 ^ 63"
  shows "QueryLogSince sql_ok (Model wg) start d = Inr (drop (unat start - 1) os)"
proof -
  have len: "length (db_log d) = length os"
    using represents_log_seqs [OF rep] by (metis diff_Suc_1 length_map length_upt)
  have rows: "filter (\<lambda>s. start \<le> ops_Seq s) (db_log d) = drop (unat start - 1) (db_log d)"
    using represents_log_seqs [OF rep] rep
    by (intro filter_from_sequence) (simp_all add: len represents_def)
  have "sort_key (\<lambda>s. unat (ops_Seq s)) (drop (unat start - 1) (db_log d)) = drop (unat start - 1) (db_log d)"
    using represents_sorted [OF rep] by (intro sort_key_id) (simp add: drop_map [symmetric] sorted_wrt_drop)
  moreover have "scanOps (Model wg) (drop (unat start - 1) (db_log d)) = Inr (drop (unat start - 1) os)"
    using rep by (intro scanOps_drop) (simp add: represents_def)
  ultimately show ?thesis
    using start by (simp add: QueryLogSince_def sql_uint64_def rows)
qed

lemma Subscribe_represents:
  assumes rep: "represents wg os d" and start: "unat start < 2 ^ 63"
  shows "Subscribe sql_ok (Model wg) start (d, p) =
    (if unat start \<le> Suc (length os)
     then (Returns (Inr \<lparr>sub_preload = drop (unat start - 1) os, sub_ch = ps_next p\<rparr>),
           (d, AddSubscriber (ps_next p) (snd (make_chan p))))
     else (Returns (Inl ErrHorizon), (d, p)))"
proof -
  have "Suc (length os) < 2 ^ 64" using rep by (simp add: represents_def)
  then have "unat (of_nat (Suc (length os)) :: uint64) = Suc (length os)"
    by (rule unat_of_nat_uint64)
  then have "GetSequence sql_ok d + 1 < start \<longleftrightarrow> Suc (length os) < unat start"
    using rep by (simp add: word_less_nat_alt add.commute)
  then show ?thesis
    by (auto simp: Subscribe_def WithTransaction_def WithTx_def QueryLogSince_represents [OF rep start]
        make_chan_def split: if_splits)
qed

text \<open>The same for an engine that may fail statements.\<close>

lemma QueryLogSince_env:
  "QueryLogSince env enc start d = Inr os \<Longrightarrow>
   unat start < 2 ^ 63 \<and> QueryLogSince sql_ok enc start d = Inr os"
  by (auto simp: QueryLogSince_def sql_uint64_def split: sum.splits if_splits)

lemma Subscribe_success:
  assumes rep: "represents wg os d"
    and ok: "Subscribe env (Model wg) start (d, p) = (Returns (Inr sub), (d', p'))"
  shows "d' = d" "sub = \<lparr>sub_preload = drop (unat start - 1) os, sub_ch = ps_next p\<rparr>"
    "p' = AddSubscriber (ps_next p) (snd (make_chan p))" "unat start \<le> Suc (length os)"
proof -
  from ok obtain pre where pre: "QueryLogSince env (Model wg) start d = Inr pre"
    and hor: "\<not> GetSequence env d + 1 < start"
    and eqs: "d' = d" "sub = \<lparr>sub_preload = pre, sub_ch = ps_next p\<rparr>"
      "p' = AddSubscriber (ps_next p) (snd (make_chan p))"
    by (auto simp: Subscribe_def WithTransaction_def WithTx_success make_chan_def
        split: if_splits sum.splits)
  show "d' = d" "p' = AddSubscriber (ps_next p) (snd (make_chan p))" by (fact eqs)+
  have "unat start < 2 ^ 63" and "QueryLogSince sql_ok (Model wg) start d = Inr pre"
    using QueryLogSince_env [OF pre] by auto
  then show "sub = \<lparr>sub_preload = drop (unat start - 1) os, sub_ch = ps_next p\<rparr>"
    using QueryLogSince_represents [OF rep] eqs(2) by simp
  have "unat (GetSequence env d + 1) \<le> Suc (length os)"
  proof (cases "GetSequence env d = 0")
    case False
    then have "GetSequence env d + 1 = of_nat (Suc (length os))"
      using GetSequence_represents [OF rep, of env] by (simp add: add.commute)
    moreover have "Suc (length os) < 2 ^ 64" using rep by (simp add: represents_def)
    ultimately show ?thesis by (simp add: unat_of_nat_uint64 del: of_nat_Suc)
  qed simp
  with hor show "unat start \<le> Suc (length os)" by (simp add: word_less_nat_alt)
qed

lemma Subscribe_error:
  assumes "Subscribe env enc start (d, p) = (Returns (Inl e), (d', p'))" "commit_err env = None"
  shows "d' = d \<and> p' = p"
  using assms
  by (auto simp: Subscribe_def WithTransaction_def WithTx_def Let_def make_chan_def
      split: call_splits option.splits if_splits)

end
