(* ===== verification/Replication.thy ===== *)
theory Replication
  imports Log_Props "HOL-Library.Sublist"
begin

text \<open>
  Subscriptions while the datastore is in use. The system is a datastore with any number of
  subscriptions; its steps are the writes, new subscriptions, closing ones, and the moves of
  an operation through a subscription: \<^verbatim>\<open>Notify\<close> (\<^verbatim>\<open>datastore/crudlog/log.go\<close>) starts
  a goroutine that takes operations, first from the preloaded ones and then from the
  subscriber's channel, and puts them into the channel it returned, from which the consumer
  reads.
\<close>

section \<open>The goroutine of a subscription\<close>

record subst =
  ss_start :: Sequence
  ss_preload :: "op list"
  ss_ch :: nat
  ss_hand :: "op option"
  ss_out :: "op list"
  ss_seen :: "op list"

definition Notify :: "Sequence \<Rightarrow> subscription \<Rightarrow> subst" where
  "Notify start sub = \<lparr>ss_start = start, ss_preload = sub_preload sub, ss_ch = sub_ch sub,
     ss_hand = None, ss_out = [], ss_seen = []\<rparr>"

text \<open>Take the next operation, put it into the outgoing channel, receive it at its end.\<close>

fun notify_take :: "subst \<Rightarrow> pubsub \<Rightarrow> (subst \<times> pubsub) option" where
  "notify_take u p =
     (case ss_hand u of
        Some _ \<Rightarrow> None
      | None \<Rightarrow>
          (case ss_preload u of
             o' # os \<Rightarrow> Some (u\<lparr>ss_hand := Some o', ss_preload := os\<rparr>, p)
           | [] \<Rightarrow>
               (case ps_buf p (ss_ch u) of
                  o' # os \<Rightarrow> Some (u\<lparr>ss_hand := Some o'\<rparr>, p\<lparr>ps_buf := (ps_buf p)(ss_ch u := os)\<rparr>)
                | [] \<Rightarrow> None)))"

fun notify_put :: "subst \<Rightarrow> subst option" where
  "notify_put u =
     (case ss_hand u of
        None \<Rightarrow> None
      | Some o' \<Rightarrow>
          if length (ss_out u) < chanBufSize then Some (u\<lparr>ss_hand := None, ss_out := ss_out u @ [o']\<rparr>)
          else None)"

fun notify_recv :: "subst \<Rightarrow> (op \<times> subst) option" where
  "notify_recv u =
     (case ss_out u of
        [] \<Rightarrow> None
      | o' # os \<Rightarrow> Some (o', u\<lparr>ss_out := os, ss_seen := ss_seen u @ [o']\<rparr>))"

section \<open>The system\<close>

record sys =
  sys_db :: db
  sys_ps :: pubsub
  sys_subs :: "subst list"

definition sys_init :: sys where
  "sys_init = \<lparr>sys_db = empty_db, sys_ps = newPubSub, sys_subs = []\<rparr>"

text \<open>The moves inside subscription \<open>i\<close>.\<close>

inductive deliver_step :: "nat \<Rightarrow> sys \<Rightarrow> sys \<Rightarrow> bool" for i where
  take: "i < length (sys_subs s) \<Longrightarrow> notify_take (sys_subs s ! i) (sys_ps s) = Some (u, p) \<Longrightarrow>
    deliver_step i s (s\<lparr>sys_ps := p, sys_subs := (sys_subs s)[i := u]\<rparr>)"
| put: "i < length (sys_subs s) \<Longrightarrow> notify_put (sys_subs s ! i) = Some u \<Longrightarrow>
    deliver_step i s (s\<lparr>sys_subs := (sys_subs s)[i := u]\<rparr>)"
| recv: "i < length (sys_subs s) \<Longrightarrow> notify_recv (sys_subs s ! i) = Some (o', u) \<Longrightarrow>
    deliver_step i s (s\<lparr>sys_subs := (sys_subs s)[i := u]\<rparr>)"

text \<open>
  A write or a subscription runs in a transaction that returns, with or without an error,
  whatever statements the engine fails; only a failing commit is left out, which
  \<open>emitted_before_commit\<close> is about. A subscription is closed at most once.
\<close>

inductive sys_step :: "wgkeys \<Rightarrow> sys \<Rightarrow> sys \<Rightarrow> bool" for wg where
  writes: "Apply env (Model wg) o' False (sys_db s, sys_ps s) = (Returns r, (d', p')) \<Longrightarrow>
    commit_err env = None \<Longrightarrow> obj_wf (op_value o') \<Longrightarrow>
    sys_step wg s (s\<lparr>sys_db := d', sys_ps := p'\<rparr>)"
| subscribes: "Subscribe env (Model wg) start (sys_db s, sys_ps s) = (Returns (Inr sub), (d', p')) \<Longrightarrow>
    commit_err env = None \<Longrightarrow>
    sys_step wg s (s\<lparr>sys_db := d', sys_ps := p', sys_subs := sys_subs s @ [Notify start sub]\<rparr>)"
| subscribe_fails: "Subscribe env (Model wg) start (sys_db s, sys_ps s) = (Returns (Inl e), (d', p')) \<Longrightarrow>
    commit_err env = None \<Longrightarrow>
    sys_step wg s (s\<lparr>sys_db := d', sys_ps := p'\<rparr>)"
| closes: "i < length (sys_subs s) \<Longrightarrow> ss_ch (sys_subs s ! i) \<in> set (ps_subscribers (sys_ps s)) \<Longrightarrow>
    sys_step wg s (s\<lparr>sys_ps := removeSubscriber (ss_ch (sys_subs s ! i)) (sys_ps s)\<rparr>)"
| delivers: "deliver_step i s s' \<Longrightarrow> sys_step wg s s'"

definition sys_reach :: "wgkeys \<Rightarrow> sys \<Rightarrow> bool" where
  "sys_reach wg s = (sys_step wg)\<^sup>*\<^sup>* sys_init s"

section \<open>The invariant\<close>

definition hand_list :: "op option \<Rightarrow> op list" where
  "hand_list h = (case h of None \<Rightarrow> [] | Some o' \<Rightarrow> [o'])"

lemma hand_list_simps [simp]: "hand_list None = []" "hand_list (Some o') = [o']"
  by (simp_all add: hand_list_def)

text \<open>Everything a subscription has received or will receive from what was sent so far.\<close>

definition flow :: "pubsub \<Rightarrow> subst \<Rightarrow> op list" where
  "flow p u = ss_seen u @ ss_out u @ hand_list (ss_hand u) @ ss_preload u @ ps_buf p (ss_ch u)"

definition from_start :: "subst \<Rightarrow> op list \<Rightarrow> op list" where
  "from_start u os = drop (unat (ss_start u) - 1) os"

definition sub_inv :: "op list \<Rightarrow> pubsub \<Rightarrow> subst \<Rightarrow> bool" where
  "sub_inv os p u =
     (ss_ch u < ps_next p \<and> unat (ss_start u) - 1 \<le> length os \<and>
      prefix (map untimed (flow p u)) (from_start u os) \<and>
      (ss_ch u \<in> set (ps_subscribers p) \<longrightarrow> map untimed (flow p u) = from_start u os))"

definition sys_inv :: "wgkeys \<Rightarrow> op list \<Rightarrow> sys \<Rightarrow> bool" where
  "sys_inv wg os s =
     (represents wg os (sys_db s) \<and> pubsub_inv (sys_ps s) \<and>
      distinct (map ss_ch (sys_subs s)) \<and>
      list_all (sub_inv os (sys_ps s)) (sys_subs s))"

lemma sys_inv_init: "sys_inv wg [] sys_init"
  by (simp add: sys_inv_def sys_init_def represents_empty pubsub_inv_new)

text \<open>A new operation reaches exactly the open subscriptions.\<close>

lemma sub_inv_delivered:
  assumes "sub_inv os p u" "pubsub_inv p"
  shows "sub_inv (os @ [untimed o']) (delivered o' p) u"
proof (cases "ss_ch u \<in> set (ps_subscribers p)")
  case True
  then have "flow (delivered o' p) u = flow p u @ [o']"
    by (simp add: flow_def delivered_def)
  moreover have "from_start u (os @ [untimed o']) = from_start u os @ [untimed o']"
    using assms(1) by (auto simp: from_start_def sub_inv_def drop_Cons' split: if_splits)
  ultimately show ?thesis
    using assms True by (auto simp: sub_inv_def delivered_def)
next
  case False
  then have "flow (delivered o' p) u = flow p u"
    by (simp add: flow_def delivered_def)
  moreover have "prefix (from_start u os) (from_start u (os @ [untimed o']))"
    by (simp add: from_start_def)
  ultimately show ?thesis
    using assms False by (auto simp: sub_inv_def delivered_def intro: prefix_order.trans)
qed

lemma represents_untimed_drop: "represents wg os d \<Longrightarrow> map untimed (drop k os) = drop k os"
  unfolding represents_def by (metis drop_map)

text \<open>The moves inside a subscription keep its flow, and the buffers of the others.\<close>

lemma deliver_flow:
  assumes "deliver_step i s s'"
  shows "sys_db s' = sys_db s" "length (sys_subs s') = length (sys_subs s)" "i < length (sys_subs s)"
    "\<And>j. j < length (sys_subs s) \<Longrightarrow> j \<noteq> i \<Longrightarrow> sys_subs s' ! j = sys_subs s ! j"
    "ss_ch (sys_subs s' ! i) = ss_ch (sys_subs s ! i)"
    "ss_start (sys_subs s' ! i) = ss_start (sys_subs s ! i)"
    "flow (sys_ps s') (sys_subs s' ! i) = flow (sys_ps s) (sys_subs s ! i)"
    "ps_next (sys_ps s') = ps_next (sys_ps s)" "ps_subscribers (sys_ps s') = ps_subscribers (sys_ps s)"
    "ps_toClose (sys_ps s') = ps_toClose (sys_ps s)" "ps_closed (sys_ps s') = ps_closed (sys_ps s)"
    "\<And>ch. ch \<noteq> ss_ch (sys_subs s ! i) \<Longrightarrow> ps_buf (sys_ps s') ch = ps_buf (sys_ps s) ch"
  using assms
  by (cases; auto simp: flow_def split: option.splits list.splits if_splits)+

lemma sys_inv_deliver:
  assumes step: "deliver_step i s s'" and inv: "sys_inv wg os s"
  shows "sys_inv wg os s'"
proof -
  note d = deliver_flow [OF step]
  have same: "sub_inv os (sys_ps s') (sys_subs s' ! j)" if j: "j < length (sys_subs s)" for j
  proof -
    have "flow (sys_ps s') (sys_subs s' ! j) = flow (sys_ps s) (sys_subs s ! j) \<and>
      ss_ch (sys_subs s' ! j) = ss_ch (sys_subs s ! j) \<and>
      ss_start (sys_subs s' ! j) = ss_start (sys_subs s ! j)"
    proof (cases "j = i")
      case False
      then have "ss_ch (sys_subs s ! j) \<noteq> ss_ch (sys_subs s ! i)"
        using inv j d(3) by (auto simp: sys_inv_def distinct_conv_nth)
      with False j d(4,12) show ?thesis by (simp add: flow_def)
    qed (simp add: d)
    moreover have "sub_inv os (sys_ps s) (sys_subs s ! j)"
      using inv j by (simp add: sys_inv_def list_all_length)
    ultimately show ?thesis by (simp add: sub_inv_def from_start_def d)
  qed
  have "map ss_ch (sys_subs s') = map ss_ch (sys_subs s)"
    using d(2,4,5) by (intro nth_equalityI) (auto, metis)
  with inv same d show ?thesis
    by (simp add: sys_inv_def pubsub_inv_def list_all_length)
qed

lemma sys_inv_write:
  assumes inv: "sys_inv wg os s" and wf: "obj_wf (op_value o')" and env: "commit_err env = None"
    and ap: "Apply env (Model wg) o' False (sys_db s, sys_ps s) = (Returns r, (d', p'))"
  shows "\<exists>os'. prefix os os' \<and> sys_inv wg os' (s\<lparr>sys_db := d', sys_ps := p'\<rparr>)"
proof (cases r)
  case (Inl e)
  then have "d' = sys_db s" "p' = sys_ps s"
    using ap Apply_failure [OF ap] Apply_error [OF _ env] by auto
  with inv show ?thesis by (intro exI [of _ os]) (simp add: sys_inv_def)
next
  case (Inr a)
  let ?o = "WithSequence (of_nat (Suc (length os))) o'"
  have rep: "represents wg os (sys_db s)" and pinv: "pubsub_inv (sys_ps s)"
    using inv by (simp_all add: sys_inv_def)
  have ok: "Apply env (Model wg) o' False (sys_db s, sys_ps s) = (Returns (Inr ()), (d', p'))"
    using ap Inr by simp
  have "p' = delivered ?o (sys_ps s)"
    by (rule Emit_cases [OF pinv Apply_success(2) [OF rep wf ok]]) auto
  with inv Apply_success(1) [OF rep wf ok] show ?thesis
    by (intro exI [of _ "os @ [untimed ?o]"])
      (auto simp: sys_inv_def pubsub_inv_delivered list_all_iff simp del: of_nat_Suc
        intro!: sub_inv_delivered)
qed

lemma sys_inv_subscribe:
  assumes inv: "sys_inv wg os s"
    and ok: "Subscribe env (Model wg) start (sys_db s, sys_ps s) = (Returns (Inr sub), (d', p'))"
  shows "sys_inv wg os (s\<lparr>sys_db := d', sys_ps := p', sys_subs := sys_subs s @ [Notify start sub]\<rparr>)"
proof -
  have rep: "represents wg os (sys_db s)" and pinv: "pubsub_inv (sys_ps s)"
    using inv by (simp_all add: sys_inv_def)
  note sub = Subscribe_success [OF rep ok]
  have "sub_inv os p' u" if "u \<in> set (sys_subs s)" for u
    using that inv
    by (auto simp: sys_inv_def list_all_iff sub_inv_def sub(3) AddSubscriber_def make_chan_def flow_def)
  moreover have "sub_inv os p' (Notify start sub)"
    using sub(4) represents_untimed_drop [OF rep]
    by (auto simp: sub_inv_def Notify_def sub(2,3) AddSubscriber_def make_chan_def flow_def
        from_start_def)
  moreover have "pubsub_inv p'"
    unfolding sub(3) by (rule pubsub_inv_subscribe [OF pinv]) (simp add: make_chan_def)
  moreover have "ps_next (sys_ps s) \<notin> ss_ch ` set (sys_subs s)"
    using inv by (auto simp: sys_inv_def list_all_iff sub_inv_def)
  ultimately show ?thesis
    using inv by (auto simp: sys_inv_def sub(1,2) Notify_def list_all_iff)
qed

lemma sys_inv_close:
  assumes inv: "sys_inv wg os s" and ch: "ch \<in> set (ps_subscribers (sys_ps s))"
  shows "sys_inv wg os (s\<lparr>sys_ps := removeSubscriber ch (sys_ps s)\<rparr>)"
  using inv pubsub_inv_remove [OF _ ch]
  by (auto simp: sys_inv_def list_all_iff sub_inv_def flow_def removeSubscriber_def)

lemma sys_inv_step:
  assumes "sys_step wg s s'" "sys_inv wg os s"
  shows "\<exists>os'. prefix os os' \<and> sys_inv wg os' s'"
  using assms(1)
proof cases
  case (writes env o' r d' p')
  then show ?thesis using sys_inv_write [OF assms(2)] by simp
next
  case (subscribes env start sub d' p')
  with sys_inv_subscribe [OF assms(2)] have "sys_inv wg os s'" by simp
  then show ?thesis by blast
next
  case (subscribe_fails env start e d' p')
  with Subscribe_error have "d' = sys_db s \<and> p' = sys_ps s" by simp
  with subscribe_fails(1) assms(2) have "sys_inv wg os s'" by simp
  then show ?thesis by blast
next
  case (closes i)
  with sys_inv_close [OF assms(2)] have "sys_inv wg os s'" by simp
  then show ?thesis by blast
next
  case (delivers i)
  with sys_inv_deliver [OF _ assms(2)] have "sys_inv wg os s'" by simp
  then show ?thesis by blast
qed

lemma sys_inv_reach:
  assumes "sys_reach wg s"
  shows "\<exists>os. sys_inv wg os s"
  using assms unfolding sys_reach_def
  by (induction rule: rtranclp_induct) (blast intro: sys_inv_init dest: sys_inv_step)+

text \<open>The log only grows, and a subscription keeps its place, start and channel.\<close>

lemma sys_inv_steps:
  assumes "(sys_step wg)\<^sup>*\<^sup>* s s'" "sys_inv wg os s"
  shows "\<exists>os'. prefix os os' \<and> sys_inv wg os' s'"
  using assms
proof (induction rule: rtranclp_induct)
  case (step s1 s2)
  then obtain os1 where "prefix os os1" "sys_inv wg os1 s1" by blast
  with sys_inv_step [OF step.hyps(2)] show ?case by (meson prefix_order.trans)
qed blast

lemma deliver_sub:
  assumes "deliver_step i s s'" "j < length (sys_subs s)"
  shows "ss_start (sys_subs s' ! j) = ss_start (sys_subs s ! j) \<and> ss_ch (sys_subs s' ! j) = ss_ch (sys_subs s ! j)"
  using deliver_flow [OF assms(1)] assms(2) by (cases "j = i") simp_all

lemma sys_step_sub:
  assumes "sys_step wg s s'" "j < length (sys_subs s)"
  shows "j < length (sys_subs s') \<and> ss_start (sys_subs s' ! j) = ss_start (sys_subs s ! j) \<and>
    ss_ch (sys_subs s' ! j) = ss_ch (sys_subs s ! j)"
  using assms
proof cases
  case (delivers i)
  with deliver_sub deliver_flow(2) assms(2) show ?thesis by metis
qed (simp_all add: nth_append)

lemma sys_steps_sub:
  assumes "(sys_step wg)\<^sup>*\<^sup>* s s'" "j < length (sys_subs s)"
  shows "j < length (sys_subs s') \<and> ss_start (sys_subs s' ! j) = ss_start (sys_subs s ! j) \<and>
    ss_ch (sys_subs s' ! j) = ss_ch (sys_subs s ! j)"
  using assms by (induction rule: rtranclp_induct) (auto dest: sys_step_sub)

section \<open>What a subscriber receives\<close>

lemma sub_inv_reach:
  assumes "sys_reach wg s" "u \<in> set (sys_subs s)"
  obtains os where "represents wg os (sys_db s)" "sub_inv os (sys_ps s) u"
  using sys_inv_reach [OF assms(1)] assms(2) by (auto simp: sys_inv_def list_all_iff)

lemma represents_drop_seqs:
  assumes "represents wg os d"
  shows "map op_seq (drop k os) = map of_nat [Suc k..<Suc (length os)]"
proof -
  have "map op_seq (drop k os) = drop k (map op_seq os)" by (simp add: drop_map)
  also have "\<dots> = drop k (map of_nat [1..<Suc (length os)])"
    using assms by (simp only: represents_def)
  finally show ?thesis by (simp add: drop_map del: upt_Suc)
qed

lemma prefix_map_upt:
  assumes "prefix ys (map g [a..<b])"
  shows "ys = map g [a..<a + length ys]"
proof (cases "ys = []")
  case False
  have "length ys \<le> b - a" using prefix_length_le [OF assms] by simp
  with False have "a + length ys \<le> b" by (cases ys) auto
  then have "take (length ys) (map g [a..<b]) = map g [a..<a + length ys]"
    by (simp add: take_map)
  then show ?thesis using assms by (auto simp: prefix_def)
qed simp

text \<open>
  C2: a subscriber receives the log from the number it asked for, in order and without
  gaps or repetitions: what it has received is numbered consecutively from there and agrees
  with the log of the datastore, whatever writes, failures and other subscribers there are.
\<close>

theorem subscriber_sees_log:
  assumes "sys_reach wg s" "u \<in> set (sys_subs s)"
  shows "\<exists>os. represents wg os (sys_db s) \<and>
    prefix (map untimed (ss_seen u)) (drop (unat (ss_start u) - 1) os) \<and>
    map op_seq (ss_seen u) =
      map of_nat [Suc (unat (ss_start u) - 1)..<Suc (unat (ss_start u) - 1) + length (ss_seen u)]"
proof -
  let ?k = "unat (ss_start u) - 1"
  obtain os where rep: "represents wg os (sys_db s)" and inv: "sub_inv os (sys_ps s) u"
    using assms by (rule sub_inv_reach)
  have "prefix (map untimed (ss_seen u)) (map untimed (flow (sys_ps s) u))"
    by (simp add: flow_def)
  then have pre: "prefix (map untimed (ss_seen u)) (drop ?k os)"
    using inv by (auto simp: sub_inv_def from_start_def intro: prefix_order.trans)
  then have "prefix (map op_seq (map untimed (ss_seen u))) (map op_seq (drop ?k os))"
    by (rule map_mono_prefix)
  moreover have "map op_seq (map untimed (ss_seen u)) = map op_seq (ss_seen u)" by simp
  ultimately have "prefix (map op_seq (ss_seen u)) (map op_seq (drop ?k os))" by (simp only:)
  then have "prefix (map op_seq (ss_seen u)) (map of_nat [Suc ?k..<Suc (length os)])"
    by (simp only: represents_drop_seqs [OF rep])
  then have "map op_seq (ss_seen u) = map of_nat [Suc ?k..<Suc ?k + length (map op_seq (ss_seen u))]"
    by (rule prefix_map_upt)
  then have "map op_seq (ss_seen u) = map of_nat [Suc ?k..<Suc ?k + length (ss_seen u)]"
    by (simp only: length_map)
  with rep pre show ?thesis by blast
qed

section \<open>Every subscriber can catch up\<close>

definition drained :: "pubsub \<Rightarrow> subst \<Rightarrow> bool" where
  "drained p u = (ss_out u = [] \<and> ss_hand u = None \<and> ss_preload u = [] \<and> ps_buf p (ss_ch u) = [])"

definition backlog :: "sys \<Rightarrow> nat \<Rightarrow> nat" where
  "backlog s i = (let u = sys_subs s ! i in
     length (ss_out u) + 2 * length (hand_list (ss_hand u)) +
     3 * (length (ss_preload u) + length (ps_buf (sys_ps s) (ss_ch u))))"

lemma deliver_progress:
  assumes "i < length (sys_subs s)" "\<not> drained (sys_ps s) (sys_subs s ! i)"
  shows "\<exists>s'. deliver_step i s s' \<and> backlog s' i < backlog s i"
proof -
  let ?u = "sys_subs s ! i"
  consider (out) o' os where "ss_out ?u = o' # os"
    | (hand) o' where "ss_out ?u = []" "ss_hand ?u = Some o'"
    | (pre) o' os where "ss_hand ?u = None" "ss_preload ?u = o' # os"
    | (buf) o' os where "ss_hand ?u = None" "ss_preload ?u = []" "ps_buf (sys_ps s) (ss_ch ?u) = o' # os"
    using assms(2) unfolding drained_def
    by (metis list.exhaust option.exhaust)
  then show ?thesis
  proof cases
    case out
    then have "deliver_step i s
        (s\<lparr>sys_subs := (sys_subs s)[i := ?u\<lparr>ss_out := os, ss_seen := ss_seen ?u @ [o']\<rparr>]\<rparr>)"
      using assms(1) by (intro deliver_step.recv [where o' = o']) simp_all
    with out assms(1) show ?thesis by (intro exI conjI) (auto simp: backlog_def Let_def)
  next
    case hand
    then have "deliver_step i s (s\<lparr>sys_subs := (sys_subs s)[i := ?u\<lparr>ss_hand := None, ss_out := [o']\<rparr>]\<rparr>)"
      using assms(1) by (intro deliver_step.put) (simp_all add: chanBufSize_def)
    with hand assms(1) show ?thesis by (intro exI conjI) (auto simp: backlog_def Let_def)
  next
    case pre
    then have "deliver_step i s (s\<lparr>sys_ps := sys_ps s,
        sys_subs := (sys_subs s)[i := ?u\<lparr>ss_hand := Some o', ss_preload := os\<rparr>]\<rparr>)"
      using assms(1) by (intro deliver_step.take) simp_all
    with pre assms(1) show ?thesis by (intro exI conjI) (auto simp: backlog_def Let_def)
  next
    case buf
    then have "deliver_step i s (s\<lparr>sys_ps := (sys_ps s)\<lparr>ps_buf := (ps_buf (sys_ps s))(ss_ch ?u := os)\<rparr>,
        sys_subs := (sys_subs s)[i := ?u\<lparr>ss_hand := Some o'\<rparr>]\<rparr>)"
      using assms(1) by (intro deliver_step.take) simp_all
    with buf assms(1) show ?thesis by (intro exI conjI) (auto simp: backlog_def Let_def)
  qed
qed

lemma deliver_drains:
  assumes "i < length (sys_subs s)"
  shows "\<exists>s'. (deliver_step i)\<^sup>*\<^sup>* s s' \<and> drained (sys_ps s') (sys_subs s' ! i)"
  using assms
proof (induction "backlog s i" arbitrary: s rule: less_induct)
  case less
  show ?case
  proof (cases "drained (sys_ps s) (sys_subs s ! i)")
    case False
    then obtain s1 where s1: "deliver_step i s s1" "backlog s1 i < backlog s i"
      using deliver_progress less.prems by blast
    then have "i < length (sys_subs s1)" using less.prems deliver_flow(2) by simp
    with less.hyps [OF s1(2)] obtain s' where
      "(deliver_step i)\<^sup>*\<^sup>* s1 s'" "drained (sys_ps s') (sys_subs s' ! i)"
      by blast
    with s1(1) show ?thesis by (meson converse_rtranclp_into_rtranclp)
  qed blast
qed

lemma deliver_steps_flow:
  assumes "(deliver_step i)\<^sup>*\<^sup>* s s'"
  shows "sys_db s' = sys_db s \<and> ss_ch (sys_subs s' ! i) = ss_ch (sys_subs s ! i) \<and>
    flow (sys_ps s') (sys_subs s' ! i) = flow (sys_ps s) (sys_subs s ! i)"
  using assms by (induction rule: rtranclp_induct) (auto simp: deliver_flow)

text \<open>
  C9: no subscriber is stuck. At any moment, the moves of an open subscription alone, with
  its consumer reading, bring it to the point where it has received the whole log from the
  number it asked for.
\<close>

theorem subscriber_catches_up:
  assumes "sys_reach wg s" "i < length (sys_subs s)"
    and "ss_ch (sys_subs s ! i) \<in> set (ps_subscribers (sys_ps s))"
  shows "\<exists>s' os. (deliver_step i)\<^sup>*\<^sup>* s s' \<and> sys_db s' = sys_db s \<and> represents wg os (sys_db s) \<and>
    map untimed (ss_seen (sys_subs s' ! i)) =
      drop (unat (ss_start (sys_subs s ! i)) - 1) os"
proof -
  obtain os where rep: "represents wg os (sys_db s)" and inv: "sub_inv os (sys_ps s) (sys_subs s ! i)"
    using sub_inv_reach [OF assms(1), of "sys_subs s ! i"] assms(2) nth_mem by metis
  obtain s' where s': "(deliver_step i)\<^sup>*\<^sup>* s s'" and "drained (sys_ps s') (sys_subs s' ! i)"
    using deliver_drains [OF assms(2)] by blast
  then have "flow (sys_ps s') (sys_subs s' ! i) = ss_seen (sys_subs s' ! i)"
    by (simp add: drained_def flow_def)
  then have "map untimed (ss_seen (sys_subs s' ! i)) =
      drop (unat (ss_start (sys_subs s ! i)) - 1) os"
    using deliver_steps_flow [OF s'] inv assms(3) by (simp add: sub_inv_def from_start_def)
  with s' rep deliver_steps_flow [OF s'] show ?thesis by blast
qed

text \<open>A run with one subscriber and one write.\<close>

definition sample_ps :: pubsub where
  "sample_ps = AddSubscriber 0 (snd (make_chan newPubSub))"

definition sample_sub :: subst where
  "sample_sub = Notify 1 \<lparr>sub_preload = [], sub_ch = 0\<rparr>"

lemma sample_ps_simps:
  "pubsub_inv sample_ps" "list_all (has_room sample_ps) (ps_subscribers sample_ps)"
  "ps_subscribers sample_ps = [0]" "ps_buf sample_ps 0 = []"
proof -
  show "pubsub_inv sample_ps"
    unfolding sample_ps_def
    by (rule pubsub_inv_subscribe [OF pubsub_inv_new]) (simp add: make_chan_def newPubSub_def)
qed (simp_all add: sample_ps_def AddSubscriber_def make_chan_def newPubSub_def has_room_def
    chanBufSize_def)

lemma sample_run:
  obtains d where "sys_reach sample_wg
    \<lparr>sys_db = d, sys_ps = delivered (WithSequence 1 sample_op) sample_ps, sys_subs = [sample_sub]\<rparr>"
    "represents sample_wg [untimed (WithSequence 1 sample_op)] d"
proof -
  have "Subscribe sql_ok (Model sample_wg) 1 (empty_db, newPubSub) =
      (Returns (Inr \<lparr>sub_preload = [], sub_ch = 0\<rparr>), (empty_db, sample_ps))"
    by (simp add: Subscribe_represents [OF represents_empty] sample_ps_def newPubSub_def)
  then have sub: "sys_step sample_wg sys_init
      \<lparr>sys_db = empty_db, sys_ps = sample_ps, sys_subs = [sample_sub]\<rparr>"
    using sys_step.subscribes [of sql_ok sample_wg 1 sys_init] by (simp add: sys_init_def sample_sub_def)
  obtain d where ap: "Apply sql_ok (Model sample_wg) sample_op False (empty_db, sample_ps) =
      (Returns (Inr ()), (d, delivered (WithSequence 1 sample_op) sample_ps))"
    using Apply_new [OF represents_empty _ ApplyOp_sample sample_ps_simps(1), of sample_wg]
      sample_ps_simps(2) by auto
  have wf: "obj_wf (op_value sample_op)" using obj_wf_sample by simp
  have "sys_step sample_wg \<lparr>sys_db = empty_db, sys_ps = sample_ps, sys_subs = [sample_sub]\<rparr>
      \<lparr>sys_db = d, sys_ps = delivered (WithSequence 1 sample_op) sample_ps, sys_subs = [sample_sub]\<rparr>"
    using sys_step.writes [of sql_ok sample_wg sample_op
        "\<lparr>sys_db = empty_db, sys_ps = sample_ps, sys_subs = [sample_sub]\<rparr>"] ap wf
    by (simp del: obj_wf.simps)
  then have "sys_reach sample_wg
      \<lparr>sys_db = d, sys_ps = delivered (WithSequence 1 sample_op) sample_ps, sys_subs = [sample_sub]\<rparr>"
    unfolding sys_reach_def
    by (rule rtranclp.rtrancl_into_rtrancl [OF r_into_rtranclp [of "sys_step sample_wg", OF sub]])
  moreover have "represents sample_wg [untimed (WithSequence 1 sample_op)] d"
    using Apply_success(1) [OF represents_empty wf ap] by simp
  ultimately show ?thesis by (rule that)
qed

theorem subscriber_sees_log_witness:
  "\<exists>s u os. sys_reach sample_wg s \<and> u \<in> set (sys_subs s) \<and> represents sample_wg os (sys_db s) \<and>
    prefix (map untimed (ss_seen u)) (drop (unat (ss_start u) - 1) os)"
proof -
  obtain d where r: "sys_reach sample_wg
      \<lparr>sys_db = d, sys_ps = delivered (WithSequence 1 sample_op) sample_ps, sys_subs = [sample_sub]\<rparr>"
      (is "sys_reach _ ?s")
    by (rule sample_run)
  have u: "sample_sub \<in> set (sys_subs ?s)" by simp
  from subscriber_sees_log [OF r u] r u show ?thesis by (elim exE conjE) (intro exI conjI)
qed

theorem subscriber_catches_up_witness:
  "\<exists>s s' os. sys_reach sample_wg s \<and> (deliver_step 0)\<^sup>*\<^sup>* s s' \<and> represents sample_wg os (sys_db s) \<and>
    map untimed (ss_seen (sys_subs s' ! 0)) =
      drop (unat (ss_start (sys_subs s ! 0)) - 1) os"
proof -
  obtain d where r: "sys_reach sample_wg
      \<lparr>sys_db = d, sys_ps = delivered (WithSequence 1 sample_op) sample_ps, sys_subs = [sample_sub]\<rparr>"
      (is "sys_reach _ ?s")
    by (rule sample_run)
  have "0 < length (sys_subs ?s)" "ss_ch (sys_subs ?s ! 0) \<in> set (ps_subscribers (sys_ps ?s))"
    by (simp_all add: sample_sub_def Notify_def delivered_def sample_ps_simps)
  from subscriber_catches_up [OF r this] r show ?thesis by (elim exE conjE) (intro exI conjI)
qed

end
