(* ===== verification/Follow.thy ===== *)
theory Follow
  imports Replication
begin

text \<open>
  Following a log (\<^verbatim>\<open>datastore/crudlog/follow.go\<close>): a sink is kept up to date with a source.
  \<^verbatim>\<open>doFollow\<close> is written against the interfaces \<^verbatim>\<open>LogSource\<close> and \<^verbatim>\<open>LogSink\<close>; here
  they are records of functions, over a state of the source's side and one of the sink.
\<close>

section \<open>The interfaces\<close>

record ('w, 'sub) LogSource =
  src_Subscribe :: "Sequence \<Rightarrow> 'w \<Rightarrow> 'sub result outcome \<times> 'w"
  src_Snapshot :: "'w \<Rightarrow> (memSnapshot option \<times> error option) outcome \<times> 'w"

record 't LogSink =
  snk_Apply :: "op \<Rightarrow> bool \<Rightarrow> 't \<Rightarrow> unit result outcome \<times> 't"
  snk_LatestSequence :: "'t \<Rightarrow> Sequence"
  snk_LoadSnapshot :: "memSnapshot \<Rightarrow> 't \<Rightarrow> unit result outcome \<times> 't"

section \<open>One round\<close>

definition nil_deref :: string where
  "nil_deref = ''invalid memory address or nil pointer dereference''"

text \<open>
  The part of \<^verbatim>\<open>doFollow\<close> up to an open subscription; \<open>restart\<close> is
  \<^verbatim>\<open>restartFromSnapshot\<close>, and the recursive call is the \<^verbatim>\<open>goto retry\<close>.
\<close>

function follow_connect :: "('w, 'sub) LogSource \<Rightarrow> 't LogSink \<Rightarrow> bool \<Rightarrow> Sequence \<Rightarrow> 'w \<times> 't \<Rightarrow>
    'sub result outcome \<times> ('w \<times> 't)" where
  "follow_connect src dst restart start (w, t) =
     (case src_Subscribe src (start + 1) w of
        (Blocks, w1) \<Rightarrow> (Blocks, (w1, t))
      | (Panics m, w1) \<Rightarrow> (Panics m, (w1, t))
      | (Returns (Inr sub), w1) \<Rightarrow> (Returns (Inr sub), (w1, t))
      | (Returns (Inl e), w1) \<Rightarrow>
          if errors_Is e ErrHorizon \<and> restart then
            (case src_Snapshot src w1 of
               (Blocks, w2) \<Rightarrow> (Blocks, (w2, t))
             | (Panics m, w2) \<Rightarrow> (Panics m, (w2, t))
             | (Returns (_, Some serr), w2) \<Rightarrow> (Returns (Inl (Wrapped ''Snapshot() error'' serr)), (w2, t))
             | (Returns (None, None), w2) \<Rightarrow> (Panics nil_deref, (w2, t))
             | (Returns (Some snap, None), w2) \<Rightarrow>
                 (case snk_LoadSnapshot dst snap t of
                    (Returns (Inl err), t1) \<Rightarrow>
                      (Returns (Inl (Wrapped (''loading snapshot '' @ Sequence_String (snap_SeqNum snap)) err)),
                       (w2, t1))
                  | (Returns (Inr _), t1) \<Rightarrow> follow_connect src dst False (snap_SeqNum snap) (w2, t1)
                  | (Blocks, t1) \<Rightarrow> (Blocks, (w2, t1))
                  | (Panics m, t1) \<Rightarrow> (Panics m, (w2, t1))))
          else (Returns (Inl (Wrapped ''subscription error'' e)), (w1, t)))"
  by pat_completeness auto
termination
  by (relation "measure (\<lambda>(_, _, restart, _). if restart then 1 else 0)") auto

text \<open>
  The receiving loop: what the \<^verbatim>\<open>select\<close> can see is an operation, the closed channel (a nil
  operation), or the end of the context. When the events run out, the call is waiting.
\<close>

datatype follow_event = Received op | ChanClosed | CtxDone error

fun follow_loop :: "'t LogSink \<Rightarrow> follow_event list \<Rightarrow> 't \<Rightarrow> error option outcome \<times> 't" where
  "follow_loop dst [] t = (Blocks, t)"
| "follow_loop dst (Received o' # evs) t =
     (case snk_Apply dst o' True t of
        (Returns (Inr _), t') \<Rightarrow> follow_loop dst evs t'
      | (Returns (Inl err), t') \<Rightarrow>
          (Returns (Some (Wrapped (''sequence '' @ Sequence_String (op_seq o')) err)), t')
      | (Blocks, t') \<Rightarrow> (Blocks, t')
      | (Panics m, t') \<Rightarrow> (Panics m, t'))"
| "follow_loop dst (ChanClosed # evs) t = (Returns None, t)"
| "follow_loop dst (CtxDone e # evs) t = (Returns (Some e), t)"

text \<open>\<open>events\<close> gives what a subscription delivers.\<close>

definition doFollow :: "('w, 'sub) LogSource \<Rightarrow> 't LogSink \<Rightarrow> ('sub \<Rightarrow> follow_event list) \<Rightarrow> 'w \<times> 't \<Rightarrow>
    error option outcome \<times> ('w \<times> 't)" where
  "doFollow src dst events = (\<lambda>(w, t).
     case follow_connect src dst True (snk_LatestSequence dst t) (w, t) of
       (Returns (Inl e), s) \<Rightarrow> (Returns (Some e), s)
     | (Returns (Inr sub), (w', t')) \<Rightarrow>
         (case follow_loop dst (events sub) t' of (r, t'') \<Rightarrow> (r, (w', t'')))
     | (Blocks, s) \<Rightarrow> (Blocks, s)
     | (Panics m, s) \<Rightarrow> (Panics m, s))"

text \<open>\<^verbatim>\<open>Follow\<close> repeats it until there is an error; each round has its own events.\<close>

fun Follow :: "('w, 'sub) LogSource \<Rightarrow> 't LogSink \<Rightarrow> ('sub \<Rightarrow> follow_event list) list \<Rightarrow> 'w \<times> 't \<Rightarrow>
    error option outcome \<times> ('w \<times> 't)" where
  "Follow src dst [] s = (Blocks, s)"
| "Follow src dst (evs # rounds) s =
     (case doFollow src dst evs s of
        (Returns None, s') \<Rightarrow> Follow src dst rounds s'
      | r \<Rightarrow> r)"

text \<open>The operations among the events, up to the first event that ends the loop.\<close>

fun received :: "follow_event list \<Rightarrow> op list" where
  "received (Received o' # evs) = o' # received evs"
| "received _ = []"

text \<open>Applying operations one after the other, as long as they succeed.\<close>

fun apply_all :: "'t LogSink \<Rightarrow> op list \<Rightarrow> 't \<Rightarrow> 't option" where
  "apply_all dst [] t = Some t"
| "apply_all dst (o' # os) t =
     (case snk_Apply dst o' True t of (Returns (Inr _), t') \<Rightarrow> apply_all dst os t' | _ \<Rightarrow> None)"

lemma loop_returns_None:
  "follow_loop dst evs t = (Returns None, t') \<Longrightarrow> apply_all dst (received evs) t = Some t'"
  by (induction dst evs t rule: follow_loop.induct)
    (auto split: call_splits)

lemma loop_apply_all:
  "apply_all dst (received evs) t = Some t' \<Longrightarrow> snd (follow_loop dst evs t) = t'"
  by (induction dst evs t rule: follow_loop.induct)
    (auto split: call_splits)

section \<open>The contract of a sink\<close>

text \<open>
  A sink remembers the last operation it applied: \<^verbatim>\<open>LatestSequence\<close> is its number, and an
  operation that fails leaves it alone. That is what lets the next round go on where the
  last one stopped.
\<close>

locale log_sink =
  fixes dst :: "'t LogSink" and inv :: "'t \<Rightarrow> bool"
  assumes apply_ok: "inv t \<Longrightarrow> snk_Apply dst o' True t = (Returns (Inr ()), t') \<Longrightarrow>
      inv t' \<and> snk_LatestSequence dst t' = op_seq o'"
    and apply_err: "inv t \<Longrightarrow> snk_Apply dst o' True t = (Returns (Inl e), t') \<Longrightarrow>
      inv t' \<and> snk_LatestSequence dst t' = snk_LatestSequence dst t"
begin

lemma apply_all_sequence:
  "inv t \<Longrightarrow> apply_all dst os t = Some t' \<Longrightarrow>
   inv t' \<and> snk_LatestSequence dst t' = last (snk_LatestSequence dst t # map op_seq os)"
  by (induction os arbitrary: t) (fastforce split: call_splits dest: apply_ok)+

text \<open>A round that ends with the connection continues exactly where it stopped.\<close>

lemma round_resumes:
  assumes "inv t" "follow_loop dst evs t = (Returns None, t')"
    and "map op_seq (received evs) =
      map (\<lambda>k. snk_LatestSequence dst t + of_nat k) [1..<Suc (length (received evs))]"
  shows "inv t' \<and>
    snk_LatestSequence dst t' = snk_LatestSequence dst t + of_nat (length (received evs))"
proof -
  have "inv t' \<and> snk_LatestSequence dst t' =
      last (snk_LatestSequence dst t # map op_seq (received evs))"
    using apply_all_sequence [OF assms(1) loop_returns_None [OF assms(2)]] .
  moreover have "last (q # map (\<lambda>k. q + of_nat k) [1..<Suc n]) = q + of_nat n" for q :: Sequence and n
    by (cases n) simp_all
  ultimately show ?thesis by (simp only: assms(3))
qed

lemma loop_error_keeps:
  assumes "inv t" "follow_loop dst evs t = (Returns (Some e), t')"
  shows "\<exists>k \<le> length (received evs). snk_LatestSequence dst t' =
    last (snk_LatestSequence dst t # map op_seq (take k (received evs)))"
  using assms
proof (induction evs arbitrary: t)
  case (Cons ev evs)
  show ?case
  proof (cases ev)
    case (Received o')
    obtain r t1 where ap: "snk_Apply dst o' True t = (r, t1)" by (cases "snk_Apply dst o' True t")
    show ?thesis
    proof (cases "r = Returns (Inr ())")
      case True
      then have t1: "inv t1" "snk_LatestSequence dst t1 = op_seq o'"
        using apply_ok [OF Cons.prems(1)] ap by auto
      then obtain k where "k \<le> length (received evs)" "snk_LatestSequence dst t' =
          last (op_seq o' # map op_seq (take k (received evs)))"
        using Cons.IH [of t1] Cons.prems(2) Received ap True by auto
      then show ?thesis by (intro exI [of _ "Suc k"]) (simp add: Received)
    next
      case False
      then have "\<exists>e. r = Returns (Inl e) \<and> t' = t1"
        using Cons.prems(2) Received ap by (auto split: outcome.splits sum.splits)
      then show ?thesis using apply_err [OF Cons.prems(1)] ap by (intro exI [of _ 0]) auto
    qed
  qed (use Cons.prems in \<open>auto intro!: exI [of _ 0]\<close>)
qed simp

end

section \<open>The datastore as source and sink\<close>

definition datastore_sink :: "nat \<Rightarrow> (nat \<Rightarrow> string list) \<Rightarrow> wgkeys \<Rightarrow> (db \<times> pubsub) LogSink" where
  "datastore_sink depth ords wg =
     \<lparr>snk_Apply = Apply sql_ok (Model wg),
      snk_LatestSequence = LatestSequence sql_ok,
      snk_LoadSnapshot = LoadSnapshot depth ords sql_ok (Model wg)\<rparr>"

definition datastore_source :: "string list \<Rightarrow> wgkeys \<Rightarrow> (db \<times> pubsub, subscription) LogSource" where
  "datastore_source ord wg =
     \<lparr>src_Subscribe = (\<lambda>start. Subscribe sql_ok (Model wg) start),
      src_Snapshot = (\<lambda>s. (Returns (Snapshot sql_ok (Model wg) ord s), s))\<rparr>"

lemma LatestSequence_ok [simp]:
  "db_sequence d = q # qs \<Longrightarrow> LatestSequence sql_ok (d, p) = q"
  by (simp add: LatestSequence_def WithROTransaction_def WithTx_def GetSequence_def)

definition sink_inv :: "db \<times> pubsub \<Rightarrow> bool" where
  "sink_inv = (\<lambda>(d, p). db_sequence d \<noteq> [] \<and> pubsub_inv p)"

lemma Apply_fromLog_success:
  assumes "Apply env crud o' True (d, p) = (Returns (Inr ()), (d', p'))"
  shows "Apply_body env crud o' (d, p) = (Returns (Inr ()), (d', p'))"
  using assms by (simp add: Apply_def WithTransaction_def WithTx_success)

interpretation ds: log_sink "datastore_sink depth ords wg" sink_inv
proof unfold_locales
  fix o' and t t' :: "db \<times> pubsub"
  assume inv: "sink_inv t" and ap: "snk_Apply (datastore_sink depth ords wg) o' True t = (Returns (Inr ()), t')"
  obtain d p d' p' where t: "t = (d, p)" "t' = (d', p')" by (cases t, cases t')
  have "Apply_body sql_ok (Model wg) o' (d, p) = (Returns (Inr ()), (d', p'))"
    using ap by (intro Apply_fromLog_success) (simp add: datastore_sink_def t)
  then have "db_sequence d' = map (\<lambda>_. op_seq o') (db_sequence d)" "Emit o' p = (Returns (), p')"
    by (auto elim: Apply_body_success)
  then show "sink_inv t' \<and> snk_LatestSequence (datastore_sink depth ords wg) t' = op_seq o'"
    using inv Emit_cases [of p o'] pubsub_inv_delivered [of p o']
    by (cases "db_sequence d") (auto simp: sink_inv_def t datastore_sink_def)
next
  fix o' e and t t' :: "db \<times> pubsub"
  assume inv: "sink_inv t" and ap: "snk_Apply (datastore_sink depth ords wg) o' True t = (Returns (Inl e), t')"
  obtain d p d' p' where t: "t = (d, p)" "t' = (d', p')" by (cases t, cases t')
  have "Apply sql_ok (Model wg) o' True (d, p) = (Returns (Inl e), (d', p'))"
    using ap by (simp add: datastore_sink_def t)
  then have "d' = d" "p' = p" using Apply_failure Apply_error by fastforce+
  with inv show "sink_inv t' \<and> snk_LatestSequence (datastore_sink depth ords wg) t' =
      snk_LatestSequence (datastore_sink depth ords wg) t"
    by (simp add: t)
qed

section \<open>A datastore that follows another\<close>

lemma Apply_replicated:
  assumes rep: "represents wg os d" and len: "Suc (length os) < 2 ^ 63"
    and seq: "op_seq o' = of_nat (Suc (length os))" and wf: "obj_wf (op_value o')"
    and tabs: "ApplyOp sql_ok (Model wg) o' (db_tables d) = Inr tabs"
    and p: "pubsub_inv p" "ps_subscribers p = []"
  shows "\<exists>d'. Apply sql_ok (Model wg) o' True (d, p) = (Returns (Inr ()), (d', delivered o' p)) \<and>
    represents wg (os @ [untimed o']) d'"
proof -
  obtain s where s: "op_serialize (Model wg) o' = Inr s"
    using storable_serializes obj_wf_storable [OF wf] by blast
  have "Emit o' p = (Returns (), delivered o' p)"
    using p by (intro Emit_delivers) simp_all
  with Apply_body_ok [OF rep seq len tabs s, of p]
  have body: "Apply_body sql_ok (Model wg) o' (d, p) =
      (Returns (Inr ()), (after_op tabs s d, delivered o' p))"
    by simp
  then have "Apply sql_ok (Model wg) o' True (d, p) =
      (Returns (Inr ()), (after_op tabs s d, delivered o' p))"
    by (simp add: Apply_def WithTransaction_def WithTx_success)
  with Apply_body_represents [OF rep wf seq body] show ?thesis by blast
qed

lemma replay_prefix:
  assumes "represents wg (os @ o' # os') d" "represents wg os df"
  obtains tabs where "ApplyOp sql_ok (Model wg) o' (db_tables df) = Inr tabs"
  using assms by (auto simp: represents_def replay_append split: sum.splits)

lemma represents_nth:
  assumes "represents wg (os @ o' # os') d"
  shows "op_seq o' = of_nat (Suc (length os))" "obj_wf (op_value o')" "Suc (length os) < 2 ^ 63"
proof -
  have "map op_seq (drop (length os) (os @ o' # os')) =
      map of_nat [Suc (length os)..<Suc (length (os @ o' # os'))]"
    using assms by (rule represents_drop_seqs)
  then show "op_seq o' = of_nat (Suc (length os))"
    by (simp add: upt_conv_Cons del: upt_Suc of_nat_Suc)
qed (use assms in \<open>auto simp: represents_def\<close>)

lemma apply_all_replicated:
  assumes "represents wg (os @ map untimed xs @ rest) d" "represents wg os df"
    and "pubsub_inv pf" "ps_subscribers pf = []"
  shows "\<exists>df' pf'. apply_all (datastore_sink depth ords wg) xs (df, pf) = Some (df', pf') \<and>
    represents wg (os @ map untimed xs) df'"
  using assms
proof (induction xs arbitrary: os df pf)
  case (Cons x xs)
  have x: "represents wg (os @ untimed x # (map untimed xs @ rest)) d" using Cons.prems(1) by simp
  obtain tabs where "ApplyOp sql_ok (Model wg) (untimed x) (db_tables df) = Inr tabs"
    using replay_prefix [OF x Cons.prems(2)] .
  then obtain df1 where df1: "Apply sql_ok (Model wg) x True (df, pf) = (Returns (Inr ()), (df1, delivered x pf))"
    "represents wg (os @ [untimed x]) df1"
    using Apply_replicated [OF Cons.prems(2), of x tabs pf] represents_nth [OF x] Cons.prems(3,4)
    by auto
  have "\<exists>df' pf'. apply_all (datastore_sink depth ords wg) xs (df1, delivered x pf) = Some (df', pf') \<and>
      represents wg ((os @ [untimed x]) @ map untimed xs) df'"
    using Cons.prems df1(2)
    by (intro Cons.IH) (simp_all add: pubsub_inv_delivered, simp add: delivered_def)
  with df1(1) show ?case by (simp add: datastore_sink_def)
qed simp

lemma represents_same:
  "represents wg os d \<Longrightarrow> represents wg os d' \<Longrightarrow>
   db_tables d = db_tables d' \<and> db_sequence d = db_sequence d'"
  by (simp add: represents_def)

lemma represents_unique: "represents wg os d \<Longrightarrow> represents wg os' d \<Longrightarrow> os = os'"
  by (simp add: represents_def)

lemma LatestSequence_represents:
  "represents wg os d \<Longrightarrow> LatestSequence sql_ok (d, p) = of_nat (length os)"
  by (simp add: represents_def)

lemma resume_position:
  assumes "represents wg os d"
  shows "unat (LatestSequence sql_ok (d, p) + 1) - 1 = length os"
proof -
  have "Suc (length os) < 2 ^ 64" using assms by (simp add: represents_def)
  then have "unat (of_nat (Suc (length os)) :: uint64) = Suc (length os)"
    by (rule unat_of_nat_uint64)
  then show ?thesis by (simp add: LatestSequence_represents [OF assms] add.commute)
qed

lemma follow_loop_received:
  "apply_all dst xs t = Some t' \<Longrightarrow> follow_loop dst (map Received xs) t = (Blocks, t')"
  by (induction xs arbitrary: t) (auto split: call_splits)

lemma follow_loop_closed:
  "apply_all dst xs t = Some t' \<Longrightarrow> follow_loop dst (map Received xs @ [ChanClosed]) t = (Returns None, t')"
  by (induction xs arbitrary: t) (auto split: call_splits)

text \<open>What a subscription has handed over is applied without error, and leads to a prefix of the log.\<close>

lemma follower_applies:
  assumes s: "sys_reach wg s" "u \<in> set (sys_subs s)"
    and f: "represents wg osf df" "pubsub_inv pf" "ps_subscribers pf = []"
    and pre: "represents wg os (sys_db s)" "prefix osf os"
    and start: "ss_start u = LatestSequence sql_ok (df, pf) + 1"
  shows "\<exists>df' pf'. apply_all (datastore_sink depth ords wg) (ss_seen u) (df, pf) = Some (df', pf') \<and>
    represents wg (osf @ map untimed (ss_seen u)) df' \<and> prefix (osf @ map untimed (ss_seen u)) os"
proof -
  obtain os' where "represents wg os' (sys_db s)" and inv: "sub_inv os' (sys_ps s) u"
    using s by (rule sub_inv_reach)
  then have "sub_inv os (sys_ps s) u" using represents_unique [OF pre(1)] by blast
  then have "prefix (map untimed (flow (sys_ps s) u)) (drop (length osf) os)"
    using resume_position [OF f(1), of pf] by (simp add: sub_inv_def from_start_def start)
  then have "prefix (map untimed (ss_seen u)) (drop (length osf) os)"
    by (auto simp: flow_def prefix_def)
  then obtain rest where "drop (length osf) os = map untimed (ss_seen u) @ rest"
    by (auto simp: prefix_def)
  with pre(2) have os: "os = osf @ map untimed (ss_seen u) @ rest"
    by (auto simp: prefix_def)
  from apply_all_replicated [OF pre(1) [unfolded os] f] os show ?thesis by auto
qed

text \<open>
  C5: a datastore that follows another is at every moment a replica of an earlier state of
  it. Started on a prefix of the primary's log and subscribed from its own next number, it
  applies everything it receives without error, and its database is then exactly the one
  that a prefix of the primary's log leads to.
\<close>

theorem follower_is_prefix:
  assumes "sys_reach wg s" "u \<in> set (sys_subs s)"
    and "represents wg osf df" "pubsub_inv pf" "ps_subscribers pf = []"
    and "represents wg os (sys_db s)" "prefix osf os"
    and "ss_start u = LatestSequence sql_ok (df, pf) + 1"
  shows "\<exists>df' pf' osf'.
    follow_loop (datastore_sink depth ords wg) (map Received (ss_seen u)) (df, pf) = (Blocks, (df', pf')) \<and>
    represents wg osf' df' \<and> prefix osf' os"
  using follower_applies [OF assms, of depth ords]
  by (elim exE conjE) (intro exI conjI follow_loop_received)

lemma subscriber_drains:
  assumes s: "sys_reach wg s" "i < length (sys_subs s)"
      "ss_ch (sys_subs s ! i) \<in> set (ps_subscribers (sys_ps s))"
    and pre: "represents wg os (sys_db s)" and start: "unat (ss_start (sys_subs s ! i)) - 1 = n"
  shows "\<exists>s'. (deliver_step i)\<^sup>*\<^sup>* s s' \<and> map untimed (ss_seen (sys_subs s' ! i)) = drop n os"
proof -
  have "sub_inv os (sys_ps s) (sys_subs s ! i)"
    using sub_inv_reach [OF s(1) nth_mem [OF s(2)]] represents_unique [OF pre] by metis
  then have flow: "map untimed (flow (sys_ps s) (sys_subs s ! i)) = drop n os"
    using s(3) start by (simp add: sub_inv_def from_start_def)
  obtain s' where s': "(deliver_step i)\<^sup>*\<^sup>* s s'" "drained (sys_ps s') (sys_subs s' ! i)"
    using deliver_drains [OF s(2)] by blast
  then have "ss_seen (sys_subs s' ! i) = flow (sys_ps s') (sys_subs s' ! i)"
    by (simp add: drained_def flow_def)
  then show ?thesis using deliver_steps_flow [OF s'(1)] flow s'(1) by auto
qed

lemma follower_drains:
  assumes s: "sys_reach wg s" "i < length (sys_subs s)"
      "ss_ch (sys_subs s ! i) \<in> set (ps_subscribers (sys_ps s))"
    and f: "represents wg osf df"
    and pre: "represents wg os (sys_db s)" "prefix osf os"
    and start: "ss_start (sys_subs s ! i) = LatestSequence sql_ok (df, pf) + 1"
  shows "\<exists>s'. (deliver_step i)\<^sup>*\<^sup>* s s' \<and> os = osf @ map untimed (ss_seen (sys_subs s' ! i))"
  using subscriber_drains [OF s pre(1), of "length osf"] resume_position [OF f, of pf] pre(2)
  by (auto simp: start prefix_def)

text \<open>
  A sink that has the first \<open>n\<close> operations connects and is then sent the others, whatever happens
  at the source meanwhile.
\<close>

lemma source_connects:
  assumes d: "represents wg os d" and t: "snk_LatestSequence dst t = of_nat n" "n \<le> length os" "Suc n < 2 ^ 63"
  obtains sub p' where
    "Subscribe sql_ok (Model wg) (snk_LatestSequence dst t + 1) (d, p) = (Returns (Inr sub), (d, p'))"
    "sub_ch sub \<in> set (ps_subscribers p')"
    "follow_connect (datastore_source ord wg) dst True (snk_LatestSequence dst t) ((d, p), t) =
      (Returns (Inr sub), ((d, p'), t))"
    "unat (snk_LatestSequence dst t + 1) = Suc n"
proof -
  let ?q = "snk_LatestSequence dst t"
  have q: "unat (?q + 1) = Suc n"
    using unat_of_nat_uint64 [of "Suc n"] t(3) by (simp add: t(1) add.commute)
  obtain sub p' where sub: "Subscribe sql_ok (Model wg) (?q + 1) (d, p) = (Returns (Inr sub), (d, p'))"
    using Subscribe_represents [OF d, of "?q + 1" p] t(2,3) by (simp add: q)
  then have "follow_connect (datastore_source ord wg) dst True ?q ((d, p), t) = (Returns (Inr sub), ((d, p'), t))"
    by (subst follow_connect.simps) (simp add: datastore_source_def)
  moreover have "sub_ch sub \<in> set (ps_subscribers p')"
    using Subscribe_success [OF d sub] by (simp add: AddSubscriber_def)
  ultimately show thesis using that sub q by blast
qed

lemma connected_reads:
  assumes s: "sys_reach wg s" "represents wg os (sys_db s)"
    and sub: "Subscribe sql_ok (Model wg) start (sys_db s, sys_ps s) = (Returns (Inr sub), (sys_db s, p1))"
      "unat start = Suc n"
    and s2: "(sys_step wg)\<^sup>*\<^sup>* (s\<lparr>sys_ps := p1, sys_subs := sys_subs s @ [Notify start sub]\<rparr>) s2"
      "sub_ch sub \<in> set (ps_subscribers (sys_ps s2))"
  obtains s' os2 where "(deliver_step (length (sys_subs s)))\<^sup>*\<^sup>* s2 s'" "represents wg os2 (sys_db s2)" "prefix os os2"
    "map untimed (ss_seen (sys_subs s' ! length (sys_subs s))) = drop n os2"
proof -
  let ?i = "length (sys_subs s)" and ?s1 = "s\<lparr>sys_ps := p1, sys_subs := sys_subs s @ [Notify start sub]\<rparr>"
  have step: "sys_step wg s ?s1" using sys_step.subscribes [OF sub(1)] by simp
  obtain os1 where os1: "prefix os os1" "sys_inv wg os1 ?s1"
    using sys_inv_step [OF step] sys_inv_reach [OF s(1)] represents_unique [OF s(2)] by (metis sys_inv_def)
  obtain os2 where os2: "prefix os1 os2" "represents wg os2 (sys_db s2)"
    using sys_inv_steps [OF s2(1) os1(2)] by (auto simp: sys_inv_def)
  have i: "?i < length (sys_subs s2)" "ss_start (sys_subs s2 ! ?i) = start" "ss_ch (sys_subs s2 ! ?i) = sub_ch sub"
    using sys_steps_sub [OF s2(1), of ?i] by (simp_all add: Notify_def)
  have reach: "sys_reach wg s2"
    using s(1) step s2(1) unfolding sys_reach_def by (meson rtranclp.rtrancl_into_rtrancl rtranclp_trans)
  obtain s' where "(deliver_step ?i)\<^sup>*\<^sup>* s2 s'" "map untimed (ss_seen (sys_subs s' ! ?i)) = drop n os2"
    using subscriber_drains [OF reach i(1) _ os2(2), of n] s2(2) sub(2) by (auto simp: i(2,3))
  moreover have "prefix os os2" using os1(1) os2(1) by (meson prefix_order.trans)
  ultimately show thesis using that os2(2) by blast
qed

lemma next_operation_read:
  assumes s: "sys_reach wg s" "represents wg os (sys_db s)"
    and sub: "Subscribe sql_ok (Model wg) start (sys_db s, sys_ps s) = (Returns (Inr sub), (sys_db s, p1))"
      "unat start = Suc (length os)"
    and ap: "Apply sql_ok (Model wg) o' False (sys_db s, p1) = (Returns (Inr ()), (d2, p2))" "obj_wf (op_value o')"
      "sub_ch sub \<in> set (ps_subscribers p2)"
  obtains s' x where "(deliver_step (length (sys_subs s)))\<^sup>*\<^sup>*
      (s\<lparr>sys_ps := p1, sys_subs := sys_subs s @ [Notify start sub], sys_db := d2, sys_ps := p2\<rparr>) s'"
    "ss_seen (sys_subs s' ! length (sys_subs s)) = [x]" "untimed x = untimed (WithSequence (of_nat (Suc (length os))) o')"
proof -
  let ?s1 = "s\<lparr>sys_ps := p1, sys_subs := sys_subs s @ [Notify start sub]\<rparr>" and ?o = "WithSequence (of_nat (Suc (length os))) o'"
  let ?s2 = "?s1\<lparr>sys_db := d2, sys_ps := p2\<rparr>"
  have "sys_step wg ?s1 ?s2" using sys_step.writes [of sql_ok wg o' ?s1] ap(1,2) by simp
  then have steps: "(sys_step wg)\<^sup>*\<^sup>* ?s1 ?s2" by blast
  obtain s' os2 where s': "(deliver_step (length (sys_subs s)))\<^sup>*\<^sup>* ?s2 s'" "represents wg os2 (sys_db ?s2)"
    "map untimed (ss_seen (sys_subs s' ! length (sys_subs s))) = drop (length os) os2"
    by (rule connected_reads [OF s sub steps]) (use ap(3) in simp_all)
  have "os2 = os @ [untimed ?o]"
    using represents_unique [OF Apply_success(1) [OF s(2) ap(2,1)], of os2] s'(2) by simp
  with s'(3) have "map untimed (ss_seen (sys_subs s' ! length (sys_subs s))) = [untimed ?o]" by simp
  then show thesis using that s'(1) by (auto simp: map_eq_Cons_conv)
qed

lemma doFollow_received:
  "follow_connect src dst True (snk_LatestSequence dst t) (w, t) = (Returns (Inr sub), (w', t)) \<Longrightarrow>
   apply_all dst xs t = Some t' \<Longrightarrow> doFollow src dst (\<lambda>_. map Received xs) (w, t) = (Blocks, (w', t'))"
  by (simp add: doFollow_def follow_loop_received del: follow_connect.simps)

text \<open>
  C3: replication converges. A datastore whose log is a prefix of that of the primary connects to
  it by subscribing from its own next number. Whatever then happens at the primary, writes
  included, as long as the subscription is not closed: when the primary pauses and the follower
  reads on, \<^verbatim>\<open>doFollow\<close> has applied everything without error, and the follower has the
  primary's tables and sequence number.
\<close>

theorem follower_converges:
  assumes s: "sys_reach wg s" and f: "represents wg osf df" "pubsub_inv pf" "ps_subscribers pf = []"
    and pre: "represents wg os (sys_db s)" "prefix osf os" "Suc (length osf) < 2 ^ 63"
  shows "\<exists>sub p1 s1. s1 = s\<lparr>sys_ps := p1, sys_subs := sys_subs s @ [Notify (LatestSequence sql_ok (df, pf) + 1) sub]\<rparr> \<and>
    sys_step wg s s1 \<and> sub_ch sub \<in> set (ps_subscribers p1) \<and>
    follow_connect (datastore_source ord wg) (datastore_sink depth ords wg) True (LatestSequence sql_ok (df, pf))
      ((sys_db s, sys_ps s), (df, pf)) = (Returns (Inr sub), ((sys_db s, p1), (df, pf))) \<and>
    (\<forall>s2. (sys_step wg)\<^sup>*\<^sup>* s1 s2 \<and> sub_ch sub \<in> set (ps_subscribers (sys_ps s2)) \<longrightarrow>
      (\<exists>s' df' pf'. (deliver_step (length (sys_subs s)))\<^sup>*\<^sup>* s2 s' \<and>
        doFollow (datastore_source ord wg) (datastore_sink depth ords wg)
          (\<lambda>_. map Received (ss_seen (sys_subs s' ! length (sys_subs s)))) ((sys_db s, sys_ps s), (df, pf)) =
          (Blocks, ((sys_db s, p1), (df', pf'))) \<and>
        db_tables df' = db_tables (sys_db s2) \<and> db_sequence df' = db_sequence (sys_db s2)))"
proof -
  let ?dst = "datastore_sink depth ords wg" and ?i = "length (sys_subs s)"
  have q: "snk_LatestSequence ?dst (df, pf) = LatestSequence sql_ok (df, pf)" by (simp add: datastore_sink_def)
  have n: "snk_LatestSequence ?dst (df, pf) = of_nat (length osf)" "length osf \<le> length os"
    using prefix_length_le [OF pre(2)] by (simp_all add: q LatestSequence_represents [OF f(1)])
  obtain sub p1 where sub: "Subscribe sql_ok (Model wg) (LatestSequence sql_ok (df, pf) + 1) (sys_db s, sys_ps s) =
      (Returns (Inr sub), (sys_db s, p1))" "sub_ch sub \<in> set (ps_subscribers p1)"
    and conn: "follow_connect (datastore_source ord wg) ?dst True (LatestSequence sql_ok (df, pf))
      ((sys_db s, sys_ps s), (df, pf)) = (Returns (Inr sub), ((sys_db s, p1), (df, pf)))"
    and start: "unat (LatestSequence sql_ok (df, pf) + 1) = Suc (length osf)"
    by (rule source_connects [OF pre(1) n pre(3), of "sys_ps s" ord, unfolded q])
  let ?s1 = "s\<lparr>sys_ps := p1, sys_subs := sys_subs s @ [Notify (LatestSequence sql_ok (df, pf) + 1) sub]\<rparr>"
  have "\<exists>s' df' pf'. (deliver_step ?i)\<^sup>*\<^sup>* s2 s' \<and>
      doFollow (datastore_source ord wg) ?dst (\<lambda>_. map Received (ss_seen (sys_subs s' ! ?i)))
        ((sys_db s, sys_ps s), (df, pf)) = (Blocks, ((sys_db s, p1), (df', pf'))) \<and>
      db_tables df' = db_tables (sys_db s2) \<and> db_sequence df' = db_sequence (sys_db s2)"
    if s2: "(sys_step wg)\<^sup>*\<^sup>* ?s1 s2" "sub_ch sub \<in> set (ps_subscribers (sys_ps s2))" for s2
  proof -
    obtain s' os2 where s': "(deliver_step ?i)\<^sup>*\<^sup>* s2 s'" "represents wg os2 (sys_db s2)" "prefix os os2"
      "map untimed (ss_seen (sys_subs s' ! ?i)) = drop (length osf) os2"
      by (rule connected_reads [OF s pre(1) sub(1) start s2])
    let ?xs = "ss_seen (sys_subs s' ! ?i)"
    have os2: "os2 = osf @ map untimed ?xs @ []" using s'(3,4) pre(2) by (auto simp: prefix_def)
    obtain df' pf' where "apply_all ?dst ?xs (df, pf) = Some (df', pf')" "represents wg (osf @ map untimed ?xs) df'"
      using apply_all_replicated [OF s'(2) [unfolded os2] f, of depth ords] by blast
    with doFollow_received [OF conn [folded q]] s'(1) represents_same [OF _ s'(2)] os2 show ?thesis by fastforce
  qed
  moreover have "sys_step wg s ?s1" using sys_step.subscribes [OF sub(1)] by simp
  ultimately show ?thesis using sub(2) conn by blast
qed

lemma sample_follow:
  obtains d where "sys_reach sample_wg
      \<lparr>sys_db = d, sys_ps = delivered (WithSequence 1 sample_op) sample_ps, sys_subs = [sample_sub]\<rparr>"
    "represents sample_wg [untimed (WithSequence 1 sample_op)] d"
    "ss_start sample_sub = LatestSequence sql_ok (empty_db, newPubSub) + 1"
proof -
  have "ss_start sample_sub = LatestSequence sql_ok (empty_db, newPubSub) + 1"
    by (simp add: sample_sub_def Notify_def LatestSequence_represents [OF represents_empty])
  with sample_run that show ?thesis by metis
qed

theorem follower_is_prefix_witness:
  "\<exists>s u df' pf' osf' os. sys_reach sample_wg s \<and> u \<in> set (sys_subs s) \<and> represents sample_wg os (sys_db s) \<and>
    follow_loop (datastore_sink 0 (\<lambda>_. []) sample_wg) (map Received (ss_seen u)) (empty_db, newPubSub) =
      (Blocks, (df', pf')) \<and> represents sample_wg osf' df' \<and> prefix osf' os"
proof -
  obtain d where d: "sys_reach sample_wg
      \<lparr>sys_db = d, sys_ps = delivered (WithSequence 1 sample_op) sample_ps, sys_subs = [sample_sub]\<rparr>"
      (is "sys_reach _ ?s")
    "represents sample_wg [untimed (WithSequence 1 sample_op)] d"
    and start: "ss_start sample_sub = LatestSequence sql_ok (empty_db, newPubSub) + 1"
    by (rule sample_follow)
  have u: "sample_sub \<in> set (sys_subs ?s)" "represents sample_wg [untimed (WithSequence 1 sample_op)] (sys_db ?s)"
    "ps_subscribers newPubSub = []"
    using d(2) by (simp_all add: newPubSub_def)
  from follower_is_prefix [OF d(1) u(1) represents_empty pubsub_inv_new u(3) u(2) Nil_prefix start,
      of 0 "\<lambda>_. []"] d(1) u(1,2)
  show ?thesis by (elim exE conjE) (intro exI conjI)
qed

theorem follower_converges_witness:
  "\<exists>s s1 s' df' pf' p1. sys_reach sample_wg s \<and> sys_step sample_wg s s1 \<and> (deliver_step 1)\<^sup>*\<^sup>* s1 s' \<and>
    doFollow (datastore_source [] sample_wg) (datastore_sink 0 (\<lambda>_. []) sample_wg)
      (\<lambda>_. map Received (ss_seen (sys_subs s' ! 1))) ((sys_db s, sys_ps s), (empty_db, newPubSub)) =
      (Blocks, ((sys_db s, p1), (df', pf'))) \<and>
    db_tables df' = db_tables (sys_db s) \<and> db_sequence df' = [1]"
proof -
  obtain d where d: "sys_reach sample_wg
      \<lparr>sys_db = d, sys_ps = delivered (WithSequence 1 sample_op) sample_ps, sys_subs = [sample_sub]\<rparr>"
      (is "sys_reach _ ?s")
    "represents sample_wg [untimed (WithSequence 1 sample_op)] d"
    by (rule sample_follow)
  have u: "ps_subscribers newPubSub = []" "represents sample_wg [untimed (WithSequence 1 sample_op)] (sys_db ?s)"
    "Suc (length []) < 2 ^ 63" "db_sequence d = [1]" "length (sys_subs ?s) = 1"
    using d(2) by (simp_all add: newPubSub_def represents_def)
  from follower_converges [OF d(1) represents_empty pubsub_inv_new u(1,2) Nil_prefix u(3), of "[]" 0 "\<lambda>_. []"]
  obtain sub p1 s1 where s1: "s1 = ?s\<lparr>sys_ps := p1, sys_subs := sys_subs ?s @ [Notify (LatestSequence sql_ok (empty_db, newPubSub) + 1) sub]\<rparr>"
    and step: "sys_step sample_wg ?s s1" and ch: "sub_ch sub \<in> set (ps_subscribers p1)"
    and all: "(sys_step sample_wg)\<^sup>*\<^sup>* s1 s2 \<and> sub_ch sub \<in> set (ps_subscribers (sys_ps s2)) \<longrightarrow>
      (\<exists>s' df' pf'. (deliver_step (length (sys_subs ?s)))\<^sup>*\<^sup>* s2 s' \<and>
        doFollow (datastore_source [] sample_wg) (datastore_sink 0 (\<lambda>_. []) sample_wg)
          (\<lambda>_. map Received (ss_seen (sys_subs s' ! length (sys_subs ?s)))) ((sys_db ?s, sys_ps ?s), (empty_db, newPubSub)) =
          (Blocks, ((sys_db ?s, p1), (df', pf'))) \<and>
        db_tables df' = db_tables (sys_db s2) \<and> db_sequence df' = db_sequence (sys_db s2))" for s2
    by blast
  have "sub_ch sub \<in> set (ps_subscribers (sys_ps s1))" "sys_db s1 = d" using ch by (simp_all add: s1)
  with all [of s1, simplified u(5)] d(1) step u(4) show ?thesis by fastforce
qed

section \<open>Where following fails\<close>

lemma Snapshot_fails:
  assumes "map_order (Model wg) ord"
  shows "\<exists>snap e. Snapshot sql_ok (Model wg) ord s = (snap, Some e)"
proof -
  obtain e where "dispatcher_Each sql_ok (Model wg) ord append_item (db_tables (fst s)) [] = Some (Some e, [])"
    using dispatcher_Each_fails [OF assms, of sql_ok append_item] by blast
  then show ?thesis by (cases s) (simp add: Snapshot_def WithROTransaction_def WithTx_def)
qed

text \<open>
  C30: a sink that is ahead of the datastore it follows cannot recover. The subscription is
  refused, the snapshot that should replace it always fails, and \<^verbatim>\<open>doFollow\<close> ends with that
  error and the sink unchanged.
\<close>

theorem follower_ahead_cannot_recover:
  assumes "map_order (Model wg) ord" "represents wg os d"
    and "length os < unat (snk_LatestSequence dst t)" "Suc (unat (snk_LatestSequence dst t)) < 2 ^ 63"
  shows "\<exists>e. doFollow (datastore_source ord wg) dst events ((d, p), t) =
    (Returns (Some (Wrapped ''Snapshot() error'' e)), ((d, p), t))"
proof -
  let ?q = "snk_LatestSequence dst t"
  have "unat (?q + 1) = Suc (unat ?q)"
    using assms(4) by (simp add: unat_word_ariths)
  then have "Subscribe sql_ok (Model wg) (?q + 1) (d, p) = (Returns (Inl ErrHorizon), (d, p))"
    using Subscribe_represents [OF assms(2), of "?q + 1" p] assms(3,4) by simp
  moreover obtain snap e where "Snapshot sql_ok (Model wg) ord (d, p) = (snap, Some e)"
    using Snapshot_fails [OF assms(1)] by blast
  ultimately show ?thesis
    by (cases snap) (simp_all add: doFollow_def datastore_source_def)
qed

definition ahead_sink :: "Sequence LogSink" where
  "ahead_sink = \<lparr>snk_Apply = (\<lambda>o' _ _. (Returns (Inr ()), op_seq o')), snk_LatestSequence = (\<lambda>q. q),
     snk_LoadSnapshot = (\<lambda>snap _. (Returns (Inr ()), snap_SeqNum snap))\<rparr>"

theorem follower_ahead_cannot_recover_witness:
  "\<exists>e. doFollow (datastore_source [''peer'', ''interface'', ''token''] sample_wg) ahead_sink (\<lambda>_. [])
     ((empty_db, newPubSub), 7) =
   (Returns (Some (Wrapped ''Snapshot() error'' e)), ((empty_db, newPubSub), 7))"
proof (rule follower_ahead_cannot_recover [OF map_order_sample represents_empty])
  show "length [] < unat (snk_LatestSequence ahead_sink 7)"
    and "Suc (unat (snk_LatestSequence ahead_sink 7)) < 2 ^ 63"
    by (simp_all add: ahead_sink_def)
qed

text \<open>
  C31: loading a snapshot into a datastore never completes: emptying the tables overflows the
  stack, whatever its size, and nothing of the snapshot is stored.
\<close>

theorem load_snapshot_crashes:
  assumes "\<And>k. map_order (Model wg) (ords k)" "begin_err env = None"
  shows "LoadSnapshot depth ords env (Model wg) snap (d, p) = (Panics ''stack overflow'', (d, p))"
  using assms(2) dispatcher_DeleteAll_None [of wg ords, OF assms(1)]
  by (simp add: LoadSnapshot_def WithTransaction_def WithTx_def)

theorem load_snapshot_crashes_witness:
  "LoadSnapshot 1000 (\<lambda>_. [''peer'', ''interface'', ''token'']) sql_ok (Model sample_wg)
     \<lparr>snap_SeqNum = 3, snap_Items = [OInterface sample_interface]\<rparr> (empty_db, newPubSub) =
   (Panics ''stack overflow'', (empty_db, newPubSub))"
  by (rule load_snapshot_crashes) (simp_all add: map_order_sample)

end
