(* ===== verification/Transport.thy ===== *)
theory Transport
  imports Follow
begin

text \<open>
  HTTP between the parts of the system: requests and responses, the JSON helpers of
  \<^verbatim>\<open>datastore/crud/httptransport\<close> for servers and clients, and the registry that carries
  the program's error variables over the wire. Bodies are sequences of what was written, a
  JSON document or a piece of text; the query part of a URL is kept as its key-value pairs.
\<close>

section \<open>Messages\<close>

datatype chunk = CText string | CJson json

record http_request =
  rq_method :: string
  rq_url :: string
  rq_query :: "(string, string) gomap"
  rq_basic :: "(string \<times> string) option"
  rq_certs :: "string list option"
  rq_body :: "chunk list"

record http_response =
  rs_status :: nat
  rs_ctype :: string
  rs_body :: "chunk list"

definition ErrBody :: error where
  "ErrBody = ErrMsg ''invalid character looking for beginning of value''"

text \<open>The first JSON value of a body, which may have been written piece by piece as an array.\<close>

fun body_items :: "chunk list \<Rightarrow> json list result" where
  "body_items (CText t # cs) =
     (if t = '']'' then Inr []
      else if t = '','' then
        (case cs of
           CJson j # cs' \<Rightarrow> (case body_items cs' of Inl e \<Rightarrow> Inl e | Inr js \<Rightarrow> Inr (j # js))
         | _ \<Rightarrow> Inl ErrBody)
      else Inl ErrBody)"
| "body_items _ = Inl ErrBody"

fun body_decode :: "chunk list \<Rightarrow> json result" where
  "body_decode [] = Inl (ErrMsg ''EOF'')"
| "body_decode (CJson j # cs) = Inr j"
| "body_decode (CText t # cs) =
     (if t = ''['' then
        (case cs of
           CJson j # cs' \<Rightarrow> (case body_items cs' of Inl e \<Rightarrow> Inl e | Inr js \<Rightarrow> Inr (JArr (j # js)))
         | _ \<Rightarrow> Inl ErrBody)
      else Inl ErrBody)"

section \<open>The response writer\<close>

text \<open>The status is fixed by the first write or \<^verbatim>\<open>WriteHeader\<close>, and the headers with it.\<close>

record rw =
  w_status :: "nat option"
  w_ctype :: string
  w_chunks :: "chunk list"

definition new_rw :: rw where
  "new_rw = \<lparr>w_status = None, w_ctype = [], w_chunks = []\<rparr>"

definition SetContentType :: "string \<Rightarrow> rw \<Rightarrow> rw" where
  "SetContentType t w = (if w_status w = None then w\<lparr>w_ctype := t\<rparr> else w)"

definition WriteHeader :: "nat \<Rightarrow> rw \<Rightarrow> rw" where
  "WriteHeader n w = (if w_status w = None then w\<lparr>w_status := Some n\<rparr> else w)"

definition Write :: "chunk \<Rightarrow> rw \<Rightarrow> rw" where
  "Write c w = (let w' = WriteHeader 200 w in w'\<lparr>w_chunks := w_chunks w' @ [c]\<rparr>)"

definition http_Error :: "string \<Rightarrow> nat \<Rightarrow> rw \<Rightarrow> rw" where
  "http_Error msg code w =
     Write (CText (msg @ [char_of (10 :: nat)]))
       (WriteHeader code (SetContentType ''text/plain; charset=utf-8'' w))"

definition response :: "rw \<Rightarrow> http_response" where
  "response w = \<lparr>rs_status = (case w_status w of None \<Rightarrow> 200 | Some n \<Rightarrow> n), rs_ctype = w_ctype w,
     rs_body = w_chunks w\<rparr>"

lemmas rw_defs = SetContentType_def WriteHeader_def Write_def http_Error_def response_def new_rw_def

type_synonym 's handler = "http_request \<Rightarrow> rw \<Rightarrow> 's \<Rightarrow> unit outcome \<times> (rw \<times> 's)"

section \<open>Errors over the wire\<close>

text \<open>The text of an error.\<close>

fun err_msg :: "error \<Rightarrow> string" where
  "err_msg (ErrMsg m) = m"
| "err_msg (Wrapped m e) = m @ '': '' @ err_msg e"
| "err_msg (Permanent e) = err_msg e"
| "err_msg ErrUnknownType = ''unknown type''"
| "err_msg ErrReadonly = ''read-only''"
| "err_msg ErrInvalidOpType = ''invalid op type in log''"
| "err_msg ErrHorizon = ''sequence out of horizon''"
| "err_msg ErrOutOfSequence = ''out of sequence (log rewind)''"
| "err_msg ErrRollback = []"
| "err_msg (ErrURL m) = m"
| "err_msg (ErrDNS m) = m"
| "err_msg ErrCanceled = ''context canceled''"

type_synonym errorRegistry = "(string \<times> error) list"

definition RegisterError :: "string \<Rightarrow> error \<Rightarrow> errorRegistry \<Rightarrow> errorRegistry" where
  "RegisterError code err reg = reg @ [(code, err)]"

text \<open>The registry once the \<^verbatim>\<open>init\<close> functions of the packages have run.\<close>

definition errorRegistry :: errorRegistry where
  "errorRegistry =
     RegisterError ''out-of-sequence'' ErrOutOfSequence
       (RegisterError ''horizon'' ErrHorizon
         (RegisterError ''readonly'' ErrReadonly
           (RegisterError ''unknown-type'' ErrUnknownType [])))"

record errResponse =
  er_Message :: string
  er_Code :: string

definition errResponse_MarshalJSON :: "errResponse \<Rightarrow> json" where
  "errResponse_MarshalJSON r = JObj [(''message'', JStr (er_Message r)), (''code'', JStr (er_Code r))]"

definition errResponse_set :: "errResponse \<Rightarrow> string \<Rightarrow> json \<Rightarrow> errResponse result" where
  "errResponse_set r k v =
     (if key_eq k ''message'' then put_field (\<lambda>x. r\<lparr>er_Message := x\<rparr>) (dec_string (er_Message r) v)
      else if key_eq k ''code'' then put_field (\<lambda>x. r\<lparr>er_Code := x\<rparr>) (dec_string (er_Code r) v)
      else Inr r)"

definition HTTPError :: "errorRegistry \<Rightarrow> error \<Rightarrow> rw \<Rightarrow> rw" where
  "HTTPError reg err w =
     (let (status, code) =
        (case find (\<lambda>(_, merr). errors_Is err merr) reg of
           Some (code, _) \<Rightarrow> (400, code)
         | None \<Rightarrow> (500, []))
      in Write (CJson (errResponse_MarshalJSON \<lparr>er_Message = err_msg err, er_Code = code\<rparr>))
           (WriteHeader status (SetContentType ''application/json'' w)))"

definition status_err :: "nat \<Rightarrow> error" where
  "status_err n =
     (let err = ErrMsg (''HTTP status code '' @ FormatUint 10 n)
      in if n \<noteq> 429 \<and> n < 500 then Permanent err else err)"

definition UnwrapError :: "errorRegistry \<Rightarrow> http_response \<Rightarrow> error" where
  "UnwrapError reg resp =
     (if rs_status resp = 400 \<and> rs_ctype resp = ''application/json'' then
        (case (case body_decode (rs_body resp) of
                 Inl e \<Rightarrow> Inl e
               | Inr j \<Rightarrow> dec_struct errResponse_set \<lparr>er_Message = [], er_Code = []\<rparr> j) of
           Inl _ \<Rightarrow> ErrMsg ''malformed remote error response''
         | Inr er \<Rightarrow>
             (case find (\<lambda>(code, _). er_Code er = code) reg of
                Some (_, merr) \<Rightarrow> Permanent merr
              | None \<Rightarrow> status_err (rs_status resp)))
      else status_err (rs_status resp))"

section \<open>Serving and requesting JSON\<close>

text \<open>
  \<^verbatim>\<open>ServeJSON\<close>; \<open>dec\<close> decodes the body into the request object (it ignores the body when
  there is none), \<open>f\<close> is the function that does the work.
\<close>

definition ServeJSON :: "errorRegistry \<Rightarrow> (chunk list \<Rightarrow> 'r result) \<Rightarrow>
    ('r \<Rightarrow> 's \<Rightarrow> json option result outcome \<times> 's) \<Rightarrow> 's handler" where
  "ServeJSON reg dec f req w s =
     (case dec (rq_body req) of
        Inl e \<Rightarrow> (Returns (), (http_Error (err_msg e) 400 w, s))
      | Inr r \<Rightarrow>
          (case f r s of
             (Blocks, s') \<Rightarrow> (Blocks, (w, s'))
           | (Panics m, s') \<Rightarrow> (Panics m, (w, s'))
           | (Returns (Inl e), s') \<Rightarrow> (Returns (), (HTTPError reg e w, s'))
           | (Returns (Inr None), s') \<Rightarrow> (Returns (), (WriteHeader 200 w, s'))
           | (Returns (Inr (Some j)), s') \<Rightarrow>
               (Returns (),
                (WriteHeader 200 (Write (CJson j) (SetContentType ''application/json'' w)), s'))))"

text \<open>
  The client's side: the network takes a request to a response, or fails. \<^verbatim>\<open>RoundTrip\<close> adds
  the user name and password.
\<close>

type_synonym 'w network = "http_request \<Rightarrow> 'w \<Rightarrow> http_response result outcome \<times> 'w"

definition RoundTrip :: "string \<Rightarrow> string \<Rightarrow> 'w network \<Rightarrow> 'w network" where
  "RoundTrip username password net req =
     net (if username \<noteq> [] then req\<lparr>rq_basic := Some (username, password)\<rparr> else req)"

definition Do :: "errorRegistry \<Rightarrow> 'w network \<Rightarrow> string \<Rightarrow> string \<Rightarrow> (string, string) gomap \<Rightarrow>
    json option \<Rightarrow> (chunk list \<Rightarrow> 'r result) \<Rightarrow> 'w \<Rightarrow> 'r result outcome \<times> 'w" where
  "Do reg client method uri query reqObj dec w =
     (case client \<lparr>rq_method = method, rq_url = uri, rq_query = query, rq_basic = None, rq_certs = None,
              rq_body = (case reqObj of None \<Rightarrow> [] | Some j \<Rightarrow> [CJson j])\<rparr> w of
        (Blocks, w') \<Rightarrow> (Blocks, w')
      | (Panics m, w') \<Rightarrow> (Panics m, w')
      | (Returns (Inl e), w') \<Rightarrow> (Returns (Inl e), w')
      | (Returns (Inr resp), w') \<Rightarrow>
          if rs_status resp \<noteq> 200 then (Returns (Inl (UnwrapError reg resp)), w')
          else (Returns (dec (rs_body resp)), w'))"

fun JoinURL_loop :: "string \<Rightarrow> string list \<Rightarrow> string" where
  "JoinURL_loop out [] = out"
| "JoinURL_loop out (part # parts) =
     (let out' = (if \<not> strings_HasSuffix out ''/'' then out @ ''/'' else out)
      in JoinURL_loop (out' @ strings_TrimPrefix part ''/'') parts)"

definition JoinURL :: "string list \<Rightarrow> string" where
  "JoinURL parts = JoinURL_loop (hd parts) (tl parts)"

text \<open>A server as a network: it answers what is addressed to its origin.\<close>

definition serve :: "string \<Rightarrow> 's handler \<Rightarrow> 's network" where
  "serve origin h req s =
     (if strings_HasPrefix (rq_url req) origin then
        (case h (req\<lparr>rq_url := drop (length origin) (rq_url req)\<rparr>) new_rw s of
           (Returns _, (w, s')) \<Rightarrow> (Returns (Inr (response w)), s')
         | (Blocks, (w, s')) \<Rightarrow> (Blocks, s')
         | (Panics m, (w, s')) \<Rightarrow> (Returns (Inl (ErrURL ''EOF'')), s'))
      else (Returns (Inl (ErrURL ''no such host'')), s))"

section \<open>What survives the wire\<close>

lemma errResponse_roundtrip:
  "dec_struct errResponse_set r0 (errResponse_MarshalJSON r) = Inr r"
proof -
  have "\<not> key_eq ''code'' ''message''" by (simp add: key_eq_def lower_char_def)
  then show ?thesis
    by (cases r) (simp add: errResponse_MarshalJSON_def errResponse_set_def)
qed

lemma response_HTTPError:
  "response (HTTPError reg err new_rw) =
     (case find (\<lambda>(_, merr). errors_Is err merr) reg of
        Some (code, _) \<Rightarrow>
          \<lparr>rs_status = 400, rs_ctype = ''application/json'',
           rs_body = [CJson (errResponse_MarshalJSON \<lparr>er_Message = err_msg err, er_Code = code\<rparr>)]\<rparr>
      | None \<Rightarrow>
          \<lparr>rs_status = 500, rs_ctype = ''application/json'',
           rs_body = [CJson (errResponse_MarshalJSON \<lparr>er_Message = err_msg err, er_Code = []\<rparr>)]\<rparr>)"
  by (auto simp: HTTPError_def rw_defs split: option.splits prod.splits)

lemma Unwrap_HTTPError:
  assumes "distinct (map fst reg)"
  shows "UnwrapError reg (response (HTTPError reg err new_rw)) =
    (case find (\<lambda>(_, merr). errors_Is err merr) reg of
       Some (_, merr) \<Rightarrow> Permanent merr
     | None \<Rightarrow> ErrMsg ''HTTP status code 500'')"
proof (cases "find (\<lambda>(_, merr). errors_Is err merr) reg")
  case None
  moreover have "FormatUint 10 500 = ''500''" by code_simp
  ultimately show ?thesis
    by (simp add: response_HTTPError UnwrapError_def status_err_def)
next
  case (Some ce)
  obtain code merr where ce: "ce = (code, merr)" by (cases ce)
  with Some have "(code, merr) \<in> set reg" by (metis find_Some_iff nth_mem)
  with assms have "find (\<lambda>(code', _). code = code') reg = Some (code, merr)"
    by (induction reg) (auto simp: image_iff)
  with Some ce show ?thesis
    by (simp add: response_HTTPError UnwrapError_def errResponse_roundtrip)
qed

lemma distinct_errorRegistry: "distinct (map fst errorRegistry)"
  by (simp add: errorRegistry_def RegisterError_def)

text \<open>
  An error variable of the program: it wraps nothing, so a chain of wrapped errors holds at
  most one.
\<close>

fun sentinel :: "error \<Rightarrow> bool" where
  "sentinel (Wrapped _ _) = False"
| "sentinel (Permanent _) = False"
| "sentinel _ = True"

lemma errors_Is_unique: "errors_Is e a \<Longrightarrow> errors_Is e b \<Longrightarrow> sentinel a \<Longrightarrow> sentinel b \<Longrightarrow> a = b"
  by (induction e a rule: errors_Is.induct) (auto split: if_splits)

lemma sentinel_registry: "(c, e) \<in> set errorRegistry \<Longrightarrow> sentinel e \<and> errors_Is e e"
  by (auto simp: errorRegistry_def RegisterError_def)

lemma Unwrap_registered:
  assumes "errors_Is err merr" "merr \<in> snd ` set errorRegistry"
  shows "UnwrapError errorRegistry (response (HTTPError errorRegistry err new_rw)) = Permanent merr"
proof (cases "find (\<lambda>(_, merr). errors_Is err merr) errorRegistry")
  case None
  with assms show ?thesis by (auto simp: find_None_iff)
next
  case (Some ce)
  obtain c e where ce: "ce = (c, e)" by (cases ce)
  with Some have e: "(c, e) \<in> set errorRegistry" "errors_Is err e"
    by (auto simp: find_Some_iff) (metis nth_mem)
  obtain c' where "(c', merr) \<in> set errorRegistry" using assms(2) by auto
  then have "e = merr"
    using errors_Is_unique [OF e(2) assms(1)] sentinel_registry e(1) by blast
  with Some ce show ?thesis by (simp add: Unwrap_HTTPError [OF distinct_errorRegistry])
qed

text \<open>
  C25: the errors of the registry survive HTTP. What a handler reports with
  \<^verbatim>\<open>HTTPError\<close>, however wrapped, the client's \<^verbatim>\<open>UnwrapError\<close> turns back into an error
  for which \<^verbatim>\<open>errors.Is\<close> gives the same answer, for every registered error.
\<close>

theorem errors_survive_http:
  assumes "merr \<in> snd ` set errorRegistry"
  shows "errors_Is (UnwrapError errorRegistry (response (HTTPError errorRegistry err new_rw))) merr =
    errors_Is err merr"
proof (cases "\<exists>e \<in> snd ` set errorRegistry. errors_Is err e")
  case True
  then obtain e where e: "e \<in> snd ` set errorRegistry" "errors_Is err e" by blast
  then have un: "UnwrapError errorRegistry (response (HTTPError errorRegistry err new_rw)) = Permanent e"
    by (intro Unwrap_registered)
  have s: "sentinel e" "sentinel merr" "errors_Is e e" using sentinel_registry assms e(1) by auto
  then have "errors_Is e merr \<longleftrightarrow> e = merr" using errors_Is_unique [of e e merr] by blast
  moreover have "errors_Is err merr \<longleftrightarrow> e = merr"
    using errors_Is_unique [OF e(2) _ s(1,2)] e(2) by blast
  moreover have "Permanent e \<noteq> merr" using s(2) by auto
  ultimately show ?thesis by (simp only: un errors_Is.simps simp_thms)
next
  case False
  then have "find (\<lambda>(_, merr). errors_Is err merr) errorRegistry = None"
    by (auto simp: find_None_iff)
  moreover have "sentinel merr" "merr \<noteq> ErrMsg ''HTTP status code 500''"
    using assms by (auto simp: errorRegistry_def RegisterError_def)
  ultimately show ?thesis
    using False assms by (auto simp: Unwrap_HTTPError [OF distinct_errorRegistry])
qed

theorem errors_survive_http_witness:
  "errors_Is (UnwrapError errorRegistry (response (HTTPError errorRegistry
     (Wrapped ''subscription error'' ErrHorizon) new_rw))) ErrHorizon"
proof -
  have "ErrHorizon \<in> snd ` set errorRegistry" by (simp add: errorRegistry_def RegisterError_def)
  from errors_survive_http [OF this, of "Wrapped ''subscription error'' ErrHorizon"] show ?thesis
    by simp
qed

lemma HasSuffix_slash: "strings_HasSuffix a ''/'' \<longleftrightarrow> a \<noteq> [] \<and> last a = CHR ''/''"
  by (cases a rule: rev_cases) (auto simp: strings_HasSuffix_def strings_HasPrefix_def)

lemma TrimPrefix_slash: "strings_TrimPrefix (CHR ''/'' # b) ''/'' = b"
  "\<not> strings_HasPrefix b ''/'' \<Longrightarrow> strings_TrimPrefix b ''/'' = b"
  by (simp_all add: strings_TrimPrefix_def strings_HasPrefix_def)

text \<open>
  Joining two URL segments puts exactly one slash between them, whether or not the first
  ends with one and the second starts with one.
\<close>

lemma join_url_one_slash:
  assumes "\<not> strings_HasSuffix a ''/''" "\<not> strings_HasPrefix b ''/''"
    and "x \<in> {a, a @ ''/''}" "y \<in> {b, ''/'' @ b}"
  shows "JoinURL [x, y] = a @ ''/'' @ b"
  using assms by (auto simp: JoinURL_def HasSuffix_slash TrimPrefix_slash)

lemma join_url_one_slash_witness:
  "JoinURL [''http://localhost:5005/'', ''/api/v1''] = ''http://localhost:5005/api/v1''"
  using join_url_one_slash [of "''http://localhost:5005''" "''api/v1''"]
  by (simp add: strings_HasSuffix_def strings_HasPrefix_def)

end
