(* ===== verification/Auth.thy ===== *)
theory Auth
  imports Transport
begin

text \<open>
  Authentication and authorisation of the HTTP API (\<^verbatim>\<open>datastore/crud/httpapi\<close>), the access
  rules and the choice of the mechanism in \<^verbatim>\<open>cmd/wig/api.go\<close>, and the routing of requests.
\<close>

section \<open>Credentials\<close>

record Credentials =
  cred_Identity :: string
  cred_Roles :: "string list"

text \<open>
  An authenticator may read the state; nil credentials are \<open>None\<close>. An authoriser that
  dereferences nil credentials panics.
\<close>

type_synonym 's Authn = "http_request \<Rightarrow> 's \<Rightarrow> Credentials option result"
type_synonym Authz = "Credentials option \<Rightarrow> string \<Rightarrow> bool outcome"
type_synonym rules = "(string, string list) gomap"

definition targetsForRole :: "rules \<Rightarrow> string \<Rightarrow> string list" where
  "targetsForRole rules role = (case map_of rules role of None \<Rightarrow> [] | Some ts \<Rightarrow> ts)"

definition permitted :: "rules \<Rightarrow> string list \<Rightarrow> string \<Rightarrow> bool" where
  "permitted rules roles target =
     list_ex (\<lambda>role. list_ex (\<lambda>t. t = target) (targetsForRole rules role)) roles"

definition rbac_HasPermission :: "rules \<Rightarrow> Authz" where
  "rbac_HasPermission rules creds target =
     (case creds of
        None \<Rightarrow> Panics nil_deref
      | Some c \<Rightarrow> Returns (permitted rules (cred_Roles c) target))"

definition NilAuthz :: Authz where
  "NilAuthz creds target = Returns True"

definition NilAuthn :: "'s Authn" where
  "NilAuthn req s = Inr None"

section \<open>Tokens\<close>

definition select_token_sql :: string where
  "select_token_sql = ''SELECT roles, secret FROM tokens WHERE id=?''"

definition query_token :: "sqlenv \<Rightarrow> string \<Rightarrow> tables \<Rightarrow> (string \<times> string) result" where
  "query_token env tokenID tabs =
     run_stmt env select_token_sql
       (case filter (\<lambda>r. col_eq_arg (cell r ''id'') tokenID) (tabs ''tokens'') of
          [] \<Rightarrow> Inl (ErrMsg ''sql: no rows in result set'')
        | r # _ \<Rightarrow>
            (case scan_string (cell r ''roles'') of
               Inl e \<Rightarrow> Inl e
             | Inr roles \<Rightarrow>
                 (case scan_string (cell r ''secret'') of
                    Inl e \<Rightarrow> Inl e
                  | Inr secret \<Rightarrow> Inr (roles, secret))))"

definition bearer_Credentials :: "sqlenv \<Rightarrow> ('s \<Rightarrow> tables) \<Rightarrow> 's Authn" where
  "bearer_Credentials env tabs_of req s =
     (case rq_basic req of
        None \<Rightarrow> Inl (ErrMsg ''missing credentials'')
      | Some (tokenID, tokenSecret) \<Rightarrow>
          (case fst (WithTx env (\<lambda>(tabs, m). (Returns (query_token env tokenID tabs), (tabs, m)))
                       (tabs_of s, ())) of
             Returns (Inr (rolesStr, dbSecret)) \<Rightarrow>
               if tokenSecret \<noteq> dbSecret then Inl (ErrMsg ''bad secret'')
               else Inr (Some \<lparr>cred_Identity = tokenID, cred_Roles = strings_Split CHR '','' rolesStr\<rparr>)
           | Returns (Inl e) \<Rightarrow> Inl e
           | _ \<Rightarrow> Inl (ErrMsg [])))"

section \<open>TLS certificates\<close>

fun tls_specs :: "string list \<Rightarrow> rules \<Rightarrow> rules result" where
  "tls_specs [] m = Inr m"
| "tls_specs (spec # specs) m =
     (case strings_SplitN2 CHR ''='' spec of
        [cn, roles] \<Rightarrow> tls_specs specs (map_put cn (strings_Split CHR '','' roles) m)
      | _ \<Rightarrow> Inl (ErrMsg ''syntax error in mTLS auth spec''))"

definition NewTLSAuthn :: "string \<Rightarrow> rules result" where
  "NewTLSAuthn s = tls_specs (strings_Split CHR '';'' s) []"

fun known_cert :: "rules \<Rightarrow> string list \<Rightarrow> Credentials option" where
  "known_cert rolemap [] = None"
| "known_cert rolemap (cn # cns) =
     (case map_of rolemap cn of
        Some roles \<Rightarrow> Some \<lparr>cred_Identity = cn, cred_Roles = roles\<rparr>
      | None \<Rightarrow> known_cert rolemap cns)"

definition tls_Credentials :: "rules \<Rightarrow> 's Authn" where
  "tls_Credentials rolemap req s =
     (case rq_certs req of
        None \<Rightarrow> Inl (ErrMsg ''no TLS'')
      | Some certs \<Rightarrow>
          (case known_cert rolemap certs of
             Some c \<Rightarrow> Inr (Some c)
           | None \<Rightarrow> Inl (ErrMsg ''no known TLS credentials'')))"

section \<open>The API\<close>

text \<open>
  A multiplexer: of the patterns that match a path the longest wins; a pattern that ends
  with a slash matches everything below it.
\<close>

type_synonym 's ServeMux = "(string \<times> 's handler) list"

record 's API =
  api_mux :: "'s ServeMux"
  api_authn :: "'s Authn"
  api_authz :: Authz

definition API_New :: "'s Authn \<Rightarrow> Authz \<Rightarrow> 's API" where
  "API_New authn authz = \<lparr>api_mux = [], api_authn = authn, api_authz = authz\<rparr>"

definition API_Handle :: "string \<Rightarrow> 's handler \<Rightarrow> 's API \<Rightarrow> 's API" where
  "API_Handle path h a = a\<lparr>api_mux := api_mux a @ [(path, h)]\<rparr>"

definition API_Add :: "('s API \<Rightarrow> 's API) \<Rightarrow> 's API \<Rightarrow> 's API" where
  "API_Add b a = b a"

definition WithAuth :: "'s API \<Rightarrow> string \<Rightarrow> 's handler \<Rightarrow> 's handler" where
  "WithAuth a target h req w s =
     (case api_authn a req s of
        Inl _ \<Rightarrow> (Returns (), (http_Error ''Unauthenticated'' 401 w, s))
      | Inr creds \<Rightarrow>
          (case api_authz a creds target of
             Panics m \<Rightarrow> (Panics m, (w, s))
           | Blocks \<Rightarrow> (Blocks, (w, s))
           | Returns False \<Rightarrow> (Returns (), (http_Error ''Unauthorized'' 403 w, s))
           | Returns True \<Rightarrow> h req w s))"

text \<open>A handler that works on a part of the state of the server.\<close>

definition on_part :: "('s \<Rightarrow> 'p) \<Rightarrow> ('p \<Rightarrow> 's \<Rightarrow> 's) \<Rightarrow> 'p handler \<Rightarrow> 's handler" where
  "on_part get put h req w s = (case h req w (get s) of (r, (w', p)) \<Rightarrow> (r, (w', put p s)))"

definition mux_matches :: "string \<Rightarrow> string \<Rightarrow> bool" where
  "mux_matches path pat = (pat = path \<or> strings_HasSuffix pat ''/'' \<and> strings_HasPrefix path pat)"

fun mux_find :: "string \<Rightarrow> 's ServeMux \<Rightarrow> (string \<times> 's handler) option" where
  "mux_find path [] = None"
| "mux_find path ((pat, h) # m) =
     (case mux_find path m of
        Some (pat', h') \<Rightarrow>
          if mux_matches path pat \<and> length pat' \<le> length pat then Some (pat, h) else Some (pat', h')
      | None \<Rightarrow> if mux_matches path pat then Some (pat, h) else None)"

definition mux_ServeHTTP :: "'s ServeMux \<Rightarrow> 's handler" where
  "mux_ServeHTTP m req w s =
     (case mux_find (rq_url req) m of
        Some (_, h) \<Rightarrow> h req w s
      | None \<Rightarrow> (Returns (), (http_Error ''404 page not found'' 404 w, s)))"

section \<open>The rules of the server\<close>

definition rbacRules :: rules where
  "rbacRules =
     [(''admin'',
       [''write-peer'', ''read-peer'', ''write-interface'', ''read-interface'', ''write-token'',
        ''read-token'', ''write-sessions'', ''read-sessions'', ''read-log'', ''register-peer'']),
      (''follower'', [''read-log'']),
      (''registrar'', [''register-peer''])]"

definition apiCommand_api :: "string \<Rightarrow> string \<Rightarrow> sqlenv \<Rightarrow> ('s \<Rightarrow> tables) \<Rightarrow> 's API result" where
  "apiCommand_api authType authTLSRoleSpec env tabs_of =
     (if authType = ''none'' then Inr (API_New NilAuthn NilAuthz)
      else if authType = ''bearer'' then
        Inr (API_New (bearer_Credentials env tabs_of) (rbac_HasPermission rbacRules))
      else if authType = ''mtls'' \<or> authType = ''tls'' then
        (if authTLSRoleSpec = [] then Inl (ErrMsg ''must specify --tls-roles'')
         else
           (case NewTLSAuthn authTLSRoleSpec of
              Inl e \<Rightarrow> Inl e
            | Inr rolemap \<Rightarrow> Inr (API_New (tls_Credentials rolemap) (rbac_HasPermission rbacRules))))
      else Inl (ErrMsg ''unknown authentication type''))"

section \<open>Who gets in\<close>

text \<open>A request is let through to the handler of a target, or answered without touching the state.\<close>

definition admits :: "'s API \<Rightarrow> string \<Rightarrow> http_request \<Rightarrow> 's \<Rightarrow> bool" where
  "admits a target req s =
     (case api_authn a req s of
        Inl _ \<Rightarrow> False
      | Inr creds \<Rightarrow> api_authz a creds target = Returns True)"

lemma WithAuth_admits: "admits a target req s \<Longrightarrow> WithAuth a target h req w s = h req w s"
  by (auto simp: admits_def WithAuth_def split: sum.splits)

lemma WithAuth_refused:
  "\<not> admits a target req s \<Longrightarrow> WithAuth a target h req w s = (r, (w', s')) \<Longrightarrow> s' = s"
  by (auto simp: admits_def WithAuth_def split: sum.splits outcome.splits bool.splits)

lemma permitted_iff:
  "permitted rules roles target \<longleftrightarrow> (\<exists>role\<in>set roles. target \<in> set (targetsForRole rules role))"
  by (auto simp: permitted_def list_ex_iff)

lemma key_row_unique:
  "table_ok cs k rows \<Longrightarrow> r \<in> set rows \<Longrightarrow> cell r k = SText v \<Longrightarrow>
   filter (\<lambda>r. col_eq_arg (cell r k) v) rows = [r]"
proof (induction rows)
  case (Cons x rows)
  have keys: "\<forall>y\<in>set (x # rows). col_eq_arg (cell y k) v \<longleftrightarrow> cell y k = SText v"
    using Cons.prems(1) by (auto simp: table_ok_def col_eq_arg_SText)
  show ?case
  proof (cases "x = r")
    case True
    then have "\<forall>y\<in>set rows. cell y k \<noteq> SText v"
      using Cons.prems by (force simp: table_ok_def image_iff)
    with True keys Cons.prems(3) show ?thesis by (auto simp: filter_empty_conv)
  next
    case False
    then have r: "r \<in> set rows" using Cons.prems(2) by simp
    then have "cell x k \<noteq> SText v"
      using Cons.prems by (force simp: table_ok_def image_iff)
    with keys Cons.IH [OF _ r Cons.prems(3)] Cons.prems(1) show ?thesis
      by (simp add: table_ok_def)
  qed
qed simp

lemma bearer_known:
  assumes inv: "tables_inv (tabs_of s)" and t: "db_fields (OToken t) \<in> set (tabs_of s ''tokens'')"
    and wf: "obj_wf (OToken t)" and req: "rq_basic req = Some (tok_ID t, secret)"
  shows "bearer_Credentials sql_ok tabs_of req s =
    (if tok_Roles t = [] then Inl ErrScan
     else if secret \<noteq> tok_Secret t then Inl (ErrMsg ''bad secret'')
     else Inr (Some \<lparr>cred_Identity = tok_ID t, cred_Roles = tok_Roles t\<rparr>))"
proof -
  have "filter (\<lambda>r. col_eq_arg (cell r ''id'') (tok_ID t)) (tabs_of s ''tokens'') = [db_fields (OToken t)]"
    using inv t by (intro key_row_unique [where cs = tok_cols]) (simp_all add: tables_inv_def)
  with wf req show ?thesis
    by (auto simp: bearer_Credentials_def query_token_def WithTx_def CommaSepList_Value_def
        strings_Split_Join list_all_iff)
qed

lemma bearer_unknown:
  assumes inv: "tables_inv (tabs_of s)" and req: "rq_basic req = Some (tokenID, secret)"
    and no: "\<not> has_key (tabs_of s ''tokens'') ''id'' tokenID"
  shows "\<exists>e. bearer_Credentials sql_ok tabs_of req s = Inl e"
proof -
  have "filter (\<lambda>r. col_eq_arg (cell r ''id'') tokenID) (tabs_of s ''tokens'') = []"
    using inv no by (auto simp: filter_empty_conv tables_inv_def table_ok_def has_key_def col_eq_arg_SText)
  then show ?thesis
    using req by (simp add: bearer_Credentials_def query_token_def WithTx_def)
qed


definition sample_token :: Token where
  "sample_token = \<lparr>tok_ID = ''gw1'', tok_Secret = ''hunter2'', tok_Roles = [''follower'', ''registrar'']\<rparr>"

definition token_tables :: tables where
  "token_tables = (\<lambda>_. [])(''tokens'' := [db_fields (OToken sample_token)])"

definition sample_request :: http_request where
  "sample_request = \<lparr>rq_method = ''GET'', rq_url = ''/api/v1/log/subscribe'', rq_query = [],
     rq_basic = Some (''gw1'', ''hunter2''), rq_certs = None, rq_body = []\<rparr>"


text \<open>
  Apart from reading the log and registering peers, nothing is granted to anyone
  without the role of administrator.
\<close>

lemma only_admin:
  assumes "rbac_HasPermission rbacRules (Some c) target = Returns True"
    and "target \<noteq> ''read-log''" "target \<noteq> ''register-peer''"
  shows "''admin'' \<in> set (cred_Roles c)"
proof -
  obtain role where role: "role \<in> set (cred_Roles c)" "target \<in> set (targetsForRole rbacRules role)"
    using assms(1) by (auto simp: rbac_HasPermission_def permitted_iff)
  with assms(2,3) have "role = ''admin''"
    by (auto simp: targetsForRole_def rbacRules_def split: option.splits if_splits)
  with role(1) show ?thesis by simp
qed

lemma only_admin_witness:
  "rbac_HasPermission rbacRules (Some \<lparr>cred_Identity = ''root'', cred_Roles = [''admin'']\<rparr>) ''write-token'' =
     Returns True \<and> ''admin'' \<in> set [''admin'']"
  using only_admin [of "\<lparr>cred_Identity = ''root'', cred_Roles = [''admin'']\<rparr>" "''write-token''"]
  by (simp add: rbac_HasPermission_def permitted_iff targetsForRole_def rbacRules_def)

text \<open>The text form of a role map, as the flag takes it.\<close>

definition tls_spec_text :: "(string \<times> string list) list \<Rightarrow> string" where
  "tls_spec_text m = strings_Join (map (\<lambda>(cn, roles). cn @ ''='' @ strings_Join roles '','') m) '';''"

definition plain :: "string \<Rightarrow> bool" where
  "plain x = (CHR '';'' \<notin> set x \<and> CHR ''='' \<notin> set x \<and> CHR '','' \<notin> set x)"

lemma set_strings_Join: "set (strings_Join xs sep) \<subseteq> (\<Union>x\<in>set xs. set x) \<union> set sep"
  by (induction xs sep rule: strings_Join.induct) auto

lemma tls_specs_text:
  assumes "list_all (\<lambda>(cn, roles). plain cn \<and> roles \<noteq> [] \<and> list_all plain roles) m"
  shows "tls_specs (map (\<lambda>(cn, roles). cn @ ''='' @ strings_Join roles '','') m) m0 =
    Inr (fold (\<lambda>(cn, roles). map_put cn roles) m m0)"
  using assms
proof (induction m arbitrary: m0)
  case (Cons e m)
  obtain cn roles where e: "e = (cn, roles)" by (cases e)
  have "strings_Split CHR '','' (strings_Join roles '','') = roles"
    using Cons.prems e by (intro strings_Split_Join) (auto simp: plain_def list_all_iff)
  moreover have "strings_SplitN2 CHR ''='' (cn @ CHR ''='' # strings_Join roles '','') =
      [cn, strings_Join roles '','']"
    using Cons.prems e by (intro strings_SplitN2_append) (auto simp: plain_def)
  ultimately show ?case using Cons by (simp add: e)
qed simp

lemma map_of_fold_map_put:
  "distinct (map fst m) \<Longrightarrow>
   map_of (fold (\<lambda>(k, v). map_put k v) m m0) k = (case map_of m k of None \<Rightarrow> map_of m0 k | Some v \<Rightarrow> Some v)"
  by (induction m arbitrary: m0) (auto split: option.splits simp: map_of_eq_None_iff, force+)

text \<open>
  The role map of the TLS authentication is read back from its text form: every
  certificate name gets the roles that were written for it, and no other name gets any.
\<close>

lemma tls_roles_roundtrip:
  assumes "m \<noteq> []" "distinct (map fst m)"
    and "list_all (\<lambda>(cn, roles). plain cn \<and> roles \<noteq> [] \<and> list_all plain roles) m"
  shows "\<exists>rolemap. NewTLSAuthn (tls_spec_text m) = Inr rolemap \<and> map_of rolemap = map_of m"
proof -
  let ?specs = "map (\<lambda>(cn, roles). cn @ ''='' @ strings_Join roles '','') m"
  have "\<forall>x\<in>set ?specs. CHR '';'' \<notin> set x"
    using assms(3) set_strings_Join by (fastforce simp: list_all_iff plain_def)
  then have "strings_Split CHR '';'' (tls_spec_text m) = ?specs"
    unfolding tls_spec_text_def using assms(1) by (intro strings_Split_Join) auto
  then have "NewTLSAuthn (tls_spec_text m) = Inr (fold (\<lambda>(cn, roles). map_put cn roles) m [])"
    using tls_specs_text [OF assms(3)] by (simp add: NewTLSAuthn_def)
  moreover have "map_of (fold (\<lambda>(cn, roles). map_put cn roles) m []) = map_of m"
    using map_of_fold_map_put [OF assms(2), of "[]"] by (auto simp: fun_eq_iff split: option.splits)
  ultimately show ?thesis by blast
qed

lemma tls_roles_roundtrip_witness:
  "\<exists>rolemap. NewTLSAuthn (tls_spec_text [(''gw1'', [''follower'']), (''ops'', [''admin'', ''registrar''])]) =
     Inr rolemap \<and> map_of rolemap = map_of [(''gw1'', [''follower'']), (''ops'', [''admin'', ''registrar''])]"
  by (rule tls_roles_roundtrip) (simp_all add: plain_def)

end
