(* ===== verification/Remote_Crud.thy ===== *)
theory Remote_Crud
  imports Auth
begin

text \<open>
  The CRUD operations over HTTP: the handlers of a type (\<^verbatim>\<open>datastore/crud/remote.go\<close>), the
  client (\<^verbatim>\<open>datastore/crud/client.go\<close>), and the API that the server puts behind them.
\<close>

section \<open>The CRUD interface\<close>

text \<open>
  \<^verbatim>\<open>crud.API\<close>: writes change the state \<open>'s\<close>; \<^verbatim>\<open>Find\<close> calls back with a memory \<open>'m\<close> of
  its caller.
\<close>

record ('s, 'm) crud_API =
  ca_Create :: "obj \<Rightarrow> 's \<Rightarrow> unit result outcome \<times> 's"
  ca_Update :: "obj \<Rightarrow> 's \<Rightarrow> unit result outcome \<times> 's"
  ca_Delete :: "obj \<Rightarrow> 's \<Rightarrow> unit result outcome \<times> 's"
  ca_Find :: "string \<Rightarrow> (string, string) gomap \<Rightarrow> (obj \<Rightarrow> 'm \<Rightarrow> error option \<times> 'm) \<Rightarrow> 's \<times> 'm \<Rightarrow>
    unit result outcome \<times> ('s \<times> 'm)"

text \<open>
  \<^verbatim>\<open>Combine\<close> for the datastore: reads go to the database, writes to the log, or nowhere on
  a follower. \<open>now\<close> is the clock.
\<close>

definition sql_Find :: "sqlenv \<Rightarrow> wgkeys \<Rightarrow> string \<Rightarrow> (string, string) gomap \<Rightarrow>
    (obj \<Rightarrow> 'm \<Rightarrow> error option \<times> 'm) \<Rightarrow> (db \<times> pubsub) \<times> 'm \<Rightarrow>
    unit result outcome \<times> ((db \<times> pubsub) \<times> 'm)" where
  "sql_Find env wg typ query f = (\<lambda>((d, p), m).
     case SQLReader_Find env (Model wg) typ query f (db_tables d, m) of
       (r, (tabs, m')) \<Rightarrow> (r, ((d\<lparr>db_tables := tabs\<rparr>, p), m')))"

definition ro_write :: "(obj \<Rightarrow> 's \<Rightarrow> error option \<times> 's) \<Rightarrow> obj \<Rightarrow> 's \<Rightarrow> unit result outcome \<times> 's" where
  "ro_write f ob s = (case f ob s of (Some e, s') \<Rightarrow> (Returns (Inl e), s') | (None, s') \<Rightarrow> (Returns (Inr ()), s'))"

definition datastore_API :: "sqlenv \<Rightarrow> wgkeys \<Rightarrow> gotime \<Rightarrow> string \<Rightarrow> (db \<times> pubsub, 'm) crud_API" where
  "datastore_API env wg now logURL =
     (if logURL \<noteq> [] then
        \<lparr>ca_Create = ro_write roWriter_Create, ca_Update = ro_write roWriter_Update,
         ca_Delete = ro_write roWriter_Delete, ca_Find = sql_Find env wg\<rparr>
      else
        \<lparr>ca_Create = writer_Create env (Model wg) now, ca_Update = writer_Update env (Model wg) now,
         ca_Delete = writer_Delete env (Model wg) now, ca_Find = sql_Find env wg\<rparr>)"

section \<open>The handlers of a type\<close>

definition dec_instance :: "sqlTableAdapter \<Rightarrow> chunk list \<Rightarrow> obj result" where
  "dec_instance t b = (case body_decode b of Inl e \<Rightarrow> Inl e | Inr j \<Rightarrow> obj_UnmarshalJSON (ad_newFn t) j)"

definition no_content :: "unit result outcome \<times> 's \<Rightarrow> json option result outcome \<times> 's" where
  "no_content r =
     (case r of
        (Returns (Inl e), s) \<Rightarrow> (Returns (Inl e), s)
      | (Returns (Inr _), s) \<Rightarrow> (Returns (Inr None), s)
      | (Blocks, s) \<Rightarrow> (Blocks, s)
      | (Panics m, s) \<Rightarrow> (Panics m, s))"

definition handleCreate :: "sqlTableAdapter \<Rightarrow> ('s, rw \<times> nat) crud_API \<Rightarrow> 's handler" where
  "handleCreate t api =
     ServeJSON errorRegistry (dec_instance t) (\<lambda>ob s. no_content (ca_Create api ob s))"

definition handleUpdate :: "sqlTableAdapter \<Rightarrow> ('s, rw \<times> nat) crud_API \<Rightarrow> 's handler" where
  "handleUpdate t api =
     ServeJSON errorRegistry (dec_instance t) (\<lambda>ob s. no_content (ca_Update api ob s))"

definition handleDelete :: "sqlTableAdapter \<Rightarrow> ('s, rw \<times> nat) crud_API \<Rightarrow> 's handler" where
  "handleDelete t api =
     ServeJSON errorRegistry (dec_instance t) (\<lambda>ob s. no_content (ca_Delete api ob s))"

text \<open>\<^verbatim>\<open>handleFind\<close> writes the array while it reads the database.\<close>

definition find_write :: "obj \<Rightarrow> rw \<times> nat \<Rightarrow> error option \<times> (rw \<times> nat)" where
  "find_write ob = (\<lambda>(w, i).
     (None, (Write (CJson (obj_MarshalJSON ob)) (Write (CText (if i = 0 then ''['' else '','')) w), i + 1)))"

definition handleFind :: "sqlTableAdapter \<Rightarrow> ('s, rw \<times> nat) crud_API \<Rightarrow> 's handler" where
  "handleFind t api req w s =
     (case ca_Find api (ad_typename t) (rq_query req) find_write
             (s, (SetContentType ''application/json'' w, 0)) of
        (Returns (Inl e), (s', (w', _))) \<Rightarrow>
          (Returns (), (Write (CText '']'') (http_Error (err_msg e) 500 w'), s'))
      | (Returns (Inr _), (s', (w', _))) \<Rightarrow> (Returns (), (Write (CText '']'') w', s'))
      | (Blocks, (s', (w', _))) \<Rightarrow> (Blocks, (w', s'))
      | (Panics m, (s', (w', _))) \<Rightarrow> (Panics m, (w', s')))"

definition newTypeHTTPHandler :: "sqlTableAdapter \<Rightarrow> ('s, rw \<times> nat) crud_API \<Rightarrow> string \<Rightarrow> 's API \<Rightarrow>
    's handler" where
  "newTypeHTTPHandler t api urlPrefix hapi =
     mux_ServeHTTP
       (map (\<lambda>(verb, rbacTarget, h). (JoinURL [urlPrefix, verb], WithAuth hapi rbacTarget h))
         [(''create'', ''write-'' @ ad_typename t, handleCreate t api),
          (''update'', ''write-'' @ ad_typename t, handleUpdate t api),
          (''delete'', ''write-'' @ ad_typename t, handleDelete t api),
          (''find'', ''read-'' @ ad_typename t, handleFind t api)])"

definition Model_API :: "registry \<Rightarrow> string list \<Rightarrow> ('s, rw \<times> nat) crud_API \<Rightarrow> string \<Rightarrow> 's API \<Rightarrow> 's API" where
  "Model_API r ord api urlPrefix hapi =
     (case registry_each r
        (\<lambda>t a. let pfx = JoinURL [urlPrefix, ad_typename t] @ ''/''
               in Some (None, API_Handle pfx (newTypeHTTPHandler t api pfx hapi) a)) ord hapi of
        Some (_, a) \<Rightarrow> a
      | None \<Rightarrow> hapi)"

section \<open>The client\<close>

definition verbURL :: "string \<Rightarrow> sqlTableAdapter \<Rightarrow> string \<Rightarrow> string" where
  "verbURL uri t verb = JoinURL [uri, ad_typename t, verb]"

definition requestWithObj :: "'w network \<Rightarrow> string \<Rightarrow> sqlTableAdapter \<Rightarrow> string \<Rightarrow> string \<Rightarrow> obj \<Rightarrow> 'w \<Rightarrow>
    unit result outcome \<times> 'w" where
  "requestWithObj client uri t method verb ob =
     Do errorRegistry client method (verbURL uri t verb) [] (Some (obj_MarshalJSON ob)) (\<lambda>_. Inr ())"

definition typeClient_Create :: "'w network \<Rightarrow> string \<Rightarrow> sqlTableAdapter \<Rightarrow> obj \<Rightarrow> 'w \<Rightarrow>
    unit result outcome \<times> 'w" where
  "typeClient_Create client uri t ob = requestWithObj client uri t ''POST'' ''create'' ob"

definition typeClient_Update :: "'w network \<Rightarrow> string \<Rightarrow> sqlTableAdapter \<Rightarrow> obj \<Rightarrow> 'w \<Rightarrow>
    unit result outcome \<times> 'w" where
  "typeClient_Update client uri t ob = requestWithObj client uri t ''POST'' ''update'' ob"

definition typeClient_Delete :: "'w network \<Rightarrow> string \<Rightarrow> sqlTableAdapter \<Rightarrow> obj \<Rightarrow> 'w \<Rightarrow>
    unit result outcome \<times> 'w" where
  "typeClient_Delete client uri t ob = requestWithObj client uri t ''POST'' ''delete'' ob"

text \<open>
  \<^verbatim>\<open>Find\<close> decodes the response into a \<^verbatim>\<open>reflect.Value\<close>, a struct without exported fields:
  an array is an error, an object or null changes nothing, and then the assertion that the
  slice of model objects is a slice of interfaces panics.
\<close>

definition dec_reflect :: "chunk list \<Rightarrow> unit result" where
  "dec_reflect b =
     (case body_decode b of
        Inl e \<Rightarrow> Inl e
      | Inr j \<Rightarrow> dec_struct (\<lambda>u _ _. Inr u) () j)"

definition typeClient_Find :: "'w network \<Rightarrow> string \<Rightarrow> sqlTableAdapter \<Rightarrow> (string, string) gomap \<Rightarrow>
    'w \<Rightarrow> unit result outcome \<times> 'w" where
  "typeClient_Find client uri t query w =
     (case Do errorRegistry client ''GET'' (verbURL uri t ''find'') query None dec_reflect w of
        (Returns (Inr _), w') \<Rightarrow> (Panics ''interface conversion'', w')
      | r \<Rightarrow> r)"

definition Model_Client :: "registry \<Rightarrow> string list \<Rightarrow> string \<Rightarrow> (string, string \<times> sqlTableAdapter) gomap" where
  "Model_Client r ord uri =
     (case registry_each r (\<lambda>t cs. Some (None, map_put (ad_typename t) (uri, t) cs)) ord [] of
        Some (_, cs) \<Rightarrow> cs
      | None \<Rightarrow> [])"

section \<open>Routing\<close>

lemma mux_find_None: "mux_find path m = None \<longleftrightarrow> (\<forall>e\<in>set m. \<not> mux_matches path (fst e))"
  by (induction m) (auto split: option.splits if_splits)

lemma mux_find_mem: "mux_find path m = Some e \<Longrightarrow> e \<in> set m \<and> mux_matches path (fst e)"
  by (induction m) (auto split: option.splits if_splits prod.splits)

lemma mux_find_unique:
  assumes "e \<in> set m" "mux_matches path (fst e)"
    and "\<forall>e'\<in>set m. mux_matches path (fst e') \<longrightarrow> e' = e"
  shows "mux_find path m = Some e"
proof (cases "mux_find path m")
  case None
  with assms(1,2) show ?thesis by (simp add: mux_find_None)
next
  case (Some e')
  with mux_find_mem [OF this] assms(3) show ?thesis by simp
qed

lemma registry_each_handle:
  assumes "set ord \<subseteq> fst ` set (byName r)"
  shows "registry_each r (\<lambda>t a. Some (None, API_Handle (f t) (g t) a)) ord a =
    Some (None, a\<lparr>api_mux := api_mux a @ map (\<lambda>n. let t = the (map_of (byName r) n) in (f t, g t)) ord\<rparr>)"
  using assms
proof (induction ord arbitrary: a)
  case (Cons n ord)
  then have "map_of (byName r) n \<noteq> None" by (auto simp: map_of_eq_None_iff)
  then obtain t where "map_of (byName r) n = Some t" by blast
  with Cons show ?case by (simp add: API_Handle_def Let_def)
qed simp

definition adapter_of :: "wgkeys \<Rightarrow> obj \<Rightarrow> sqlTableAdapter" where
  "adapter_of wg ob = the (getType (Model wg) ob)"

lemma adapter_of_simps:
  assumes "storable ob"
  shows "ad_typename (adapter_of wg ob) = type_name ob" "ad_newFn (adapter_of wg ob) = obj_type ob"
    "map_of (byName (Model wg)) (type_name ob) = Some (adapter_of wg ob)"
    "type_name ob \<in> {''peer'', ''interface'', ''token''}"
  using assms by (cases ob; simp add: adapter_of_def byName_Model)+

lemma join_prefix:
  "n \<in> {''peer'', ''interface'', ''token''} \<Longrightarrow> JoinURL [''/api/v1'', n] @ ''/'' = ''/api/v1/'' @ n @ ''/''"
  by (auto simp: JoinURL_def strings_HasSuffix_def strings_HasPrefix_def strings_TrimPrefix_def)

lemma Model_API_mux:
  assumes "map_order (Model wg) ord"
  shows "api_mux (Model_API (Model wg) ord api ''/api/v1'' hapi) =
    api_mux hapi @ map (\<lambda>n. (''/api/v1/'' @ n @ ''/'',
      newTypeHTTPHandler (the (map_of (byName (Model wg)) n)) api (''/api/v1/'' @ n @ ''/'') hapi)) ord"
proof -
  have ord: "set ord = {''peer'', ''interface'', ''token''}"
    using assms by (simp add: map_order_def byName_Model_keys)
  have nm: "ad_typename (the (map_of (byName (Model wg)) n)) = n" if "n \<in> set ord" for n
    using that ord by (auto simp: byName_Model)
  have "map (\<lambda>n. let t = the (map_of (byName (Model wg)) n); p = JoinURL [''/api/v1'', ad_typename t] @ ''/''
        in (p, newTypeHTTPHandler t api p hapi)) ord =
    map (\<lambda>n. (''/api/v1/'' @ n @ ''/'',
      newTypeHTTPHandler (the (map_of (byName (Model wg)) n)) api (''/api/v1/'' @ n @ ''/'') hapi)) ord"
    using ord join_prefix by (intro map_cong) (simp_all add: Let_def nm)
  then show ?thesis
    using registry_each_handle [of ord "Model wg" "\<lambda>t. JoinURL [''/api/v1'', ad_typename t] @ ''/''"
        "\<lambda>t. newTypeHTTPHandler t api (JoinURL [''/api/v1'', ad_typename t] @ ''/'') hapi" hapi] ord
    by (simp add: Model_API_def Let_def byName_Model_keys)
qed

lemma segment_prefix:
  assumes "CHR ''/'' \<notin> set n" "CHR ''/'' \<notin> set m"
  shows "take (Suc (length n)) (m @ CHR ''/'' # v) = n @ ''/'' \<longleftrightarrow> n = m"
  using assms
proof (induction n arbitrary: m)
  case Nil
  then show ?case by (cases m) auto
next
  case (Cons c n)
  then show ?case by (cases m) auto
qed

lemma mux_matches_segment:
  assumes "CHR ''/'' \<notin> set n" "CHR ''/'' \<notin> set m" "v \<noteq> []"
  shows "mux_matches (pfx @ m @ ''/'' @ v) (pfx @ n @ ''/'') \<longleftrightarrow> n = m"
proof -
  have "pfx @ n @ ''/'' \<noteq> pfx @ m @ ''/'' @ v"
  proof
    assume "pfx @ n @ ''/'' = pfx @ m @ ''/'' @ v"
    then have eq: "m @ CHR ''/'' # v = n @ ''/''" by simp
    then have "take (Suc (length n)) (m @ CHR ''/'' # v) = n @ ''/''" by simp
    with assms segment_prefix have "n = m" by metis
    with eq assms(3) show False by simp
  qed
  moreover have "strings_HasSuffix (pfx @ n @ ''/'') ''/''"
    by (simp add: strings_HasSuffix_def strings_HasPrefix_def)
  moreover have "strings_HasPrefix (pfx @ m @ ''/'' @ v) (pfx @ n @ ''/'') \<longleftrightarrow> n = m"
    using segment_prefix [OF assms(1,2), of v] by (simp add: strings_HasPrefix_def)
  ultimately show ?thesis by (auto simp: mux_matches_def)
qed

lemma type_no_slash: "n \<in> {''peer'', ''interface'', ''token''} \<Longrightarrow> CHR ''/'' \<notin> set n"
  by (elim insertE emptyE) simp_all

definition verbs :: "string set" where
  "verbs = {''create'', ''update'', ''delete'', ''find''}"

lemma route_type:
  assumes "map_order (Model wg) ord" "api_mux hapi = []" "storable ob" "verb \<in> verbs"
  shows "mux_find (''/api/v1/'' @ type_name ob @ ''/'' @ verb)
      (api_mux (Model_API (Model wg) ord api ''/api/v1'' hapi)) =
    Some (''/api/v1/'' @ type_name ob @ ''/'',
      newTypeHTTPHandler (adapter_of wg ob) api (''/api/v1/'' @ type_name ob @ ''/'') hapi)"
proof -
  have ord: "set ord = {''peer'', ''interface'', ''token''}"
    using assms(1) by (simp add: map_order_def byName_Model_keys)
  have one: "mux_matches (''/api/v1/'' @ type_name ob @ ''/'' @ verb) (''/api/v1/'' @ n @ ''/'') \<longleftrightarrow> n = type_name ob"
    if "n \<in> set ord" for n
  proof (rule mux_matches_segment)
    show "CHR ''/'' \<notin> set n" using that unfolding ord by (rule type_no_slash)
    show "CHR ''/'' \<notin> set (type_name ob)" using adapter_of_simps(4) [OF assms(3)] by (rule type_no_slash)
    show "verb \<noteq> []" using assms(4) unfolding verbs_def by (elim insertE emptyE) simp_all
  qed
  let ?e = "\<lambda>n. (''/api/v1/'' @ n @ ''/'',
      newTypeHTTPHandler (the (map_of (byName (Model wg)) n)) api (''/api/v1/'' @ n @ ''/'') hapi)"
  have mem: "type_name ob \<in> set ord" unfolding ord by (rule adapter_of_simps(4) [OF assms(3)])
  have "mux_find (''/api/v1/'' @ type_name ob @ ''/'' @ verb) (map ?e ord) = Some (?e (type_name ob))"
  proof (rule mux_find_unique)
    show "?e (type_name ob) \<in> set (map ?e ord)" using mem by (simp only: set_map) (rule imageI)
    show "mux_matches (''/api/v1/'' @ type_name ob @ ''/'' @ verb) (fst (?e (type_name ob)))"
      using one [OF mem] by (simp only: fst_conv)
    show "\<forall>e'\<in>set (map ?e ord). mux_matches (''/api/v1/'' @ type_name ob @ ''/'' @ verb) (fst e') \<longrightarrow>
        e' = ?e (type_name ob)"
      using one by (simp only: set_map ball_simps fst_conv) blast
  qed
  then show ?thesis
    unfolding Model_API_mux [OF assms(1)] assms(2) adapter_of_simps(3) [OF assms(3)]
    by (simp only: append_Nil option.sel)
qed

lemma join_verb: "v \<in> verbs \<Longrightarrow> JoinURL [p @ ''/'', v] = p @ ''/'' @ v"
  unfolding verbs_def
  by (elim insertE emptyE)
    (simp_all add: JoinURL_def HasSuffix_slash strings_HasPrefix_def strings_TrimPrefix_def)

lemma verb_matches:
  assumes "v \<in> verbs"
  shows "mux_matches path (p @ ''/'' @ v) \<longleftrightarrow> path = p @ ''/'' @ v"
proof -
  have "\<not> strings_HasSuffix (p @ ''/'' @ v) ''/''"
    using assms unfolding verbs_def by (elim insertE emptyE) (simp_all add: HasSuffix_slash)
  then show ?thesis by (auto simp: mux_matches_def)
qed

lemma verbs_mem [simp]: "''create'' \<in> verbs" "''update'' \<in> verbs" "''delete'' \<in> verbs" "''find'' \<in> verbs"
  by (simp_all add: verbs_def)

text \<open>Each verb of a type reaches its handler, behind the check for its target.\<close>

lemma newTypeHTTPHandler_verbs:
  "rq_url req = p @ ''/'' @ ''create'' \<Longrightarrow> newTypeHTTPHandler t api (p @ ''/'') hapi req w s =
     WithAuth hapi (''write-'' @ ad_typename t) (handleCreate t api) req w s"
  "rq_url req = p @ ''/'' @ ''update'' \<Longrightarrow> newTypeHTTPHandler t api (p @ ''/'') hapi req w s =
     WithAuth hapi (''write-'' @ ad_typename t) (handleUpdate t api) req w s"
  "rq_url req = p @ ''/'' @ ''delete'' \<Longrightarrow> newTypeHTTPHandler t api (p @ ''/'') hapi req w s =
     WithAuth hapi (''write-'' @ ad_typename t) (handleDelete t api) req w s"
  "rq_url req = p @ ''/'' @ ''find'' \<Longrightarrow> newTypeHTTPHandler t api (p @ ''/'') hapi req w s =
     WithAuth hapi (''read-'' @ ad_typename t) (handleFind t api) req w s"
  unfolding newTypeHTTPHandler_def mux_ServeHTTP_def
  by (simp_all only: list.map prod.case join_verb verbs_mem mux_find.simps verb_matches)
    simp_all

section \<open>Writing through the API is writing\<close>

text \<open>What a client sees of the outcome of a write.\<close>

fun over_http :: "unit result outcome \<times> 's \<Rightarrow> unit result outcome \<times> 's" where
  "over_http (Returns (Inr u), s) = (Returns (Inr ()), s)"
| "over_http (Returns (Inl e), s) =
     (Returns (Inl (UnwrapError errorRegistry (response (HTTPError errorRegistry e new_rw)))), s)"
| "over_http (Blocks, s) = (Blocks, s)"
| "over_http (Panics m, s) = (Returns (Inl (ErrURL ''EOF'')), s)"

lemma response_WriteHeader: "rs_status (response (WriteHeader 200 new_rw)) = 200"
  by (simp add: rw_defs)

lemma status_HTTPError: "rs_status (response (HTTPError reg e new_rw)) \<noteq> 200"
  by (auto simp: response_HTTPError split: option.splits prod.splits)

lemma dec_instance_Marshal:
  "obj_wf ob \<Longrightarrow> ad_newFn t = obj_type ob \<Longrightarrow> dec_instance t [CJson (obj_MarshalJSON ob)] = Inr ob"
  by (simp add: dec_instance_def obj_Unmarshal_Marshal)

text \<open>The server of the tests below: the CRUD API alone, behind a check of the credentials.\<close>

definition crud_server :: "wgkeys \<Rightarrow> string list \<Rightarrow> ('s, rw \<times> nat) crud_API \<Rightarrow> 's Authn \<Rightarrow> Authz \<Rightarrow> 's handler" where
  "crud_server wg ord api authn authz =
     mux_ServeHTTP (api_mux (Model_API (Model wg) ord api ''/api/v1'' (API_New authn authz)))"

lemma crud_server_route:
  assumes "map_order (Model wg) ord" "storable ob" "verb \<in> verbs"
    and "rq_url req = ''/api/v1/'' @ type_name ob @ ''/'' @ verb"
  shows "crud_server wg ord api authn authz req w s =
    newTypeHTTPHandler (adapter_of wg ob) api ((''/api/v1/'' @ type_name ob) @ ''/'') (API_New authn authz) req w s"
  using route_type [OF assms(1) _ assms(2,3), of "API_New authn authz" api] assms(4)
  by (simp add: crud_server_def mux_ServeHTTP_def API_New_def)

lemma verbURL_split:
  assumes "storable ob" "verb \<in> verbs"
  shows "verbURL (origin @ ''/api/v1'') (adapter_of wg ob) verb =
    origin @ ''/api/v1/'' @ type_name ob @ ''/'' @ verb"
proof -
  have v: "\<not> strings_HasPrefix verb ''/''"
    using assms(2) unfolding verbs_def by (elim insertE emptyE) (simp_all add: strings_HasPrefix_def)
  have n: "\<not> strings_HasPrefix (type_name ob) ''/''" "\<not> strings_HasSuffix (x @ type_name ob) ''/''" for x
    using assms(1) by (cases ob; simp add: strings_HasPrefix_def HasSuffix_slash)+
  have s: "\<not> strings_HasSuffix (origin @ ''/api/v1'') ''/''" by (simp add: HasSuffix_slash)
  have "JoinURL [origin @ ''/api/v1'', type_name ob, verb] =
      ((origin @ ''/api/v1'') @ ''/'') @ type_name ob @ ''/'' @ verb"
    using n(2) [of "(origin @ ''/api/v1'') @ ''/''"]
    by (simp only: JoinURL_def list.sel JoinURL_loop.simps Let_def s n(1) v TrimPrefix_slash(2)
        simp_thms if_True append_assoc)
  then show ?thesis by (simp add: verbURL_def adapter_of_simps [OF assms(1)])
qed

lemma HasPrefix_append [simp]: "strings_HasPrefix (a @ b) a"
  by (simp add: strings_HasPrefix_def)

lemma request_over_http:
  assumes wf: "obj_wf ob" and ord: "map_order (Model wg) ord" and verb: "verb \<in> verbs" and user: "user \<noteq> []"
    and h: "\<And>req. rq_url req = (''/api/v1/'' @ type_name ob) @ ''/'' @ verb \<Longrightarrow>
      rq_basic req = Some (user, pw) \<Longrightarrow> rq_body req = [CJson (obj_MarshalJSON ob)] \<Longrightarrow>
      newTypeHTTPHandler (adapter_of wg ob) api ((''/api/v1/'' @ type_name ob) @ ''/'') (API_New authn authz)
        req new_rw s =
      ServeJSON errorRegistry (dec_instance (adapter_of wg ob)) (\<lambda>ob s. no_content (f ob s)) req new_rw s"
  shows "requestWithObj (RoundTrip user pw (serve origin (crud_server wg ord api authn authz)))
      (origin @ ''/api/v1'') (adapter_of wg ob) method verb ob s = over_http (f ob s)"
proof -
  have st: "storable ob" using wf by (rule obj_wf_storable)
  let ?rq = "\<lparr>rq_method = method, rq_url = ''/api/v1/'' @ type_name ob @ ''/'' @ verb, rq_query = [],
     rq_basic = Some (user, pw), rq_certs = None, rq_body = [CJson (obj_MarshalJSON ob)]\<rparr>"
  have run: "crud_server wg ord api authn authz ?rq new_rw s =
      ServeJSON errorRegistry (dec_instance (adapter_of wg ob)) (\<lambda>ob s. no_content (f ob s)) ?rq new_rw s"
  proof -
    have url: "rq_url ?rq = ''/api/v1/'' @ type_name ob @ ''/'' @ verb" by simp
    show ?thesis
      unfolding crud_server_route [OF ord st verb url] by (rule h) simp_all
  qed
  obtain r s' where f: "f ob s = (r, s')" by (cases "f ob s")
  have "RoundTrip user pw (serve origin (crud_server wg ord api authn authz))
      \<lparr>rq_method = method, rq_url = origin @ ''/api/v1/'' @ type_name ob @ ''/'' @ verb, rq_query = [],
       rq_basic = None, rq_certs = None, rq_body = [CJson (obj_MarshalJSON ob)]\<rparr> s =
    (case ServeJSON errorRegistry (dec_instance (adapter_of wg ob)) (\<lambda>ob s. no_content (f ob s)) ?rq new_rw s of
       (Returns _, (w, s')) \<Rightarrow> (Returns (Inr (response w)), s')
     | (Blocks, (w, s')) \<Rightarrow> (Blocks, s')
     | (Panics m, (w, s')) \<Rightarrow> (Returns (Inl (ErrURL ''EOF'')), s'))"
    using user run by (simp add: RoundTrip_def serve_def)
  then show ?thesis
    using dec_instance_Marshal [OF wf adapter_of_simps(2) [OF st]] f
    by (cases r)
      (auto simp: requestWithObj_def Do_def verbURL_split [OF st verb] ServeJSON_def no_content_def
        response_WriteHeader status_HTTPError split: sum.splits)
qed

lemma writes_over_http:
  assumes "obj_wf ob" "map_order (Model wg) ord" "user \<noteq> []"
    and "\<And>req. rq_basic req = Some (user, pw) \<Longrightarrow>
      admits (API_New authn authz) (''write-'' @ type_name ob) req s"
    and client: "client = RoundTrip user pw (serve origin (crud_server wg ord api authn authz))"
    and uri: "uri = origin @ ''/api/v1''"
  shows "typeClient_Create client uri (adapter_of wg ob) ob s = over_http (ca_Create api ob s) \<and>
    typeClient_Update client uri (adapter_of wg ob) ob s = over_http (ca_Update api ob s) \<and>
    typeClient_Delete client uri (adapter_of wg ob) ob s = over_http (ca_Delete api ob s)"
proof -
  have st: "storable ob" using assms(1) by (rule obj_wf_storable)
  note route = newTypeHTTPHandler_verbs [of _ "''/api/v1/'' @ type_name ob" "adapter_of wg ob"]
  have adm: "WithAuth (API_New authn authz) (''write-'' @ ad_typename (adapter_of wg ob)) h req w s = h req w s"
    if "rq_basic req = Some (user, pw)" for h req w
    using assms(4) [OF that] by (simp add: WithAuth_admits adapter_of_simps [OF st])
  show ?thesis
    unfolding client uri typeClient_Create_def typeClient_Update_def typeClient_Delete_def
    by (intro conjI; rule request_over_http [OF assms(1,2) _ assms(3)])
      (simp_all only: verbs_mem route adm handleCreate_def handleUpdate_def handleDelete_def)
qed

text \<open>
  C12: a write through the client is a write at the server. For a well-formed object and a
  user who may write its type, creating, updating and deleting over HTTP has exactly the
  effect of the server's own operation on the same object, and its error, if any, arrives as
  \<^verbatim>\<open>HTTPError\<close> and \<^verbatim>\<open>UnwrapError\<close> carry it.
\<close>

theorem remote_writes_equal_local:
  assumes "obj_wf ob" "map_order (Model wg) ord" "user \<noteq> []"
    and "\<And>req. rq_basic req = Some (user, pw) \<Longrightarrow>
      admits (API_New authn authz) (''write-'' @ type_name ob) req s"
    and client: "client = RoundTrip user pw (serve origin (crud_server wg ord api authn authz))"
    and uri: "uri = origin @ ''/api/v1''"
  shows "typeClient_Create client uri (adapter_of wg ob) ob s = over_http (ca_Create api ob s) \<and>
    typeClient_Update client uri (adapter_of wg ob) ob s = over_http (ca_Update api ob s) \<and>
    typeClient_Delete client uri (adapter_of wg ob) ob s = over_http (ca_Delete api ob s)"
  using assms by (rule writes_over_http)

theorem remote_writes_equal_local_witness:
  "\<exists>d. typeClient_Create
      (RoundTrip ''root'' ''pw'' (serve ''http://localhost:5005''
        (crud_server sample_wg [''peer'', ''interface'', ''token'']
          (datastore_API sql_ok sample_wg 5 []) NilAuthn NilAuthz)))
      ''http://localhost:5005/api/v1'' (adapter_of sample_wg (OInterface sample_interface))
      (OInterface sample_interface) (empty_db, newPubSub) =
    (Returns (Inr ()), (d, delivered (WithSequence 1 sample_op) newPubSub)) \<and> db_tables d = sample_tables"
proof -
  obtain d where d: "Apply sql_ok (Model sample_wg) sample_op False (empty_db, newPubSub) =
     (Returns (Inr ()), (d, delivered (WithSequence 1 sample_op) newPubSub))" "db_tables d = sample_tables"
    by (rule Apply_sample)
  then have "ca_Create (datastore_API sql_ok sample_wg 5 [] :: (db \<times> pubsub, rw \<times> nat) crud_API) (OInterface sample_interface) (empty_db, newPubSub) =
      (Returns (Inr ()), (d, delivered (WithSequence 1 sample_op) newPubSub))"
    by (simp add: datastore_API_def writer_Create_def sample_op_def)
  then show ?thesis
    using remote_writes_equal_local [OF obj_wf_sample map_order_sample, where user = "''root''" and
        authn = NilAuthn and authz = NilAuthz and origin = "''http://localhost:5005''" and wg = sample_wg and
        api = "datastore_API sql_ok sample_wg 5 []" and pw = "''pw''" and s = "(empty_db, newPubSub)"] d(2)
    by (simp add: admits_def API_New_def NilAuthn_def NilAuthz_def)
qed

section \<open>Finding through the API\<close>

lemma SQLReader_Find_stored:
  assumes inv: "tables_inv tabs" and wf: "obj_wf ob" and mem: "db_fields ob \<in> set (tabs (table_of ob))"
  shows "SQLReader_Find sql_ok (Model wg) (type_name ob) [(key_col ob, key_of ob)] f (tabs, m) =
    (case f ob m of
       (Some e, m') \<Rightarrow> (Returns (Inl e), (tabs, m'))
     | (None, m') \<Rightarrow> (Returns (Inr ()), (tabs, m')))"
proof -
  have st: "storable ob" using wf by (rule obj_wf_storable)
  have "filter (\<lambda>r. col_eq_arg (cell r (key_col ob)) (key_of ob)) (tabs (table_of ob)) = [db_fields ob]"
    using table_ok_shape [OF inv st] mem st by (intro key_row_unique) simp_all
  then show ?thesis
    using StructScan_db_fields [OF wf] by (auto simp: Find_by_key [OF st] split: prod.splits option.splits)
qed

lemma handleFind_stored:
  assumes "tables_inv (db_tables d)" "obj_wf ob" "db_fields ob \<in> set (db_tables d (table_of ob))"
    and "rq_query req = [(key_col ob, key_of ob)]"
  shows "\<exists>w. handleFind (adapter_of wg ob) (datastore_API sql_ok wg now logURL) req new_rw (d, p) =
      (Returns (), (w, (d, p))) \<and> rs_status (response w) = 200 \<and>
    rs_body (response w) = [CText ''['', CJson (obj_MarshalJSON ob), CText '']'']"
  using assms
  by (simp add: handleFind_def datastore_API_def sql_Find_def SQLReader_Find_stored find_write_def
      adapter_of_simps obj_wf_storable rw_defs Let_def)

text \<open>
  C32: the server answers a search by primary key for a stored object with the array of just
  that object. The client's \<^verbatim>\<open>Find\<close> fails all the same: it cannot decode the array.
\<close>

theorem find_over_http:
  assumes "obj_wf ob" "map_order (Model wg) ord" "user \<noteq> []"
    and "tables_inv (db_tables d)" "db_fields ob \<in> set (db_tables d (table_of ob))"
    and adm: "\<And>req. rq_basic req = Some (user, pw) \<Longrightarrow>
      admits (API_New authn authz) (''read-'' @ type_name ob) req (d, p)"
    and client: "client = RoundTrip user pw (serve origin
      (crud_server wg ord (datastore_API sql_ok wg now logURL) authn authz))"
    and uri: "uri = origin @ ''/api/v1''"
  shows "Do errorRegistry client ''GET'' (verbURL uri (adapter_of wg ob) ''find'') [(key_col ob, key_of ob)]
      None body_decode (d, p) = (Returns (Inr (JArr [obj_MarshalJSON ob])), (d, p)) \<and>
    typeClient_Find client uri (adapter_of wg ob) [(key_col ob, key_of ob)] (d, p) =
      (Returns (Inl ErrUnmarshal), (d, p))"
proof -
  have st: "storable ob" using assms(1) by (rule obj_wf_storable)
  let ?rq = "\<lparr>rq_method = ''GET'', rq_url = ''/api/v1/'' @ type_name ob @ ''/'' @ ''find'',
     rq_query = [(key_col ob, key_of ob)], rq_basic = Some (user, pw), rq_certs = None, rq_body = []\<rparr>"
  have url: "rq_url ?rq = ''/api/v1/'' @ type_name ob @ ''/'' @ ''find''"
    and url': "rq_url ?rq = (''/api/v1/'' @ type_name ob) @ ''/'' @ ''find''" by simp_all
  have run: "crud_server wg ord (datastore_API sql_ok wg now logURL) authn authz ?rq new_rw (d, p) =
      handleFind (adapter_of wg ob) (datastore_API sql_ok wg now logURL) ?rq new_rw (d, p)"
    unfolding crud_server_route [OF assms(2) st verbs_mem(4) url] newTypeHTTPHandler_verbs(4) [OF url']
      adapter_of_simps(1) [OF st]
    by (rule WithAuth_admits, rule adm) simp
  obtain w where w: "handleFind (adapter_of wg ob) (datastore_API sql_ok wg now logURL) ?rq new_rw (d, p) =
      (Returns (), (w, (d, p)))" "rs_status (response w) = 200"
    "rs_body (response w) = [CText ''['', CJson (obj_MarshalJSON ob), CText '']'']"
    using handleFind_stored [OF assms(4,1,5), of ?rq wg now logURL p] by auto
  have "client \<lparr>rq_method = ''GET'', rq_url = origin @ ''/api/v1/'' @ type_name ob @ ''/'' @ ''find'',
      rq_query = [(key_col ob, key_of ob)], rq_basic = None, rq_certs = None, rq_body = []\<rparr> (d, p) =
    (Returns (Inr (response w)), (d, p))"
    using assms(3) run w(1) by (simp add: client RoundTrip_def serve_def)
  then show ?thesis
    by (simp add: typeClient_Find_def Do_def uri verbURL_split [OF st] w(2,3) dec_reflect_def)
qed

theorem find_over_http_witness:
  "\<exists>d p. typeClient_Find
      (RoundTrip ''root'' ''pw'' (serve ''http://localhost:5005''
        (crud_server sample_wg [''peer'', ''interface'', ''token'']
          (datastore_API sql_ok sample_wg 5 []) NilAuthn NilAuthz)))
      ''http://localhost:5005/api/v1'' (adapter_of sample_wg (OInterface sample_interface))
      [(''name'', ''wg0'')] (d, p) = (Returns (Inl ErrUnmarshal), (d, p)) \<and>
    db_tables d = sample_tables"
proof -
  obtain d :: db where d: "db_tables d = sample_tables" using Apply_sample by metis
  have inv: "tables_inv (db_tables d)"
    unfolding d by (rule Create_inv [OF Create_sample [of sample_wg] tables_inv_empty])
  have mem: "db_fields (OInterface sample_interface) \<in> set (db_tables d (table_of (OInterface sample_interface)))"
    by (simp add: d sample_tables_def)
  have key: "[(key_col (OInterface sample_interface), key_of (OInterface sample_interface))] = [(''name'', ''wg0'')]"
    by (simp add: sample_interface_def Interface_zero_def)
  have "typeClient_Find
      (RoundTrip ''root'' ''pw'' (serve ''http://localhost:5005''
        (crud_server sample_wg [''peer'', ''interface'', ''token'']
          (datastore_API sql_ok sample_wg 5 []) NilAuthn NilAuthz)))
      (''http://localhost:5005'' @ ''/api/v1'') (adapter_of sample_wg (OInterface sample_interface))
      [(''name'', ''wg0'')] (d, newPubSub) = (Returns (Inl ErrUnmarshal), (d, newPubSub))"
    unfolding key [symmetric]
    by (rule find_over_http [THEN conjunct2, OF obj_wf_sample map_order_sample _ inv mem _ refl refl])
      (simp_all add: admits_def API_New_def NilAuthn_def NilAuthz_def)
  with d show ?thesis by (intro exI conjI) simp_all
qed

end
