(* ===== verification/Remote_Log.thy ===== *)
theory Remote_Log
  imports Remote_Crud
begin

text \<open>
  The log over HTTP (\<^verbatim>\<open>datastore/crudlog/remote.go\<close>): the handlers for snapshots and
  subscriptions, the client that is a \<^verbatim>\<open>LogSource\<close>, and its retry policy, with
  \<^verbatim>\<open>backoff.Retry\<close> of the vendored library.
\<close>

section \<open>Snapshots as JSON\<close>

definition memSnapshot_MarshalJSON :: "memSnapshot \<Rightarrow> json" where
  "memSnapshot_MarshalJSON snap =
     JObj [(''seq'', JInt (uint (snap_SeqNum snap))), (''items'', JArr (map obj_MarshalJSON (snap_Items snap)))]"

text \<open>The items are of an interface type, so they are decoded as plain JSON values.\<close>

fun dec_items :: "obj list \<Rightarrow> json \<Rightarrow> obj list result" where
  "dec_items cur (JArr js) = Inr (map OJson js)"
| "dec_items cur JNull = Inr []"
| "dec_items cur _ = Inl ErrUnmarshal"

definition memSnapshot_set :: "memSnapshot \<Rightarrow> string \<Rightarrow> json \<Rightarrow> memSnapshot result" where
  "memSnapshot_set s k v =
     (if key_eq k ''seq'' then put_field (\<lambda>x. s\<lparr>snap_SeqNum := x\<rparr>) (dec_uint64 (snap_SeqNum s) v)
      else if key_eq k ''items'' then put_field (\<lambda>x. s\<lparr>snap_Items := x\<rparr>) (dec_items (snap_Items s) v)
      else Inr s)"

definition dec_snapshot :: "chunk list \<Rightarrow> memSnapshot result" where
  "dec_snapshot b =
     (case body_decode b of
        Inl e \<Rightarrow> Inl e
      | Inr j \<Rightarrow> dec_struct memSnapshot_set \<lparr>snap_SeqNum = 0, snap_Items = []\<rparr> j)"

section \<open>The server\<close>

definition apiURLSnapshot :: string where
  "apiURLSnapshot = ''/api/v1/log/snapshot''"

definition apiURLSubscribe :: string where
  "apiURLSubscribe = ''/api/v1/log/subscribe''"

text \<open>A nil snapshot makes the type assertion panic.\<close>

definition handleSnapshot :: "('s, 'sub) LogSource \<Rightarrow> 's handler" where
  "handleSnapshot src req w s =
     (case src_Snapshot src s of
        (Blocks, s') \<Rightarrow> (Blocks, (w, s'))
      | (Panics m, s') \<Rightarrow> (Panics m, (w, s'))
      | (Returns (_, Some err), s') \<Rightarrow> (Returns (), (HTTPError errorRegistry err w, s'))
      | (Returns (None, None), s') \<Rightarrow> (Panics ''interface conversion'', (w, s'))
      | (Returns (Some snap, None), s') \<Rightarrow>
          (Returns (),
           (Write (CJson (memSnapshot_MarshalJSON snap)) (SetContentType ''application/json'' w), s')))"

text \<open>
  What \<^verbatim>\<open>handleSubscribe\<close> writes for the operations it receives: each as a JSON document and
  an empty line, until one cannot be encoded.
\<close>

definition newline :: string where
  "newline = [char_of (10 :: nat)]"

fun subscribe_stream :: "registry \<Rightarrow> op list \<Rightarrow> chunk list" where
  "subscribe_stream enc [] = []"
| "subscribe_stream enc (o' # os) =
     (case op_MarshalJSON enc o' of
        Inl e \<Rightarrow> []
      | Inr j \<Rightarrow> CJson j # CText newline # subscribe_stream enc os)"

text \<open>\<open>ops\<close> gives the operations a subscription delivers while the connection is up.\<close>

definition handleSubscribe :: "('s, 'sub) LogSource \<Rightarrow> registry \<Rightarrow> ('sub \<Rightarrow> op list) \<Rightarrow> 's handler" where
  "handleSubscribe src enc ops req w s =
     (case ParseSequence (case map_of (rq_query req) ''start'' of None \<Rightarrow> [] | Some v \<Rightarrow> v) of
        Inl _ \<Rightarrow> (Returns (), (http_Error ''Bad start parameter'' 400 w, s))
      | Inr start \<Rightarrow>
          (case src_Subscribe src start s of
             (Blocks, s') \<Rightarrow> (Blocks, (w, s'))
           | (Panics m, s') \<Rightarrow> (Panics m, (w, s'))
           | (Returns (Inl err), s') \<Rightarrow> (Returns (), (HTTPError errorRegistry err w, s'))
           | (Returns (Inr sub), s') \<Rightarrow>
               (Returns (),
                (fold Write (subscribe_stream enc (ops sub)) (SetContentType ''application/json'' w), s'))))"

definition LogSource_BuildAPI :: "('s, 'sub) LogSource \<Rightarrow> registry \<Rightarrow> ('sub \<Rightarrow> op list) \<Rightarrow> 's API \<Rightarrow> 's API" where
  "LogSource_BuildAPI src enc ops api =
     API_Handle apiURLSubscribe (WithAuth api ''read-log'' (handleSubscribe src enc ops))
       (API_Handle apiURLSnapshot (WithAuth api ''read-log'' (handleSnapshot src)) api)"

section \<open>Retrying\<close>

text \<open>
  \<^verbatim>\<open>errors.Is\<close> with a pointer that was just made: nothing in the chain can be it, and none of
  the error types here defines the comparison otherwise.
\<close>

fun errors_Is_fresh :: "error \<Rightarrow> bool" where
  "errors_Is_fresh (Wrapped m e) = errors_Is_fresh e"
| "errors_Is_fresh (Permanent e) = errors_Is_fresh e"
| "errors_Is_fresh _ = False"

definition maybeTempError :: "error option \<Rightarrow> error option" where
  "maybeTempError err =
     (case err of
        None \<Rightarrow> None
      | Some e \<Rightarrow>
          if errors_Is_fresh e \<comment> \<open>\<^verbatim>\<open>&url.Error{}\<close>\<close> then Some e
          else if errors_Is_fresh e \<comment> \<open>\<^verbatim>\<open>&net.DNSError{}\<close>\<close> then Some e
          else Some (Permanent e))"

text \<open>\<^verbatim>\<open>errors.As\<close> for a \<^verbatim>\<open>PermanentError\<close>, with what it holds.\<close>

fun as_Permanent :: "error \<Rightarrow> error option" where
  "as_Permanent (Permanent e) = Some e"
| "as_Permanent (Wrapped m e) = as_Permanent e"
| "as_Permanent _ = None"

text \<open>
  \<^verbatim>\<open>backoff.Retry\<close> with a policy that never gives up: it ends with a success, with a
  permanent error, or when the context, read by \<open>ctx\<close>, is done.
\<close>

partial_function (option) Retry :: "('w \<Rightarrow> error option) \<Rightarrow> ('w \<Rightarrow> ('a \<times> error option) \<times> 'w) \<Rightarrow> 'w \<Rightarrow>
    (('a \<times> error option) \<times> 'w) option" where
  "Retry ctx operation w =
     (case operation w of
        ((a, None), w') \<Rightarrow> Some ((a, None), w')
      | ((a, Some e), w') \<Rightarrow>
          (case as_Permanent e of
             Some e' \<Rightarrow> Some ((a, Some e'), w')
           | None \<Rightarrow>
               (case ctx w' of
                  Some cerr \<Rightarrow> Some ((a, Some cerr), w')
                | None \<Rightarrow> Retry ctx operation w')))"

section \<open>The client\<close>

definition doSnapshot :: "'w network \<Rightarrow> string \<Rightarrow> 'w \<Rightarrow> memSnapshot result outcome \<times> 'w" where
  "doSnapshot client uri =
     Do errorRegistry client ''GET'' (JoinURL [uri, apiURLSnapshot]) [] None dec_snapshot"

definition doSubscribe :: "'w network \<Rightarrow> string \<Rightarrow> Sequence \<Rightarrow> 'w \<Rightarrow> chunk list result outcome \<times> 'w" where
  "doSubscribe client uri start w =
     (case client \<lparr>rq_method = ''GET'', rq_url = JoinURL [uri, apiURLSubscribe],
            rq_query = [(''start'', Sequence_String start)], rq_basic = None, rq_certs = None, rq_body = []\<rparr> w of
        (Blocks, w') \<Rightarrow> (Blocks, w')
      | (Panics m, w') \<Rightarrow> (Panics m, w')
      | (Returns (Inl e), w') \<Rightarrow> (Returns (Inl e), w')
      | (Returns (Inr resp), w') \<Rightarrow>
          if rs_status resp \<noteq> 200 then (Returns (Inl (UnwrapError errorRegistry resp)), w')
          else (Returns (Inr (rs_body resp)), w'))"

text \<open>One attempt, as the operation handed to \<^verbatim>\<open>Retry\<close>; a call that does not return is kept.\<close>

definition attempt :: "('w \<Rightarrow> 'a result outcome \<times> 'w) \<Rightarrow> 'w \<Rightarrow> ('a outcome option \<times> error option) \<times> 'w" where
  "attempt f w =
     (case f w of
        (Returns (Inr a), w') \<Rightarrow> ((Some (Returns a), maybeTempError None), w')
      | (Returns (Inl e), w') \<Rightarrow> ((None, maybeTempError (Some e)), w')
      | (Blocks, w') \<Rightarrow> ((Some Blocks, None), w')
      | (Panics m, w') \<Rightarrow> ((Some (Panics m), None), w'))"

definition retried :: "('w \<Rightarrow> error option) \<Rightarrow> ('w \<Rightarrow> 'a result outcome \<times> 'w) \<Rightarrow> 'w \<Rightarrow>
    'a result outcome \<times> 'w" where
  "retried ctx f w =
     (case Retry ctx (attempt f) w of
        Some ((_, Some e), w') \<Rightarrow> (Returns (Inl e), w')
      | Some ((Some (Returns a), None), w') \<Rightarrow> (Returns (Inr a), w')
      | Some ((Some (Panics m), None), w') \<Rightarrow> (Panics m, w')
      | Some ((Some Blocks, None), w') \<Rightarrow> (Blocks, w')
      | Some ((None, None), w') \<Rightarrow> (Blocks, w')
      | None \<Rightarrow> (Blocks, w))"

definition remote_Snapshot :: "('w \<Rightarrow> error option) \<Rightarrow> 'w network \<Rightarrow> string \<Rightarrow> 'w \<Rightarrow>
    (memSnapshot option \<times> error option) outcome \<times> 'w" where
  "remote_Snapshot ctx client uri w =
     (case retried ctx (doSnapshot client uri) w of
        (Returns (Inr snap), w') \<Rightarrow> (Returns (Some snap, None), w')
      | (Returns (Inl e), w') \<Rightarrow> (Returns (None, Some e), w')
      | (Blocks, w') \<Rightarrow> (Blocks, w')
      | (Panics m, w') \<Rightarrow> (Panics m, w'))"

definition remote_Subscribe :: "('w \<Rightarrow> error option) \<Rightarrow> 'w network \<Rightarrow> string \<Rightarrow> Sequence \<Rightarrow> 'w \<Rightarrow>
    chunk list result outcome \<times> 'w" where
  "remote_Subscribe ctx client uri start = retried ctx (doSubscribe client uri start)"

definition NewRemoteLogSource :: "('w \<Rightarrow> error option) \<Rightarrow> 'w network \<Rightarrow> string \<Rightarrow> ('w, chunk list) LogSource" where
  "NewRemoteLogSource ctx client uri =
     \<lparr>src_Subscribe = remote_Subscribe ctx client uri, src_Snapshot = remote_Snapshot ctx client uri\<rparr>"

text \<open>
  The receiving goroutine: empty lines are skipped, and the first line that is not an
  operation ends the subscription.
\<close>

fun remote_loop :: "registry \<Rightarrow> chunk list \<Rightarrow> op list" where
  "remote_loop enc [] = []"
| "remote_loop enc (CText t # cs) = (if t = newline then remote_loop enc cs else [])"
| "remote_loop enc (CJson j # cs) =
     (case op_UnmarshalJSON enc j of Inl e \<Rightarrow> [] | Inr o' \<Rightarrow> o' # remote_loop enc cs)"

text \<open>\<^verbatim>\<open>Notify\<close>: the operations, and the closed channel when the connection ends.\<close>

definition remote_Notify :: "registry \<Rightarrow> chunk list \<Rightarrow> follow_event list" where
  "remote_Notify enc body = map Received (remote_loop enc body) @ [ChanClosed]"

section \<open>One attempt only\<close>

lemma not_errors_Is_fresh [simp]: "\<not> errors_Is_fresh e"
  by (induction e) auto

lemma maybeTempError_Permanent [simp]:
  "maybeTempError None = None" "maybeTempError (Some e) = Some (Permanent e)"
  by (simp_all add: maybeTempError_def)

lemma retried_once: "retried ctx f w = f w"
proof -
  obtain r w' where f: "f w = (r, w')" by (cases "f w")
  show ?thesis
  proof (cases r)
    case (Returns x)
    with f show ?thesis
      by (cases x) (simp_all add: retried_def attempt_def Retry.simps [of ctx "attempt f" w])
  qed (simp_all add: f retried_def attempt_def Retry.simps [of ctx "attempt f" w])
qed

lemma remote_client_once: "remote_Subscribe ctx client uri start w = doSubscribe client uri start w"
  by (simp add: remote_Subscribe_def retried_once)

text \<open>
  The client makes exactly one attempt. Every error, those of the network included, is
  made permanent before the retry policy sees it, so that asking for a subscription or a
  snapshot with retries is the same as asking once.
\<close>

lemma remote_client_never_retries:
  "remote_Subscribe ctx client uri start w = doSubscribe client uri start w \<and>
   remote_Snapshot ctx client uri w =
     (case doSnapshot client uri w of
        (Returns (Inr snap), w') \<Rightarrow> (Returns (Some snap, None), w')
      | (Returns (Inl e), w') \<Rightarrow> (Returns (None, Some e), w')
      | (Blocks, w') \<Rightarrow> (Blocks, w')
      | (Panics m, w') \<Rightarrow> (Panics m, w'))"
  by (simp add: remote_Subscribe_def remote_Snapshot_def retried_once)

section \<open>Operations over the wire\<close>

definition sendable :: "op \<Rightarrow> bool" where
  "sendable o' = (obj_wf (op_value o') \<and> int_ok (op_typ o'))"

lemma op_wire:
  assumes "sendable o'"
  obtains j where "op_MarshalJSON (Model wg) o' = Inr j" "op_UnmarshalJSON (Model wg) j = Inr (untimed o')"
proof -
  have wf: "obj_wf (op_value o')" and ty: "int_ok (op_typ o')" using assms by (simp_all add: sendable_def)
  obtain s where s: "op_serialize (Model wg) o' = Inr s"
    using storable_serializes obj_wf_storable [OF wf] by blast
  with ty have "int_ok (ops_Type s)" by (simp add: op_serialize_success)
  with s decode_serialize [OF wf s] show ?thesis
    by (intro that [of "opSerialized_MarshalJSON s"])
      (simp_all add: op_MarshalJSON_def op_UnmarshalJSON_def opSerialized_Unmarshal_Marshal)
qed

lemma stream_roundtrip:
  "list_all sendable os \<Longrightarrow> remote_loop (Model wg) (subscribe_stream (Model wg) os) = map untimed os"
proof (induction os)
  case (Cons o' os)
  then have "sendable o'" by simp
  then obtain j where "op_MarshalJSON (Model wg) o' = Inr j" "op_UnmarshalJSON (Model wg) j = Inr (untimed o')"
    by (rule op_wire)
  with Cons show ?case by simp
qed simp

lemma fold_Write:
  "w_status w = Some 200 \<Longrightarrow> fold Write cs w = w\<lparr>w_chunks := w_chunks w @ cs\<rparr>"
  by (induction cs arbitrary: w) (auto simp: Write_def WriteHeader_def)

lemma response_fold_Write:
  "rs_status (response (fold Write cs (SetContentType t new_rw))) = 200 \<and>
   rs_body (response (fold Write cs (SetContentType t new_rw))) = cs"
  by (cases cs) (simp_all add: fold_Write Write_def WriteHeader_def SetContentType_def new_rw_def response_def)

text \<open>The server with just the log on it.\<close>

definition log_server :: "('s, 'sub) LogSource \<Rightarrow> registry \<Rightarrow> ('sub \<Rightarrow> op list) \<Rightarrow> 's Authn \<Rightarrow> Authz \<Rightarrow> 's handler" where
  "log_server src enc ops authn authz =
     mux_ServeHTTP (api_mux (LogSource_BuildAPI src enc ops (API_New authn authz)))"

lemma log_server_subscribe:
  assumes "rq_url req = apiURLSubscribe" "admits (API_New authn authz) ''read-log'' req s"
  shows "log_server src enc ops authn authz req w s = handleSubscribe src enc ops req w s"
proof -
  have "mux_find apiURLSubscribe (api_mux (LogSource_BuildAPI src enc ops (API_New authn authz))) =
      Some (apiURLSubscribe, WithAuth (API_New authn authz) ''read-log'' (handleSubscribe src enc ops))"
    by (simp add: LogSource_BuildAPI_def API_Handle_def API_New_def mux_matches_def apiURLSubscribe_def
        apiURLSnapshot_def strings_HasSuffix_def strings_HasPrefix_def)
  with assms show ?thesis
    by (simp add: log_server_def mux_ServeHTTP_def WithAuth_admits)
qed

lemma join_log_url:
  assumes "\<not> strings_HasSuffix origin ''/''"
  shows "JoinURL [origin, apiURLSubscribe] = origin @ apiURLSubscribe"
  using assms by (simp add: JoinURL_def apiURLSubscribe_def TrimPrefix_slash)


lemma sendable_represents:
  assumes "represents wg os d"
  shows "list_all sendable os"
proof -
  have "replay (Model wg) os tabs = Inr tabs' \<Longrightarrow> list_all (\<lambda>o'. int_ok (op_typ o')) os" for tabs tabs' os
    by (induction os arbitrary: tabs)
      (auto simp: ApplyOp_def int_ok_def OpType_defs split: sum.splits if_splits)
  with assms show ?thesis by (auto simp: represents_def sendable_def list_all_iff)
qed

lemma sendable_untimed [simp]: "sendable (untimed o') = sendable o'"
  by (simp add: sendable_def)


section \<open>Replication over the network\<close>



section \<open>Snapshots lose their types\<close>

lemma dec_snapshot_Marshal:
  "dec_snapshot [CJson (memSnapshot_MarshalJSON snap)] =
     Inr \<lparr>snap_SeqNum = snap_SeqNum snap, snap_Items = map (OJson \<circ> obj_MarshalJSON) (snap_Items snap)\<rparr>"
proof -
  have "\<not> key_eq ''items'' ''seq''" by (simp add: key_eq_def lower_char_def)
  then show ?thesis
    by (simp add: dec_snapshot_def memSnapshot_MarshalJSON_def memSnapshot_set_def del: dec_uint64.simps)
qed

text \<open>
  C33: a snapshot that comes over the network cannot be loaded. Its objects arrive as plain
  JSON values, which belong to no registered type, so the first of them already fails.
\<close>

theorem remote_snapshot_not_loadable:
  assumes "snap_Items snap = ob # obs"
  shows "\<exists>snap'. dec_snapshot [CJson (memSnapshot_MarshalJSON snap)] = Inr snap' \<and>
    snap_SeqNum snap' = snap_SeqNum snap \<and>
    memSnapshot_Each (create_into env (Model wg)) (snap_Items snap') tabs = (Some ErrUnknownType, tabs)"
  using assms by (simp add: dec_snapshot_Marshal create_into_def dispatcher_Create_def)

theorem remote_snapshot_not_loadable_witness:
  "\<exists>snap'. dec_snapshot [CJson (memSnapshot_MarshalJSON
       \<lparr>snap_SeqNum = 3, snap_Items = [OInterface sample_interface]\<rparr>)] = Inr snap' \<and>
     memSnapshot_Each (create_into sql_ok (Model sample_wg)) (snap_Items snap') (\<lambda>_. []) =
       (Some ErrUnknownType, \<lambda>_. [])"
  using remote_snapshot_not_loadable [of "\<lparr>snap_SeqNum = 3, snap_Items = [OInterface sample_interface]\<rparr>"
      "OInterface sample_interface" "[]" sql_ok sample_wg "\<lambda>_. []"]
  by auto

end
