(* ===== verification/Config.thy ===== *)
theory Config
  imports Auth
begin

text \<open>
  Flags, configuration files and TLS settings (package \<^verbatim>\<open>util\<close>). Files, the environment
  and the cryptographic library are arguments; a text file is the list of its lines.
\<close>

section \<open>Configuration files\<close>

definition is_space :: "char \<Rightarrow> bool" where
  "is_space c = (let n = of_char c :: nat in n = 32 \<or> (9 \<le> n \<and> n \<le> 13))"

definition strings_TrimSpace :: "string \<Rightarrow> string" where
  "strings_TrimSpace s = rev (dropWhile is_space (rev (dropWhile is_space s)))"

text \<open>A line without its comment and the space around it.\<close>

definition config_line :: "string \<Rightarrow> string" where
  "config_line line = strings_TrimSpace (takeWhile (\<lambda>c. c \<noteq> CHR ''#'') line)"

definition syntax_error :: "string \<Rightarrow> nat \<Rightarrow> error" where
  "syntax_error path lineNum =
     ErrMsg (''syntax error ('' @ path @ '':'' @ FormatUint 10 lineNum @ ''): not in 'flag value' format'')"

fun config_lines :: "string \<Rightarrow> nat \<Rightarrow> string list \<Rightarrow> (string, string) gomap \<Rightarrow> (string, string) gomap result" where
  "config_lines path n [] out = Inr out"
| "config_lines path n (l # ls) out =
     (let line = config_line l
      in if line = [] then config_lines path (n + 1) ls out
         else
           (case strings_Cut CHR '' '' line of
              (key, value, ok) \<Rightarrow>
                if \<not> ok then Inl (syntax_error path (n + 1))
                else config_lines path (n + 1) ls (map_put key value out)))"

type_synonym filesystem = "string \<Rightarrow> string list option"

definition flagsFromFile :: "filesystem \<Rightarrow> string \<Rightarrow> (string, string) gomap result" where
  "flagsFromFile fs path =
     (case fs path of
        None \<Rightarrow> Inl (ErrMsg (''open '' @ path))
      | Some ls \<Rightarrow> config_lines path 0 ls [])"

text \<open>\<^verbatim>\<open>filepath.Join\<close> for a clean directory and a plain file name.\<close>

definition filepath_Join :: "string \<Rightarrow> string \<Rightarrow> string" where
  "filepath_Join dir name = (if strings_HasSuffix dir ''/'' then dir @ name else dir @ ''/'' @ name)"

definition defaultFlagConfigFiles :: "string \<Rightarrow> string list" where
  "defaultFlagConfigFiles home =
     [''/etc/wig.conf''] @ (if home \<noteq> [] then [filepath_Join home ''.wig.conf''] else [])"

fun first_config :: "filesystem \<Rightarrow> string list \<Rightarrow> (string, string) gomap \<Rightarrow> (string, string) gomap" where
  "first_config fs [] cur = cur"
| "first_config fs (path # paths) cur =
     (case flagsFromFile fs path of Inr values \<Rightarrow> values | Inl _ \<Rightarrow> first_config fs paths cur)"

text \<open>The result is the new content of \<^verbatim>\<open>flagsFromConfig\<close>.\<close>

definition LoadFlagsFromConfig :: "filesystem \<Rightarrow> string \<Rightarrow> string \<Rightarrow> (string, string) gomap \<Rightarrow>
    (string, string) gomap result" where
  "LoadFlagsFromConfig fs home overridePath cur =
     (if overridePath \<noteq> [] then flagsFromFile fs overridePath
      else Inr (first_config fs (defaultFlagConfigFiles home) cur))"

definition FlagDefault :: "(string, string) gomap \<Rightarrow> string \<Rightarrow> string \<Rightarrow> string" where
  "FlagDefault flagsFromConfig name dflt =
     (case map_of flagsFromConfig name of Some s \<Rightarrow> s | None \<Rightarrow> dflt)"

section \<open>Flag sets\<close>

text \<open>
  A flag set is the flags defined so far, each with its default. Defining a name twice makes
  the \<^verbatim>\<open>flag\<close> package panic. \<open>flag_value\<close> is the value after parsing the arguments, given as
  the flags that were set.
\<close>

type_synonym FlagSet = "(string, string) gomap"

definition StringVar :: "string \<Rightarrow> string \<Rightarrow> FlagSet \<Rightarrow> FlagSet outcome" where
  "StringVar name dflt f =
     (if name \<in> fst ` set f then Panics (''flag redefined: '' @ name) else Returns (f @ [(name, dflt)]))"

fun define_flags :: "(string \<times> string) list \<Rightarrow> FlagSet \<Rightarrow> FlagSet outcome" where
  "define_flags [] f = Returns f"
| "define_flags ((n, d) # ds) f =
     (case StringVar n d f of Returns f' \<Rightarrow> define_flags ds f' | Blocks \<Rightarrow> Blocks | Panics m \<Rightarrow> Panics m)"

definition flag_value :: "FlagSet \<Rightarrow> (string, string) gomap \<Rightarrow> string \<Rightarrow> string" where
  "flag_value f given n =
     (case map_of given n of
        Some v \<Rightarrow> v
      | None \<Rightarrow> (case map_of f n of Some d \<Rightarrow> d | None \<Rightarrow> []))"

lemma define_flags_distinct:
  assumes "distinct (map fst f @ map fst ds)"
  shows "define_flags ds f = Returns (f @ ds)"
  using assms
proof (induction ds arbitrary: f)
  case (Cons d ds)
  then show ?case by (cases d) (auto simp: StringVar_def)
qed simp

definition ClientTLSFlags_SetFlags :: "(string, string) gomap \<Rightarrow> FlagSet \<Rightarrow> FlagSet outcome" where
  "ClientTLSFlags_SetFlags conf =
     define_flags [(n, FlagDefault conf n []). n \<leftarrow> [''ssl-client-cert'', ''ssl-client-key'', ''ssl-client-ca'']]"

definition ServerTLSFlags_SetFlags :: "FlagSet \<Rightarrow> FlagSet outcome" where
  "ServerTLSFlags_SetFlags = define_flags [(''ssl-cert'', []), (''ssl-key'', []), (''ssl-ca'', [])]"

definition ClientCommand_SetFlags :: "(string, string) gomap \<Rightarrow> FlagSet \<Rightarrow> FlagSet outcome" where
  "ClientCommand_SetFlags conf f =
     (case define_flags [(n, FlagDefault conf n []). n \<leftarrow> [''auth-token'', ''auth-secret'']] f of
        Returns f' \<Rightarrow> ClientTLSFlags_SetFlags conf f'
      | Blocks \<Rightarrow> Blocks
      | Panics m \<Rightarrow> Panics m)"

section \<open>TLS\<close>

text \<open>The parts of the library that the settings come from.\<close>

record tlslib =
  tl_ReadFile :: "string \<Rightarrow> string result"
  tl_AppendCertsFromPEM :: "string \<Rightarrow> string option"
  tl_LoadX509KeyPair :: "string \<Rightarrow> string \<Rightarrow> string result"

record tls_Config =
  tc_Certificate :: string
  tc_RootCAs :: "string option"
  tc_MinVersion13 :: bool
  tc_RequireClientCert :: bool
  tc_ClientCAs :: "string option"

record TLSFlags =
  tf_cert :: string
  tf_key :: string
  tf_ca :: string

definition loadCA :: "tlslib \<Rightarrow> string \<Rightarrow> string result" where
  "loadCA lib path =
     (case tl_ReadFile lib path of
        Inl e \<Rightarrow> Inl e
      | Inr data \<Rightarrow>
          (case tl_AppendCertsFromPEM lib data of
             None \<Rightarrow> Inl (ErrMsg (''no certificates could be parsed in '' @ path))
           | Some cas \<Rightarrow> Inr cas))"

definition TLSClientConfig :: "tlslib \<Rightarrow> TLSFlags \<Rightarrow> tls_Config option result" where
  "TLSClientConfig lib c =
     (if tf_cert c = [] \<or> tf_key c = [] \<or> tf_ca c = [] then Inr None
      else
        (case tl_LoadX509KeyPair lib (tf_cert c) (tf_key c) of
           Inl e \<Rightarrow> Inl e
         | Inr cert \<Rightarrow>
             (case loadCA lib (tf_ca c) of
                Inl e \<Rightarrow> Inl e
              | Inr cas \<Rightarrow>
                  Inr (Some \<lparr>tc_Certificate = cert, tc_RootCAs = Some cas, tc_MinVersion13 = False,
                    tc_RequireClientCert = False, tc_ClientCAs = None\<rparr>))))"

definition TLSServerConfig :: "tlslib \<Rightarrow> TLSFlags \<Rightarrow> tls_Config option result" where
  "TLSServerConfig lib c =
     (if tf_cert c = [] \<or> tf_key c = [] then Inr None
      else
        (case tl_LoadX509KeyPair lib (tf_cert c) (tf_key c) of
           Inl e \<Rightarrow> Inl e
         | Inr cert \<Rightarrow>
             (let conf = \<lparr>tc_Certificate = cert, tc_RootCAs = None, tc_MinVersion13 = True,
                    tc_RequireClientCert = False, tc_ClientCAs = None\<rparr>
              in if tf_ca c \<noteq> [] then
                   (case loadCA lib (tf_ca c) of
                      Inl e \<Rightarrow> Inl e
                    | Inr pool \<Rightarrow>
                        Inr (Some (conf\<lparr>tc_RequireClientCert := True, tc_ClientCAs := Some pool\<rparr>)))
                 else Inr (Some conf))))"

text \<open>
  \<^verbatim>\<open>HTTPClient\<close> gives a client over the network: \<open>net\<close> is the network seen through the TLS
  configuration, and \<^verbatim>\<open>RoundTrip\<close> adds the token.
\<close>

definition HTTPClient :: "tlslib \<Rightarrow> (tls_Config option \<Rightarrow> 'w network) \<Rightarrow> TLSFlags \<Rightarrow> string \<Rightarrow> string \<Rightarrow>
    'w network result" where
  "HTTPClient lib net c authToken authSecret =
     (case TLSClientConfig lib c of
        Inl e \<Rightarrow> Inl e
      | Inr tlsConf \<Rightarrow> Inr (RoundTrip authToken authSecret (net tlsConf)))"

section \<open>Reading a configuration\<close>

definition config_word :: "string \<Rightarrow> bool" where
  "config_word w = (w \<noteq> [] \<and> list_all (\<lambda>c. \<not> is_space c \<and> c \<noteq> CHR ''#'') w)"

definition config_value :: "string \<Rightarrow> bool" where
  "config_value v = (v \<noteq> [] \<and> CHR ''#'' \<notin> set v \<and> \<not> is_space (hd v) \<and> \<not> is_space (last v))"

lemma dropWhile_hd: "xs \<noteq> [] \<Longrightarrow> \<not> P (hd xs) \<Longrightarrow> dropWhile P xs = xs"
  by (cases xs) auto

lemma TrimSpace_tight: "s \<noteq> [] \<Longrightarrow> \<not> is_space (hd s) \<Longrightarrow> \<not> is_space (last s) \<Longrightarrow> strings_TrimSpace s = s"
  by (simp add: strings_TrimSpace_def dropWhile_hd hd_rev)

lemma TrimSpace_blank: "list_all is_space s \<Longrightarrow> strings_TrimSpace s = []"
proof -
  assume "list_all is_space s"
  then have "dropWhile is_space s = []" by (simp add: list_all_iff)
  then show ?thesis by (simp only: strings_TrimSpace_def dropWhile.simps rev.simps)
qed

text \<open>Indented, with a comment after it, the line of a setting is still that setting.\<close>

lemma TrimSpace_pad:
  assumes "list_all is_space a" "list_all is_space b" "s \<noteq> []" "\<not> is_space (hd s)" "\<not> is_space (last s)"
  shows "strings_TrimSpace (a @ s @ b) = s"
proof -
  have "dropWhile is_space (a @ s @ b) = dropWhile is_space (s @ b)"
    using assms(1) by (intro dropWhile_append2) (simp add: list_all_iff)
  also have "\<dots> = s @ b" using assms(3,4) by (intro dropWhile_hd) simp_all
  finally have "dropWhile is_space (a @ s @ b) = s @ b" .
  moreover have "dropWhile is_space (rev b @ rev s) = dropWhile is_space (rev s)"
    using assms(2) by (intro dropWhile_append2) (simp add: list_all_iff)
  moreover have "dropWhile is_space (rev s) = rev s"
    using assms(3,5) by (intro dropWhile_hd) (simp_all add: hd_rev)
  ultimately show ?thesis by (simp add: strings_TrimSpace_def)
qed

datatype config_item = Setting string string string string | Blank string string

text \<open>How an item is written: indentation, key, value, trailing space and comment.\<close>

fun item_text :: "config_item \<Rightarrow> string \<Rightarrow> string" where
  "item_text (Setting pre key value post) comment = pre @ key @ '' '' @ value @ post @ comment"
| "item_text (Blank pre post) comment = pre @ post @ comment"

fun item_ok :: "config_item \<Rightarrow> bool" where
  "item_ok (Setting pre key value post) =
     (list_all is_space pre \<and> config_word key \<and> config_value value \<and> list_all is_space post)"
| "item_ok (Blank pre post) = (list_all is_space pre \<and> list_all is_space post)"

definition comment_ok :: "string \<Rightarrow> bool" where
  "comment_ok c = (c = [] \<or> hd c = CHR ''#'')"

fun item_setting :: "config_item \<Rightarrow> (string \<times> string) list" where
  "item_setting (Setting _ key value _) = [(key, value)]"
| "item_setting (Blank _ _) = []"

lemma strip_comment:
  assumes "CHR ''#'' \<notin> set x" "comment_ok c"
  shows "takeWhile (\<lambda>c. c \<noteq> CHR ''#'') (x @ c) = x"
proof -
  have "takeWhile (\<lambda>c. c \<noteq> CHR ''#'') (x @ c) = x @ takeWhile (\<lambda>c. c \<noteq> CHR ''#'') c"
    using assms(1) by (intro takeWhile_append2) auto
  with assms(2) show ?thesis by (cases c) (auto simp: comment_ok_def)
qed

lemma is_space_chars: "is_space CHR '' ''" "\<not> is_space CHR ''#''"
  by (simp_all add: is_space_def)

lemma hash_no_space: "list_all is_space x \<Longrightarrow> CHR ''#'' \<notin> set x"
  using is_space_chars(2) by (auto simp: list_all_iff)

lemma config_line_item:
  assumes "item_ok it" "comment_ok c"
  shows "config_line (item_text it c) =
    (case it of Setting _ key v _ \<Rightarrow> key @ '' '' @ v | Blank _ _ \<Rightarrow> [])"
proof (cases it)
  case (Setting pre key v post)
  have "CHR ''#'' \<notin> set (pre @ key @ '' '' @ v @ post)"
    using assms(1) Setting hash_no_space by (auto simp: config_word_def config_value_def list_all_iff)
  then have "takeWhile (\<lambda>c. c \<noteq> CHR ''#'') ((pre @ key @ '' '' @ v @ post) @ c) =
      pre @ key @ '' '' @ v @ post"
    using assms(2) by (rule strip_comment)
  moreover have "strings_TrimSpace (pre @ (key @ '' '' @ v) @ post) = key @ '' '' @ v"
    using assms(1) Setting
    by (intro TrimSpace_pad) (auto simp: config_word_def config_value_def list_all_iff hd_append)
  ultimately show ?thesis by (simp add: Setting config_line_def)
next
  case (Blank pre post)
  have "CHR ''#'' \<notin> set (pre @ post)" using assms(1) Blank hash_no_space by auto
  then have "takeWhile (\<lambda>c. c \<noteq> CHR ''#'') ((pre @ post) @ c) = pre @ post"
    using assms(2) by (rule strip_comment)
  moreover have "strings_TrimSpace (pre @ post) = []"
    using assms(1) Blank by (intro TrimSpace_blank) simp
  ultimately show ?thesis by (simp add: Blank config_line_def)
qed

lemma config_lines_items:
  assumes "list_all (\<lambda>(it, c). item_ok it \<and> comment_ok c) its"
  shows "config_lines path n (map (\<lambda>(it, c). item_text it c) its) out =
    Inr (fold (\<lambda>(k, v). map_put k v) (concat (map (item_setting \<circ> fst) its)) out)"
  using assms
proof (induction its arbitrary: n out)
  case (Cons e its)
  obtain it c where e: "e = (it, c)" by (cases e)
  then have ok: "item_ok it" "comment_ok c" using Cons.prems by auto
  show ?case
  proof (cases it)
    case (Setting pre key v post)
    then have "CHR '' '' \<notin> set key"
      using ok(1) is_space_chars(1) by (auto simp: config_word_def list_all_iff)
    then have "strings_Cut CHR '' '' (key @ CHR '' '' # v) = (key, v, True)"
      by (rule strings_Cut_append)
    with Cons Setting e config_line_item [OF ok] show ?thesis by simp
  next
    case (Blank pre post)
    with Cons e config_line_item [OF ok] show ?thesis by simp
  qed
qed simp



end
