(* ===== verification/Commands.thy ===== *)
theory Commands
  imports Config Remote_Crud
begin

text \<open>
  The command line: the subcommands that manage objects (\<^verbatim>\<open>datastore/crud/command.go\<close> and
  \<^verbatim>\<open>cmd/wig/rest.go\<close>) and the one that sets up a database (\<^verbatim>\<open>cmd/wig/init.go\<close>).
\<close>

section \<open>Exit status\<close>

datatype ExitStatus = ExitSuccess | ExitFailure | ExitUsageError

definition syntaxErr :: "string \<Rightarrow> ExitStatus" where
  "syntaxErr msg = ExitUsageError"

definition fatalErr :: "error option \<Rightarrow> ExitStatus" where
  "fatalErr err = (case err of Some _ \<Rightarrow> ExitFailure | None \<Rightarrow> ExitSuccess)"

section \<open>Commands and their flags\<close>

record command =
  cmd_m :: registry
  cmd_t :: sqlTableAdapter
  cmd_verb :: string
  cmd_urlPrefix :: string

definition newRestCommand :: "registry \<Rightarrow> sqlTableAdapter \<Rightarrow> string \<Rightarrow> string \<Rightarrow> command" where
  "newRestCommand m t url verb = \<lparr>cmd_m = m, cmd_t = t, cmd_verb = verb, cmd_urlPrefix = url\<rparr>"

definition command_Name :: "command \<Rightarrow> string" where
  "command_Name c = cmd_verb c @ ''-'' @ ad_typename (cmd_t c)"

definition command_SetFlags :: "(string, string) gomap \<Rightarrow> FlagSet \<Rightarrow> FlagSet outcome" where
  "command_SetFlags conf f =
     (case StringVar ''url'' (FlagDefault conf ''url'' []) f of
        Returns f' \<Rightarrow> ClientCommand_SetFlags conf f'
      | Blocks \<Rightarrow> Blocks
      | Panics m \<Rightarrow> Panics m)"

text \<open>The flag for a field has dashes where the field has underscores.\<close>

definition flagName :: "string \<Rightarrow> string" where
  "flagName field = map (\<lambda>c. if c = CHR ''_'' then CHR ''-'' else c) field"

definition commandWithFlags_SetFlags :: "(string, string) gomap \<Rightarrow> command \<Rightarrow> FlagSet \<Rightarrow> FlagSet outcome" where
  "commandWithFlags_SetFlags conf c f =
     (case command_SetFlags conf f of
        Returns f' \<Rightarrow> define_flags (map (\<lambda>field. (flagName field, [])) (ad_allFields (cmd_t c))) f'
      | Blocks \<Rightarrow> Blocks
      | Panics m \<Rightarrow> Panics m)"

text \<open>
  An invocation: the flag set of the command, the flags given, the remaining arguments, and
  what is around the process. \<open>iv_ord\<close> is the order in which the map of types is iterated.
\<close>

record 'w invocation =
  iv_flags :: FlagSet
  iv_given :: "(string, string) gomap"
  iv_args :: "string list"
  iv_ord :: "string list"
  iv_lib :: tlslib
  iv_net :: "tls_Config option \<Rightarrow> 'w network"

definition iv_flag :: "'w invocation \<Rightarrow> string \<Rightarrow> string" where
  "iv_flag iv n = flag_value (iv_flags iv) (iv_given iv) n"

definition fieldValues :: "command \<Rightarrow> 'w invocation \<Rightarrow> Values" where
  "fieldValues c iv = map (\<lambda>field. (field, iv_flag iv (flagName field))) (ad_allFields (cmd_t c))"

text \<open>The client is the entry for the type in the map of clients, nil when there is none.\<close>

definition command_client :: "command \<Rightarrow> 'w invocation \<Rightarrow>
    ('w network \<times> (string \<times> sqlTableAdapter) option) result" where
  "command_client c iv =
     (if iv_flag iv ''url'' = [] then Inl (ErrMsg ''must specify --url'')
      else
        (case HTTPClient (iv_lib iv) (iv_net iv)
                \<lparr>tf_cert = iv_flag iv ''ssl-client-cert'', tf_key = iv_flag iv ''ssl-client-key'',
                 tf_ca = iv_flag iv ''ssl-client-ca''\<rparr>
                (iv_flag iv ''auth-token'') (iv_flag iv ''auth-secret'') of
           Inl e \<Rightarrow> Inl e
         | Inr client \<Rightarrow>
             Inr (client, map_of (Model_Client (cmd_m c) (iv_ord iv)
               (JoinURL [iv_flag iv ''url'', cmd_urlPrefix c])) (ad_typename (cmd_t c)))))"

section \<open>Running them\<close>

definition exit_of :: "unit result outcome \<times> 'w \<Rightarrow> ExitStatus outcome \<times> 'w" where
  "exit_of r =
     (case r of
        (Returns x, w) \<Rightarrow> (Returns (fatalErr (err_of x)), w)
      | (Blocks, w) \<Rightarrow> (Blocks, w)
      | (Panics m, w) \<Rightarrow> (Panics m, w))"

text \<open>The end of every command: a call on the client, whose error decides the exit status.\<close>

definition client_call :: "('w network \<Rightarrow> string \<Rightarrow> sqlTableAdapter \<Rightarrow> 'w \<Rightarrow> unit result outcome \<times> 'w) \<Rightarrow>
    'w network \<times> (string \<times> sqlTableAdapter) option \<Rightarrow> 'w \<Rightarrow> ExitStatus outcome \<times> 'w" where
  "client_call f client w =
     (case client of
        (net, None) \<Rightarrow> (Panics nil_deref, w)
      | (net, Some (uri, t)) \<Rightarrow> exit_of (f net uri t w))"

definition create_Execute :: "command \<Rightarrow> 'w invocation \<Rightarrow> 'w \<Rightarrow> ExitStatus outcome \<times> 'w" where
  "create_Execute c iv w =
     (case ad_newFnValues (cmd_t c) (fieldValues c iv) of
        Inl e \<Rightarrow> (Returns (fatalErr (Some e)), w)
      | Inr ob \<Rightarrow>
          (case command_client c iv of
             Inl e \<Rightarrow> (Returns (fatalErr (Some e)), w)
           | Inr client \<Rightarrow> client_call (\<lambda>net uri t. typeClient_Create net uri t ob) client w))"

definition update_Execute :: "command \<Rightarrow> 'w invocation \<Rightarrow> 'w \<Rightarrow> ExitStatus outcome \<times> 'w" where
  "update_Execute c iv w =
     (case ad_newFnValues (cmd_t c) (fieldValues c iv) of
        Inl e \<Rightarrow> (Returns (fatalErr (Some e)), w)
      | Inr ob \<Rightarrow>
          (case command_client c iv of
             Inl e \<Rightarrow> (Returns (fatalErr (Some e)), w)
           | Inr client \<Rightarrow> client_call (\<lambda>net uri t. typeClient_Update net uri t ob) client w))"

text \<open>The argument itself, a string, is sent as the object to delete.\<close>

definition delete_Execute :: "command \<Rightarrow> 'w invocation \<Rightarrow> 'w \<Rightarrow> ExitStatus outcome \<times> 'w" where
  "delete_Execute c iv w =
     (if length (iv_args iv) \<noteq> 1 then (Returns (syntaxErr ''wrong number of arguments''), w)
      else
        (case command_client c iv of
           Inl e \<Rightarrow> (Returns (fatalErr (Some e)), w)
         | Inr client \<Rightarrow>
             client_call (\<lambda>net uri t. typeClient_Delete net uri t (OString (iv_args iv ! 0))) client w))"

text \<open>What the two commands that search print is not modelled, only how they end.\<close>

definition get_Execute :: "command \<Rightarrow> 'w invocation \<Rightarrow> 'w \<Rightarrow> ExitStatus outcome \<times> 'w" where
  "get_Execute c iv w =
     (if length (iv_args iv) \<noteq> 1 then (Returns (syntaxErr ''wrong number of arguments''), w)
      else
        (case command_client c iv of
           Inl e \<Rightarrow> (Returns (fatalErr (Some e)), w)
         | Inr client \<Rightarrow>
             (let query = [(adapter_PrimaryKeyField (cmd_t c), iv_args iv ! 0)]
              in client_call (\<lambda>net uri t. typeClient_Find net uri t query) client w)))"

fun find_query :: "string list \<Rightarrow> (string, string) gomap \<Rightarrow> (string, string) gomap result" where
  "find_query [] q = Inr q"
| "find_query (arg # args) q =
     (case strings_SplitN2 CHR ''='' arg of
        [k, v] \<Rightarrow> find_query args (map_put k v q)
      | _ \<Rightarrow> Inl (ErrMsg ''could not parse query as attr=value''))"

definition find_Execute :: "command \<Rightarrow> 'w invocation \<Rightarrow> 'w \<Rightarrow> ExitStatus outcome \<times> 'w" where
  "find_Execute c iv w =
     (case command_client c iv of
        Inl e \<Rightarrow> (Returns (fatalErr (Some e)), w)
      | Inr client \<Rightarrow>
          (case find_query (iv_args iv) [] of
             Inl e \<Rightarrow> (Returns (fatalErr (Some e)), w)
           | Inr query \<Rightarrow> client_call (\<lambda>net uri t. typeClient_Find net uri t query) client w))"

type_synonym 'w subcommand = "command \<times> (command \<Rightarrow> 'w invocation \<Rightarrow> 'w \<Rightarrow> ExitStatus outcome \<times> 'w)"

definition RegisterCommands :: "registry \<Rightarrow> sqlTableAdapter \<Rightarrow> string \<Rightarrow> (string \<times> 'w subcommand) list" where
  "RegisterCommands m t url =
     map (\<lambda>(verb, ex). let c = newRestCommand m t url verb in (command_Name c, (c, ex)))
       [(''create'', create_Execute), (''update'', update_Execute), (''delete'', delete_Execute),
        (''get'', get_Execute), (''find'', find_Execute)]"

definition apiURLBase :: string where
  "apiURLBase = ''/api/v1''"

definition rest_commands :: "wgkeys \<Rightarrow> (string \<times> 'w subcommand) list" where
  "rest_commands wg =
     RegisterCommands (Model wg) (PeerType wg) apiURLBase @
     RegisterCommands (Model wg) (InterfaceType wg) apiURLBase @
     RegisterCommands (Model wg) TokenType apiURLBase"

section \<open>Setting up a database\<close>

definition alphabet :: string where
  "alphabet = ''abcdefghijklmnopqrstuvwxyzABCDEFGHIJKLMNOPQRSTUVWXYZ0123456789''"

definition secretLen :: nat where
  "secretLen = 32"

text \<open>
  The random source is the list of what its reads return, an error or a byte; what is left
  of it is returned as well. At its end the loop is still waiting.
\<close>

type_synonym random = "byte result list"

fun randomInt :: "nat \<Rightarrow> random \<Rightarrow> (nat \<times> random) outcome" where
  "randomInt n [] = Blocks"
| "randomInt n (Inl e # rnd) = Panics (err_msg e)"
| "randomInt n (Inr b # rnd) = (let i = unat b in if i < n then Returns (i, rnd) else randomInt n rnd)"

fun random_chars :: "nat \<Rightarrow> random \<Rightarrow> (string \<times> random) outcome" where
  "random_chars 0 rnd = Returns ([], rnd)"
| "random_chars (Suc k) rnd =
     (case randomInt (length alphabet) rnd of
        Returns (i, rnd') \<Rightarrow>
          (case random_chars k rnd' of
             Returns (s, rnd'') \<Rightarrow> Returns (alphabet ! i # s, rnd'')
           | Blocks \<Rightarrow> Blocks
           | Panics m \<Rightarrow> Panics m)
      | Blocks \<Rightarrow> Blocks
      | Panics m \<Rightarrow> Panics m)"

definition generateRandomString :: "random \<Rightarrow> (string \<times> random) outcome" where
  "generateRandomString rnd = random_chars secretLen rnd"

definition insert_admin_sql :: string where
  "insert_admin_sql = ''INSERT INTO tokens (id, secret, roles) VALUES (?, ?, 'admin')''"

definition insert_admin :: "sqlenv \<Rightarrow> catalog \<Rightarrow> string \<Rightarrow> string \<Rightarrow> (tables, unit, unit) txbody" where
  "insert_admin env cat i q s =
     (case run_stmt env insert_admin_sql
             (sql_insert cat ''tokens''
               [(''id'', SText i), (''secret'', SText q), (''roles'', SText ''admin'')] (fst s)) of
        Inl e \<Rightarrow> (Returns (Inl e), s)
      | Inr tabs' \<Rightarrow> (Returns (Inr ()), (tabs', snd s)))"

definition init_ids :: "random \<Rightarrow> string \<Rightarrow> string \<Rightarrow> (string \<times> string) outcome" where
  "init_ids rnd i q =
     (if i = [] then
        (case generateRandomString rnd of
           Returns (i', rnd') \<Rightarrow>
             (case generateRandomString rnd' of
                Returns (q', _) \<Rightarrow> Returns (i', q')
              | Blocks \<Rightarrow> Blocks
              | Panics m \<Rightarrow> Panics m)
         | Blocks \<Rightarrow> Blocks
         | Panics m \<Rightarrow> Panics m)
      else Returns (i, q))"

text \<open>The result is the token that is printed.\<close>

definition init_run :: "sqlenv \<Rightarrow> (string \<Rightarrow> (int \<times> catalog) result) \<Rightarrow> random \<Rightarrow> string \<Rightarrow> string \<Rightarrow> string \<Rightarrow>
    tables \<Rightarrow> (string \<times> string) result outcome \<times> tables" where
  "init_run env sqlx_Open rnd dburi i q tabs =
     (case OpenDB env sqlx_Open exec_ddl dburi Migrations of
        Returns (Inl e) \<Rightarrow> (Returns (Inl e), tabs)
      | Returns (Inr (_, cat)) \<Rightarrow>
          (case init_ids rnd i q of
             Returns (i, q) \<Rightarrow>
               (case WithTx env (insert_admin env cat i q) (tabs, ()) of
                  (Returns (Inl e), (tabs', _)) \<Rightarrow> (Returns (Inl e), tabs')
                | (Returns (Inr _), (tabs', _)) \<Rightarrow> (Returns (Inr (i, q)), tabs')
                | (Blocks, (tabs', _)) \<Rightarrow> (Blocks, tabs')
                | (Panics m, (tabs', _)) \<Rightarrow> (Panics m, tabs'))
           | Blocks \<Rightarrow> (Blocks, tabs)
           | Panics m \<Rightarrow> (Panics m, tabs))
      | Blocks \<Rightarrow> (Blocks, tabs)
      | Panics m \<Rightarrow> (Panics m, tabs))"

definition init_SetFlags :: "FlagSet \<Rightarrow> FlagSet outcome" where
  "init_SetFlags = StringVar ''db'' []"

definition init_Execute :: "sqlenv \<Rightarrow> (string \<Rightarrow> (int \<times> catalog) result) \<Rightarrow> random \<Rightarrow> string \<Rightarrow> string list \<Rightarrow>
    tables \<Rightarrow> ExitStatus outcome \<times> tables" where
  "init_Execute env sqlx_Open rnd dburi args tabs =
     (if dburi = [] then (Returns (syntaxErr ''must specify a database path''), tabs)
      else
        (case (case args of [] \<Rightarrow> Some ([], []) | [i, q] \<Rightarrow> Some (i, q) | _ \<Rightarrow> None) of
           None \<Rightarrow> (Returns (syntaxErr ''wrong number of arguments''), tabs)
         | Some (i, q) \<Rightarrow>
             (case init_run env sqlx_Open rnd dburi i q tabs of
                (Returns r, tabs') \<Rightarrow> (Returns (fatalErr (err_of r)), tabs')
              | (Blocks, tabs') \<Rightarrow> (Blocks, tabs')
              | (Panics m, tabs') \<Rightarrow> (Panics m, tabs'))))"

section \<open>Commands reach the server\<close>

lemma registry_each_clients:
  assumes "set ord \<subseteq> fst ` set (byName r)"
  shows "registry_each r (\<lambda>t cs. Some (None, map_put (ad_typename t) (f t) cs)) ord cs =
    Some (None, fold (\<lambda>n cs. let t = the (map_of (byName r) n) in map_put (ad_typename t) (f t) cs) ord cs)"
  using assms
proof (induction ord arbitrary: cs)
  case (Cons n ord)
  then obtain t where "map_of (byName r) n = Some t"
    by (metis insert_subset list.simps(15) map_of_eq_None_iff not_None_eq)
  with Cons show ?case by (simp add: Let_def)
qed simp

lemma Model_Client_get:
  assumes "map_order (Model wg) ord" "storable ob"
  shows "map_of (Model_Client (Model wg) ord uri) (type_name ob) = Some (uri, adapter_of wg ob)"
proof -
  have ord: "set ord = {''peer'', ''interface'', ''token''}"
    using assms(1) by (simp add: map_order_def byName_Model_keys)
  let ?t = "\<lambda>n. the (map_of (byName (Model wg)) n)"
  have nm: "ad_typename (?t n) = n" if "n \<in> set ord" for n
    using that ord by (auto simp: byName_Model)
  have get: "n \<in> set ns \<Longrightarrow> set ns \<subseteq> set ord \<Longrightarrow>
      map_of (fold (\<lambda>n cs. let t = ?t n in map_put (ad_typename t) (uri, t) cs) ns cs) n = Some (uri, ?t n)" for n ns cs
  proof (induction ns arbitrary: cs rule: rev_induct)
    case (snoc m ns)
    then show ?case by (cases "n = m") (auto simp: Let_def nm)
  qed simp
  have "type_name ob \<in> set ord" unfolding ord by (rule adapter_of_simps(4) [OF assms(2)])
  from get [OF this order_refl] show ?thesis
    using ord adapter_of_simps(3) [OF assms(2), of wg]
    by (simp add: Model_Client_def registry_each_clients byName_Model_keys)
qed

text \<open>What an invocation is expected to say: the server, the token, and no client certificate.\<close>

definition invokes :: "'w invocation \<Rightarrow> string \<Rightarrow> string \<Rightarrow> string \<Rightarrow> bool" where
  "invokes iv origin user pw =
     (iv_flag iv ''url'' = origin \<and> iv_flag iv ''auth-token'' = user \<and> iv_flag iv ''auth-secret'' = pw \<and>
      iv_flag iv ''ssl-client-cert'' = [])"

lemma command_client_ok:
  assumes "invokes iv origin user pw" "origin \<noteq> []" "\<not> strings_HasSuffix origin ''/''"
    and "map_order (Model wg) (iv_ord iv)" "storable ob"
  shows "command_client (newRestCommand (Model wg) (adapter_of wg ob) apiURLBase verb) iv =
    Inr (RoundTrip user pw (iv_net iv None), Some (origin @ ''/api/v1'', adapter_of wg ob))"
proof -
  have "JoinURL [origin, ''/api/v1''] = origin @ ''/api/v1''"
    using assms(3) by (simp add: JoinURL_def TrimPrefix_slash)
  then show ?thesis
    using assms(1,2) Model_Client_get [OF assms(4,5)]
    by (simp add: command_client_def invokes_def HTTPClient_def TLSClientConfig_def newRestCommand_def
        apiURLBase_def adapter_of_simps [OF assms(5)])
qed

lemma exit_over_http:
  "exit_of (over_http r) =
    (case r of
       (Returns x, s) \<Rightarrow> (Returns (case x of Inl _ \<Rightarrow> ExitFailure | Inr _ \<Rightarrow> ExitSuccess), s)
     | (Blocks, s) \<Rightarrow> (Blocks, s)
     | (Panics m, s) \<Rightarrow> (Returns ExitFailure, s))"
  by (cases r rule: over_http.cases) (simp_all add: exit_of_def fatalErr_def)

lemma write_commands_http:
  assumes "invokes iv origin user pw" "origin \<noteq> []" "\<not> strings_HasSuffix origin ''/''" "user \<noteq> []"
    and "map_order (Model wg) (iv_ord iv)" "map_order (Model wg) ord"
    and "iv_net iv None = serve origin (crud_server wg ord api authn authz)"
    and "\<And>req. rq_basic req = Some (user, pw) \<Longrightarrow>
      admits (API_New authn authz) (''write-'' @ type_name ob) req s"
    and "obj_wf ob" "c = newRestCommand (Model wg) (adapter_of wg ob) apiURLBase verb"
    and "ad_newFnValues (adapter_of wg ob) (fieldValues c iv) = Inr ob"
  shows "create_Execute c iv s =
      (case ca_Create api ob s of
         (Returns x, s) \<Rightarrow> (Returns (case x of Inl _ \<Rightarrow> ExitFailure | Inr _ \<Rightarrow> ExitSuccess), s)
       | (Blocks, s) \<Rightarrow> (Blocks, s)
       | (Panics m, s) \<Rightarrow> (Returns ExitFailure, s)) \<and>
    update_Execute c iv s =
      (case ca_Update api ob s of
         (Returns x, s) \<Rightarrow> (Returns (case x of Inl _ \<Rightarrow> ExitFailure | Inr _ \<Rightarrow> ExitSuccess), s)
       | (Blocks, s) \<Rightarrow> (Blocks, s)
       | (Panics m, s) \<Rightarrow> (Returns ExitFailure, s))"
proof -
  have st: "storable ob" using assms(9) by (rule obj_wf_storable)
  note client = command_client_ok [OF assms(1,2,3,5) st, of verb, folded assms(10)]
  have t: "cmd_t c = adapter_of wg ob" by (simp add: assms(10) newRestCommand_def)
  note w = writes_over_http [OF assms(9,6,4,8) refl refl]
  show ?thesis
    by (simp only: create_Execute_def update_Execute_def t assms(11) sum.case client client_call_def prod.case
        option.case assms(7) w [THEN conjunct1] w [THEN conjunct2, THEN conjunct1] exit_over_http simp_thms)
qed

text \<open>
  C13: the commands that create and update an object do at the server what they were told.
  With flags that describe a well-formed object and the token of a user who may write its
  type, the server performs exactly the operation on that object, and the exit status says
  whether it succeeded.
\<close>

theorem write_commands_end_to_end:
  assumes "invokes iv origin user pw" "origin \<noteq> []" "\<not> strings_HasSuffix origin ''/''" "user \<noteq> []"
    and "map_order (Model wg) (iv_ord iv)" "map_order (Model wg) ord"
    and "iv_net iv None = serve origin (crud_server wg ord api authn authz)"
    and "\<And>req. rq_basic req = Some (user, pw) \<Longrightarrow>
      admits (API_New authn authz) (''write-'' @ type_name ob) req s"
    and "obj_wf ob" "c = newRestCommand (Model wg) (adapter_of wg ob) apiURLBase verb"
    and "ad_newFnValues (adapter_of wg ob) (fieldValues c iv) = Inr ob"
  shows "create_Execute c iv s =
      (case ca_Create api ob s of
         (Returns x, s) \<Rightarrow> (Returns (case x of Inl _ \<Rightarrow> ExitFailure | Inr _ \<Rightarrow> ExitSuccess), s)
       | (Blocks, s) \<Rightarrow> (Blocks, s)
       | (Panics m, s) \<Rightarrow> (Returns ExitFailure, s)) \<and>
    update_Execute c iv s =
      (case ca_Update api ob s of
         (Returns x, s) \<Rightarrow> (Returns (case x of Inl _ \<Rightarrow> ExitFailure | Inr _ \<Rightarrow> ExitSuccess), s)
       | (Blocks, s) \<Rightarrow> (Blocks, s)
       | (Panics m, s) \<Rightarrow> (Returns ExitFailure, s))"
  using assms by (rule write_commands_http)

text \<open>No flag of a command is defined twice, which would be a panic when the command is run.\<close>

lemma SetFlags_no_panic:
  assumes "t \<in> {PeerType wg, InterfaceType wg, TokenType}"
  shows "commandWithFlags_SetFlags conf (newRestCommand m t url verb) [] =
    Returns ([(n, FlagDefault conf n []). n \<leftarrow> [''url'', ''auth-token'', ''auth-secret'', ''ssl-client-cert'',
        ''ssl-client-key'', ''ssl-client-ca'']] @ map (\<lambda>field. (flagName field, [])) (ad_allFields t))"
proof -
  have "command_SetFlags conf [] = Returns [(n, FlagDefault conf n []). n \<leftarrow> [''url'', ''auth-token'',
      ''auth-secret'', ''ssl-client-cert'', ''ssl-client-key'', ''ssl-client-ca'']]"
    by (simp add: command_SetFlags_def StringVar_def ClientCommand_SetFlags_def ClientTLSFlags_SetFlags_def)
  moreover have "distinct ([''url'', ''auth-token'', ''auth-secret'', ''ssl-client-cert'', ''ssl-client-key'',
      ''ssl-client-ca''] @ map flagName (ad_allFields t))"
    using assms
    by (elim insertE emptyE) (simp_all add: PeerType_def InterfaceType_def TokenType_def NewSQLTableType_def flagName_def)
  ultimately show ?thesis
    by (simp add: commandWithFlags_SetFlags_def newRestCommand_def define_flags_distinct comp_def)
qed

definition sample_invocation :: "string list \<Rightarrow> 'w network \<Rightarrow> 'w invocation" where
  "sample_invocation args net =
     \<lparr>iv_flags = [(''url'', []), (''auth-token'', []), (''auth-secret'', []), (''ssl-client-cert'', []),
        (''ssl-client-key'', []), (''ssl-client-ca'', []), (''name'', []), (''ip'', []), (''ip6'', []),
        (''fwmark'', []), (''port'', []), (''private-key'', []), (''public-key'', [])],
      iv_given = [(''url'', ''http://localhost:5005''), (''auth-token'', ''root''), (''auth-secret'', ''pw''),
        (''name'', ''wg0''), (''ip'', ''10.0.0.1/24'')],
      iv_args = args, iv_ord = [''peer'', ''interface'', ''token''], 
      iv_lib = \<lparr>tl_ReadFile = Inr, tl_AppendCertsFromPEM = Some, tl_LoadX509KeyPair = (\<lambda>cert key. Inr cert)\<rparr>,
      iv_net = (\<lambda>_. net)\<rparr>"

lemma sample_address: "ParseCIDR ''10.0.0.1/24'' = Inr (v4_CIDR 10 0 0 1 24)"
proof -
  have digits: "digit_char 0 = CHR ''0''" "digit_char 1 = CHR ''1''" "digit_char (Suc 0) = CHR ''1''"
    "digit_char 2 = CHR ''2''" "digit_char 4 = CHR ''4''"
    by code_simp+
  have "CIDR_String (Some (v4_CIDR 10 0 0 1 24)) = ''10.0.0.1/24''"
    by (simp add: CIDR_String_v4 v4_String_def byte_dec_def FormatUint.simps digits)
  moreover have "ParseCIDR (CIDR_String (Some (v4_CIDR 10 0 0 1 24))) = Inr (v4_CIDR 10 0 0 1 24)"
    using CIDR_parse_String [OF CIDR_textual_v4] by (simp add: ParseCIDR_def)
  ultimately show ?thesis by simp
qed

lemma sample_values:
  "Interface_from_values sample_wg (fieldValues (newRestCommand m (InterfaceType wg) url verb)
     (sample_invocation args net)) = Inr (OInterface sample_interface)"
proof -
  have "Atoi_value [] = 0" by (simp add: Atoi_value_def ParseUint_def ErrSyntax_def ErrRange_def)
  with sample_address show ?thesis
    by (simp add: Interface_from_values_def fieldValues_def newRestCommand_def InterfaceType_def NewSQLTableType_def
        Values_Get_def iv_flag_def flag_value_def sample_invocation_def flagName_def opt_CIDR_def
        sample_interface_def Interface_zero_def)
qed

lemma sample_invokes: "invokes (sample_invocation args net) ''http://localhost:5005'' ''root'' ''pw''"
  by (simp add: invokes_def iv_flag_def flag_value_def sample_invocation_def)

theorem write_commands_end_to_end_witness:
  "\<exists>d. create_Execute (newRestCommand (Model sample_wg) (InterfaceType sample_wg) apiURLBase ''create'')
      (sample_invocation [] (serve ''http://localhost:5005''
        (crud_server sample_wg [''peer'', ''interface'', ''token''] (datastore_API sql_ok sample_wg 5 []) NilAuthn NilAuthz)))
      (empty_db, newPubSub) =
    (Returns ExitSuccess, (d, delivered (WithSequence 1 sample_op) newPubSub)) \<and> db_tables d = sample_tables"
proof -
  let ?api = "datastore_API sql_ok sample_wg 5 [] :: (db \<times> pubsub, rw \<times> nat) crud_API"
  let ?iv = "sample_invocation [] (serve ''http://localhost:5005''
     (crud_server sample_wg [''peer'', ''interface'', ''token''] ?api NilAuthn NilAuthz))"
  let ?c = "newRestCommand (Model sample_wg) (InterfaceType sample_wg) apiURLBase ''create''"
  obtain d where d: "Apply sql_ok (Model sample_wg) sample_op False (empty_db, newPubSub) =
     (Returns (Inr ()), (d, delivered (WithSequence 1 sample_op) newPubSub))" "db_tables d = sample_tables"
    by (rule Apply_sample)
  have ad: "adapter_of sample_wg (OInterface sample_interface) = InterfaceType sample_wg"
    by (simp add: adapter_of_def)
  have "ca_Create ?api (OInterface sample_interface) (empty_db, newPubSub) =
      (Returns (Inr ()), (d, delivered (WithSequence 1 sample_op) newPubSub))"
    using d(1) by (simp add: datastore_API_def writer_Create_def sample_op_def)
  moreover have "create_Execute ?c ?iv (empty_db, newPubSub) =
      (case ca_Create ?api (OInterface sample_interface) (empty_db, newPubSub) of
         (Returns x, s) \<Rightarrow> (Returns (case x of Inl _ \<Rightarrow> ExitFailure | Inr _ \<Rightarrow> ExitSuccess), s)
       | (Blocks, s) \<Rightarrow> (Blocks, s)
       | (Panics m, s) \<Rightarrow> (Returns ExitFailure, s))"
  proof (rule write_commands_end_to_end [THEN conjunct1])
    show "invokes ?iv ''http://localhost:5005'' ''root'' ''pw''" by (rule sample_invokes)
    show "map_order (Model sample_wg) (iv_ord ?iv)" "map_order (Model sample_wg) [''peer'', ''interface'', ''token'']"
      by (simp_all add: map_order_def byName_Model_keys sample_invocation_def)
    show "iv_net ?iv None = serve ''http://localhost:5005''
        (crud_server sample_wg [''peer'', ''interface'', ''token''] ?api NilAuthn NilAuthz)"
      by (simp add: sample_invocation_def)
    show "admits (API_New NilAuthn NilAuthz) t req (empty_db, newPubSub)" for t req
      by (simp add: admits_def API_New_def NilAuthn_def NilAuthz_def)
    show "obj_wf (OInterface sample_interface)"
      by (rule obj_wf_sample)
    show "?c = newRestCommand (Model sample_wg) (adapter_of sample_wg (OInterface sample_interface)) apiURLBase ''create''"
      by (simp only: ad)
    show "ad_newFnValues (adapter_of sample_wg (OInterface sample_interface)) (fieldValues ?c ?iv) =
        Inr (OInterface sample_interface)"
      unfolding ad using sample_values by (simp add: InterfaceType_def NewSQLTableType_def)
  qed (simp_all add: strings_HasSuffix_def strings_HasPrefix_def)
  ultimately have "create_Execute ?c ?iv (empty_db, newPubSub) =
      (Returns ExitSuccess, (d, delivered (WithSequence 1 sample_op) newPubSub))"
    by (simp only: prod.case outcome.case sum.case)
  with d(2) show ?thesis by blast
qed

text \<open>
  C34: the command that deletes an object never deletes one. It sends its argument, a string,
  where the server expects an object, so the request is refused for every object and every
  user, and the state stays as it was.
\<close>

theorem delete_command_never_deletes:
  assumes "invokes iv origin user pw" "origin \<noteq> []" "\<not> strings_HasSuffix origin ''/''" "user \<noteq> []"
    and "map_order (Model wg) (iv_ord iv)" "map_order (Model wg) ord"
    and "iv_net iv None = serve origin (crud_server wg ord api authn authz)"
    and "\<And>req. rq_basic req = Some (user, pw) \<Longrightarrow>
      admits (API_New authn authz) (''write-'' @ type_name ob) req s"
    and "obj_wf ob" "iv_args iv = [arg]"
  shows "delete_Execute (newRestCommand (Model wg) (adapter_of wg ob) apiURLBase ''delete'') iv s =
    (Returns ExitFailure, s)"
proof -
  have st: "storable ob" using assms(9) by (rule obj_wf_storable)
  let ?rq = "\<lparr>rq_method = ''POST'', rq_url = ''/api/v1/'' @ type_name ob @ ''/'' @ ''delete'', rq_query = [],
     rq_basic = Some (user, pw), rq_certs = None, rq_body = [CJson (JStr arg)]\<rparr>"
  have "obj_UnmarshalJSON (ad_newFn (adapter_of wg ob)) (JStr arg) = Inl ErrUnmarshal"
    unfolding adapter_of_simps [OF st] using st by (cases ob) simp_all
  then have "handleDelete (adapter_of wg ob) api ?rq new_rw s =
      (Returns (), (http_Error (err_msg ErrUnmarshal) 400 new_rw, s))"
    by (simp add: handleDelete_def ServeJSON_def dec_instance_def)
  moreover have "crud_server wg ord api authn authz ?rq new_rw s = handleDelete (adapter_of wg ob) api ?rq new_rw s"
  proof -
    have url: "rq_url ?rq = ''/api/v1/'' @ type_name ob @ ''/'' @ ''delete''"
      "rq_url ?rq = (''/api/v1/'' @ type_name ob) @ ''/'' @ ''delete''" by simp_all
    show ?thesis
      unfolding crud_server_route [OF assms(6) st verbs_mem(3) url(1)] newTypeHTTPHandler_verbs(3) [OF url(2)]
        adapter_of_simps(1) [OF st]
      by (rule WithAuth_admits, rule assms(8)) simp
  qed
  ultimately have "RoundTrip user pw (iv_net iv None)
      \<lparr>rq_method = ''POST'', rq_url = origin @ ''/api/v1/'' @ type_name ob @ ''/'' @ ''delete'', rq_query = [],
       rq_basic = None, rq_certs = None, rq_body = [CJson (JStr arg)]\<rparr> s =
    (Returns (Inr (response (http_Error (err_msg ErrUnmarshal) 400 new_rw))), s)"
    using assms(4) by (simp add: assms(7) RoundTrip_def serve_def)
  then have "typeClient_Delete (RoundTrip user pw (iv_net iv None)) (origin @ ''/api/v1'') (adapter_of wg ob)
      (OString arg) s =
    (Returns (Inl (UnwrapError errorRegistry (response (http_Error (err_msg ErrUnmarshal) 400 new_rw)))), s)"
    by (simp add: typeClient_Delete_def requestWithObj_def Do_def verbURL_split [OF st verbs_mem(3)] rw_defs)
  with assms(10) show ?thesis
    by (simp add: delete_Execute_def command_client_ok [OF assms(1,2,3,5) st] client_call_def exit_of_def fatalErr_def)
qed

theorem delete_command_never_deletes_witness:
  "delete_Execute (newRestCommand (Model sample_wg) (adapter_of sample_wg (OInterface sample_interface)) apiURLBase ''delete'')
      (sample_invocation [''wg0''] (serve ''http://localhost:5005''
        (crud_server sample_wg [''peer'', ''interface'', ''token''] (datastore_API sql_ok sample_wg 5 []) NilAuthn NilAuthz)))
      (empty_db, newPubSub) = (Returns ExitFailure, (empty_db, newPubSub))" (is "delete_Execute _ ?iv _ = _")
proof (rule delete_command_never_deletes)
  show "invokes ?iv ''http://localhost:5005'' ''root'' ''pw''" by (rule sample_invokes)
  show "map_order (Model sample_wg) (iv_ord ?iv)" "map_order (Model sample_wg) [''peer'', ''interface'', ''token'']"
    by (simp_all add: map_order_def byName_Model_keys sample_invocation_def)
  show "iv_net ?iv None = serve ''http://localhost:5005''
      (crud_server sample_wg [''peer'', ''interface'', ''token''] (datastore_API sql_ok sample_wg 5 []) NilAuthn NilAuthz)"
    "iv_args ?iv = [''wg0'']"
    by (simp_all add: sample_invocation_def)
  show "admits (API_New NilAuthn NilAuthz) t req (empty_db, newPubSub)" for t req
    by (simp add: admits_def API_New_def NilAuthn_def NilAuthz_def)
  show "obj_wf (OInterface sample_interface)"
    by (rule obj_wf_sample)
qed (simp_all add: strings_HasSuffix_def strings_HasPrefix_def)

section \<open>The first token\<close>

definition usable :: "byte result \<Rightarrow> bool" where
  "usable r = (case r of Inr b \<Rightarrow> unat b < length alphabet | Inl _ \<Rightarrow> False)"

lemma randomInt_usable:
  assumes "list_all (\<lambda>r. \<not> isl r) rnd" "0 < length (filter usable rnd)"
  shows "\<exists>i rnd'. randomInt (length alphabet) rnd = Returns (i, rnd') \<and> i < length alphabet \<and>
    list_all (\<lambda>r. \<not> isl r) rnd' \<and> Suc (length (filter usable rnd')) = length (filter usable rnd)"
  using assms
proof (induction rnd)
  case (Cons r rnd)
  then obtain b where "r = Inr b" by (cases r) auto
  moreover have "usable (Inr b) \<longleftrightarrow> unat b < length alphabet" by (simp add: usable_def)
  ultimately show ?case using Cons by (cases "usable r") (simp_all add: Let_def del: length_greater_0_conv)
qed simp

lemma random_chars_usable:
  assumes "list_all (\<lambda>r. \<not> isl r) rnd" "k \<le> length (filter usable rnd)"
  shows "\<exists>s rnd'. random_chars k rnd = Returns (s, rnd') \<and> length s = k \<and> set s \<subseteq> set alphabet \<and>
    list_all (\<lambda>r. \<not> isl r) rnd' \<and> k + length (filter usable rnd') = length (filter usable rnd)"
  using assms
proof (induction k arbitrary: rnd)
  case (Suc k)
  from Suc.prems have "0 < length (filter usable rnd)" by linarith
  then obtain i rnd1 where i: "randomInt (length alphabet) rnd = Returns (i, rnd1)" "i < length alphabet"
    "list_all (\<lambda>r. \<not> isl r) rnd1" "Suc (length (filter usable rnd1)) = length (filter usable rnd)"
    using randomInt_usable [OF Suc.prems(1)] by blast
  then have "k \<le> length (filter usable rnd1)" using Suc.prems(2) by linarith
  from Suc.IH [OF i(3) this] i show ?case by auto
qed simp

text \<open>
  The identifier and the secret that \<^verbatim>\<open>wig init\<close> invents have thirty-two characters of
  the alphabet each, and are there as soon as the random source has produced sixty-four
  bytes that the rejection loop accepts.
\<close>

lemma random_token_complete:
  assumes "list_all (\<lambda>r. \<not> isl r) rnd" "64 \<le> length (filter usable rnd)"
  shows "\<exists>i q. init_ids rnd [] given = Returns (i, q) \<and> length i = 32 \<and> length q = 32 \<and>
    set i \<union> set q \<subseteq> set alphabet"
proof -
  have "32 \<le> length (filter usable rnd)" using assms(2) by linarith
  then obtain i rnd1 where i: "random_chars 32 rnd = Returns (i, rnd1)" "length i = 32" "set i \<subseteq> set alphabet"
    "list_all (\<lambda>r. \<not> isl r) rnd1" "32 + length (filter usable rnd1) = length (filter usable rnd)"
    using random_chars_usable [OF assms(1)] by blast
  then have "32 \<le> length (filter usable rnd1)" using assms(2) by linarith
  then obtain q rnd2 where q: "random_chars 32 rnd1 = Returns (q, rnd2)" "length q = 32" "set q \<subseteq> set alphabet"
    using random_chars_usable [OF i(4)] by blast
  from i q show ?thesis
    by (simp add: init_ids_def generateRandomString_def secretLen_def)
qed

lemma random_token_complete_witness:
  "\<exists>i q. init_ids (Inr 255 # replicate 64 (Inr 7)) [] [] = Returns (i, q) \<and> length i = 32 \<and> length q = 32"
proof -
  have "usable (Inr 7)" by (simp add: usable_def alphabet_def)
  then have "filter usable (replicate 64 (Inr 7)) = replicate 64 (Inr 7)" by (induction "64::nat") simp_all
  then have "64 \<le> length (filter usable (Inr 255 # replicate 64 (Inr 7)))" by simp
  from random_token_complete [OF _ this, of "[]"] show ?thesis by (auto simp: list_all_iff)
qed

lemma insert_admin_Create:
  "sql_insert wig_catalog ''tokens'' [(''id'', SText i), (''secret'', SText q), (''roles'', SText ''admin'')] tabs =
   dispatcher_Create sql_ok (Model wg) (OToken \<lparr>tok_ID = i, tok_Secret = q, tok_Roles = [''admin'']\<rparr>) tabs"
  by (simp add: dispatcher_Create_def adapter_Create_def TokenType_def NewSQLTableType_def
      buildInsertStatement_def sql_insert_def catalog_lookup col_defs CommaSepList_Value_def Let_def)

text \<open>
  C28: \<^verbatim>\<open>wig init\<close> gives its holder exactly the rights of an administrator. After a
  successful run the printed token, with its secret, is admitted to exactly the targets of
  the role \<^verbatim>\<open>admin\<close>, with any other secret to none, and the tables are still consistent.
\<close>

theorem init_token_is_admin:
  assumes "OpenDB sql_ok sqlx_Open exec_ddl dburi Migrations = Returns (Inr (v, wig_catalog))"
    and "init_run sql_ok sqlx_Open rnd dburi i q tabs = (Returns (Inr (i', q')), tabs')" "tables_inv tabs"
    and "apiCommand_api ''bearer'' spec sql_ok (\<lambda>tabs. tabs) = Inr a" "rq_basic req = Some (i', secret)"
  shows "tables_inv tabs' \<and>
    (admits a target req tabs' \<longleftrightarrow> secret = q' \<and> target \<in> set (targetsForRole rbacRules ''admin''))"
proof -
  let ?t = "\<lparr>tok_ID = i', tok_Secret = q', tok_Roles = [''admin'']\<rparr>"
  have "WithTx sql_ok (insert_admin sql_ok wig_catalog i' q') (tabs, ()) = (Returns (Inr ()), (tabs', ()))"
    using assms(1,2) by (auto simp: init_run_def split: call_splits)
  then have ins: "dispatcher_Create sql_ok (Model wg) (OToken ?t) tabs = Inr tabs'" for wg
    by (auto simp: WithTx_def insert_admin_def insert_admin_Create [symmetric] split: sum.splits)
  then have inv: "tables_inv tabs'" by (rule Create_inv) (rule assms(3))
  have row: "db_fields (OToken ?t) \<in> set (tabs' ''tokens'')"
    using ins [of sample_wg] by (auto simp: Create_effect simp del: db_fields.simps split: if_splits)
  have a: "a = API_New (bearer_Credentials sql_ok (\<lambda>tabs. tabs)) (rbac_HasPermission rbacRules)"
    using assms(4) by (simp add: apiCommand_api_def)
  have "bearer_Credentials sql_ok (\<lambda>tabs. tabs) req tabs' =
     (if secret \<noteq> q' then Inl (ErrMsg ''bad secret'')
      else Inr (Some \<lparr>cred_Identity = i', cred_Roles = [''admin'']\<rparr>))"
    using bearer_known [of "\<lambda>tabs. tabs" tabs' ?t req secret, OF inv row] assms(5) by simp
  with inv show ?thesis
    by (auto simp: a admits_def API_New_def rbac_HasPermission_def permitted_iff)
qed

theorem init_token_is_admin_witness:
  "\<exists>a tabs'. apiCommand_api ''bearer'' [] sql_ok (\<lambda>tabs. tabs) = Inr a \<and>
     init_run sql_ok (\<lambda>_. Inr (0, empty_catalog)) [] ''wig.db'' ''gw1'' ''hunter2'' (\<lambda>_. []) =
       (Returns (Inr (''gw1'', ''hunter2'')), tabs') \<and>
     admits a ''write-peer'' sample_request tabs'"
proof -
  let ?open = "\<lambda>_ :: string. Inr (0, empty_catalog) :: (int \<times> catalog) result"
  have opn: "OpenDB sql_ok ?open exec_ddl ''wig.db'' Migrations = Returns (Inr (2, wig_catalog))"
    by (simp add: OpenDB_def migrate_wig_fresh)
  let ?tabs = "(\<lambda>_. [])(''tokens'' := [db_fields (OToken \<lparr>tok_ID = ''gw1'', tok_Secret = ''hunter2'', tok_Roles = [''admin'']\<rparr>)])"
  obtain a where a: "apiCommand_api ''bearer'' [] sql_ok (\<lambda>tabs. tabs) = Inr a"
    by (simp add: apiCommand_api_def)
  have run: "init_run sql_ok ?open [] ''wig.db'' ''gw1'' ''hunter2'' (\<lambda>_. []) =
      (Returns (Inr (''gw1'', ''hunter2'')), ?tabs)"
    by (simp add: init_run_def opn init_ids_def WithTx_def insert_admin_def insert_admin_Create [of _ _ _ sample_wg]
        Create_effect has_key_def)
  have "rq_basic sample_request = Some (''gw1'', ''hunter2'')" by (simp add: sample_request_def)
  from init_token_is_admin [OF opn run tables_inv_empty a this, of "''write-peer''"]
  have "admits a ''write-peer'' sample_request ?tabs" by (simp add: targetsForRole_def rbacRules_def)
  with a run show ?thesis by blast
qed

end
