(* ===== verification/Iprange.thy ===== *)
theory Iprange
  imports Cidr
begin

text \<open>
  The generator of addresses of package \<^verbatim>\<open>registration\<close> (\<^verbatim>\<open>iprange.go\<close>), and addresses as
  numbers: incrementing, masks and membership in a network in terms of the number an address
  stands for.
\<close>

section \<open>The generator\<close>

text \<open>The loop of \<^verbatim>\<open>incrementIP\<close> runs from the last byte to the first.\<close>

fun inc_loop :: "byte list \<Rightarrow> byte list" where
  "inc_loop [] = []"
| "inc_loop (b # bs) = (let b' = b + 1 in if b' \<noteq> 0 then b' # bs else b' # inc_loop bs)"

definition incrementIP :: "IP \<Rightarrow> IP" where
  "incrementIP ip = rev (inc_loop (rev ip))"

record ipNetGenerator =
  gen_IPNet :: IPNet
  gen_count :: int
  gen_idx :: int
  gen_current :: IP

definition newGeneratorFromIPNet :: "IPNet \<Rightarrow> ipNetGenerator" where
  "newGeneratorFromIPNet ipNet =
     (case IPMask_Size (net_Mask ipNet) of
        (ones, bits) \<Rightarrow>
          \<lparr>gen_IPNet = ipNet, gen_count = 2 ^ (bits - ones) - 1, gen_idx = 1,
           gen_current = incrementIP (net_IP ipNet)\<rparr>)"

definition Next :: "ipNetGenerator \<Rightarrow> IP option \<times> ipNetGenerator" where
  "Next g =
     (let g' = g\<lparr>gen_idx := gen_idx g + 1\<rparr>
      in if gen_idx g' > gen_count g' then (None, g')
         else (Some (gen_current g'), g'\<lparr>gen_current := incrementIP (gen_current g')\<rparr>))"

function next_loop :: "(IP \<Rightarrow> bool) \<Rightarrow> ipNetGenerator \<Rightarrow> IP result" where
  "next_loop taken g =
     (case Next g of
        (None, g') \<Rightarrow> Inl (ErrMsg ''pool exhausted'')
      | (Some ip, g') \<Rightarrow> if \<not> taken ip then Inr ip else next_loop taken g')"
  by pat_completeness auto
termination
  by (relation "measure (\<lambda>(taken, g). nat (gen_count g - gen_idx g))")
    (auto simp: Next_def Let_def split: if_splits)

declare next_loop.simps [simp del]

section \<open>Addresses as numbers\<close>

fun ip_val :: "IP \<Rightarrow> nat" where
  "ip_val [] = 0"
| "ip_val (b # bs) = unat b * 256 ^ length bs + ip_val bs"

lemma unat_byte: "unat (b :: byte) < 256"
  using unsigned_less [of b] by simp

lemma ip_val_snoc: "ip_val (bs @ [b]) = 256 * ip_val bs + unat b"
  by (induction bs) (simp_all add: algebra_simps)

lemma ip_val_append: "ip_val (xs @ ys) = ip_val xs * 256 ^ length ys + ip_val ys"
  by (induction xs) (simp_all add: algebra_simps power_add)

lemma ip_val_less: "ip_val bs < 256 ^ length bs"
proof (induction bs)
  case (Cons b bs)
  have "unat b * 256 ^ length bs + ip_val bs < (unat b + 1) * 256 ^ length bs"
    using Cons by (simp add: algebra_simps)
  also have "\<dots> \<le> 256 * 256 ^ length bs"
    using unat_byte [of b] by (intro mult_right_mono) simp_all
  finally show ?case by simp
qed simp

lemma digits_eq_iff: "r < m \<Longrightarrow> s < m \<Longrightarrow> a * m + r = b * m + s \<longleftrightarrow> a = b \<and> r = (s :: nat)"
  by (metis add.commute div_mult_self3 div_less mod_less mod_mult_self3 add_0 gr_implies_not0)

lemma ip_val_eq_iff: "length xs = length ys \<Longrightarrow> ip_val xs = ip_val ys \<longleftrightarrow> xs = ys"
proof (induction xs ys rule: list_induct2)
  case (Cons x xs y ys)
  have "unat x = unat y \<and> ip_val xs = ip_val ys"
    if "unat x * 256 ^ length ys + ip_val xs = unat y * 256 ^ length ys + ip_val ys"
  proof -
    have "ip_val xs < 256 ^ length ys" "ip_val ys < 256 ^ length ys"
      using ip_val_less [of xs] ip_val_less [of ys] Cons(1) by simp_all
    with arg_cong [OF that, of "\<lambda>v. v div 256 ^ length ys"] arg_cong [OF that, of "\<lambda>v. v mod 256 ^ length ys"]
    show ?thesis by simp
  qed
  with Cons show ?case by (auto simp: word_unat_eq_iff)
qed simp

lemma length_inc_loop [simp]: "length (inc_loop bs) = length bs"
  by (induction bs) (simp_all add: Let_def)

lemma length_incrementIP [simp]: "length (incrementIP ip) = length ip"
  by (simp add: incrementIP_def)

lemma unat_inc: "unat (b + 1 :: byte) = (unat b + 1) mod 256"
  by (simp add: unat_word_ariths)

lemma inc_zero_iff: "b + 1 = (0 :: byte) \<longleftrightarrow> unat b = 255"
proof -
  have "b + 1 = 0 \<longleftrightarrow> (unat b + 1) mod 256 = 0" by (simp add: word_unat_eq_iff unat_inc)
  then show ?thesis using unat_byte [of b] by (cases "unat b = 255") auto
qed

lemma inc_loop_val: "ip_val (rev (inc_loop bs)) = (ip_val (rev bs) + 1) mod 256 ^ length bs"
proof (induction bs)
  case (Cons b bs)
  show ?case
  proof (cases "b + 1 = 0")
    case True
    then have "unat b = 255" by (simp add: inc_zero_iff)
    then have "256 * ip_val (rev bs) + unat b + 1 = 256 * (ip_val (rev bs) + 1)" by simp
    then show ?thesis
      using True Cons by (simp add: Let_def ip_val_snoc mult_mod_right)
  next
    case False
    then have less: "unat b + 1 < 256" using unat_byte [of b] by (simp add: inc_zero_iff)
    have "ip_val (rev bs) + 1 \<le> 256 ^ length bs" using ip_val_less [of "rev bs"] by simp
    then have "256 * (ip_val (rev bs) + 1) \<le> 256 * 256 ^ length bs" by (rule mult_left_mono) simp
    with less have "256 * ip_val (rev bs) + (unat b + 1) < 256 * 256 ^ length bs" by simp
    then show ?thesis using False less by (simp add: Let_def ip_val_snoc unat_inc)
  qed
qed simp

text \<open>
  C26: incrementing an address adds one to the number it stands for, with all carries, and
  wraps around from the last address of its length to the first.
\<close>

theorem increment_ip_adds_one:
  "length (incrementIP ip) = length ip \<and> ip_val (incrementIP ip) = (ip_val ip + 1) mod 2 ^ (8 * length ip)"
proof -
  have "(256 :: nat) ^ length ip = 2 ^ (8 * length ip)" by (simp add: power_mult)
  then show ?thesis using inc_loop_val [of "rev ip"] by (simp add: incrementIP_def)
qed

lemma incrementIP_val: "ip_val (incrementIP ip) = (ip_val ip + 1) mod 256 ^ length ip"
  using inc_loop_val [of "rev ip"] by (simp add: incrementIP_def)

lemma increments_val:
  "ip_val ip + k < 256 ^ length ip \<Longrightarrow>
   length ((incrementIP ^^ k) ip) = length ip \<and> ip_val ((incrementIP ^^ k) ip) = ip_val ip + k"
  by (induction k) (simp_all add: incrementIP_val)

section \<open>Masks and networks as numbers\<close>

lemma masked_eq_Nil [simp]: "masked_eq m [] b"
  by (simp add: masked_eq_def)

lemma masked_eq_Cons:
  "masked_eq (v # m) (x # a) (y # b) \<longleftrightarrow> x AND v = y AND v \<and> masked_eq m a b"
proof -
  have "list_all P [0..<Suc n] \<longleftrightarrow> P 0 \<and> list_all (\<lambda>i. P (Suc i)) [0..<n]" for P n
    by (simp add: list_all_iff Ball_def All_less_Suc2 del: upt_Suc)
  then show ?thesis by (simp add: masked_eq_def del: upt_Suc)
qed

lemma ones_byte_mask: "ones_byte n = NOT (mask (8 - n))"
proof -
  have "drop_bit n (mask 8 :: byte) = mask (8 - n)" by (rule bit_word_eqI) (auto simp: bit_simps)
  moreover have "(mask 8 :: byte) = 0xff" by (simp add: mask_eq_exp_minus_1)
  ultimately show ?thesis by (simp add: ones_byte_def)
qed

lemma and_ones_byte:
  fixes x y :: byte
  assumes "n \<le> 8"
  shows "x AND ones_byte n = y AND ones_byte n \<longleftrightarrow> unat x div 2 ^ (8 - n) = unat y div 2 ^ (8 - n)"
proof -
  have "x AND NOT (mask k) = y AND NOT (mask k) \<longleftrightarrow> drop_bit k x = drop_bit k y" for k
  proof
    assume "x AND NOT (mask k) = y AND NOT (mask k)"
    then have "drop_bit k (x AND NOT (mask k)) = drop_bit k (y AND NOT (mask k))" by simp
    moreover have "drop_bit k (z AND NOT (mask k)) = drop_bit k z" for z :: byte
      by (rule bit_word_eqI) (auto simp: bit_simps dest: bit_imp_le_length)
    ultimately show "drop_bit k x = drop_bit k y" by simp
  next
    assume "drop_bit k x = drop_bit k y"
    moreover have "z AND NOT (mask k) = push_bit k (drop_bit k z)" for z :: byte
      by (rule bit_word_eqI) (auto simp: bit_simps)
    ultimately show "x AND NOT (mask k) = y AND NOT (mask k)" by simp
  qed
  moreover have "drop_bit k x = drop_bit k y \<longleftrightarrow> unat x div 2 ^ k = unat y div 2 ^ k" for k
    by (simp only: word_unat_eq_iff unat_drop_bit_eq) (simp only: drop_bit_eq_div)
  ultimately show ?thesis by (simp add: ones_byte_mask)
qed

lemma ones_byte_8: "ones_byte 8 = 0xff"
  by (simp add: ones_byte_def)

text \<open>Under a mask of \<open>n\<close> ones, addresses are equal when their first \<open>n\<close> bits are.\<close>

lemma masked_eq_div:
  assumes "n \<le> 8 * length b" "length a = length b"
  shows "masked_eq (mask_bytes n (length b)) a b \<longleftrightarrow>
    ip_val a div 2 ^ (8 * length b - n) = ip_val b div 2 ^ (8 * length b - n)"
  using assms(2,1)
proof (induction a b arbitrary: n rule: list_induct2)
  case (Cons x xs y ys)
  let ?l = "length ys"
  have pow: "(256 :: nat) ^ k = 2 ^ (8 * k)" for k by (simp add: power_mult)
  have less: "ip_val xs < 2 ^ (8 * ?l)" "ip_val ys < 2 ^ (8 * ?l)"
    using ip_val_less [of xs] ip_val_less [of ys] Cons(1) by (simp_all add: pow)
  show ?case
  proof (cases "8 \<le> n")
    case True
    let ?h = "8 * ?l - (n - 8)"
    have h: "8 * length (y # ys) - n = ?h" using True by simp
    have split: "(unat z * 256 ^ ?l + v) div 2 ^ ?h = unat z * 2 ^ (n - 8) + v div 2 ^ ?h"
      and rest: "v < 2 ^ (8 * ?l) \<Longrightarrow> v div 2 ^ ?h < 2 ^ (n - 8)" for z :: byte and v :: nat
    proof -
      have eq: "(2 :: nat) ^ (8 * ?l) = 2 ^ (n - 8) * 2 ^ ?h"
        using True Cons.prems by (simp flip: power_add)
      show "(unat z * 256 ^ ?l + v) div 2 ^ ?h = unat z * 2 ^ (n - 8) + v div 2 ^ ?h"
        unfolding pow eq by (simp add: mult.assoc [symmetric])
      show "v < 2 ^ (8 * ?l) \<Longrightarrow> v div 2 ^ ?h < 2 ^ (n - 8)"
        unfolding eq by (simp add: less_mult_imp_div_less)
    qed
    have "masked_eq (mask_bytes n (length (y # ys))) (x # xs) (y # ys) \<longleftrightarrow>
        x = y \<and> masked_eq (mask_bytes (n - 8) ?l) xs ys"
      using True and_ones_byte [of 8 x y] by (simp add: masked_eq_Cons ones_byte_8 word_unat_eq_iff)
    also have "\<dots> \<longleftrightarrow> unat x = unat y \<and> ip_val xs div 2 ^ ?h = ip_val ys div 2 ^ ?h"
      using Cons.IH [of "n - 8"] Cons.prems by (auto simp: word_unat_eq_iff)
    also have "\<dots> \<longleftrightarrow> ip_val (x # xs) div 2 ^ ?h = ip_val (y # ys) div 2 ^ ?h"
      using Cons(1) by (simp only: ip_val.simps split digits_eq_iff [OF rest [OF less(1)] rest [OF less(2)]])
    finally show ?thesis by (simp only: h)
  next
    case False
    have h: "8 * length (y # ys) - n = 8 * ?l + (8 - n)" using False by simp
    have split: "v < 2 ^ (8 * ?l) \<Longrightarrow> (unat z * 256 ^ ?l + v) div 2 ^ (8 * ?l + (8 - n)) = unat z div 2 ^ (8 - n)"
      for z :: byte and v :: nat
      by (simp add: pow power_add div_mult2_eq)
    have "masked_eq (mask_bytes 0 ?l) xs ys" using Cons.IH [of 0] less by simp
    then show ?thesis
      unfolding h using False Cons(1) split [OF less(1)] split [OF less(2)]
      by (simp add: masked_eq_Cons and_ones_byte)
  qed
qed simp

lemma family_val:
  assumes "length ip = 16"
  shows "IP_To4 ip \<noteq> None \<longleftrightarrow> ip_val ip div 2 ^ 32 = 0xffff"
proof -
  have "ip_val ip = ip_val (take 12 ip) * 256 ^ length (drop 12 ip) + ip_val (drop 12 ip)"
    using ip_val_append [of "take 12 ip" "drop 12 ip"] by simp
  moreover have "ip_val (drop 12 ip) < 2 ^ 32" using ip_val_less [of "drop 12 ip"] assms by simp
  ultimately have "ip_val ip div 2 ^ 32 = ip_val (take 12 ip)" using assms by simp
  moreover have "ip_val v4InV6Prefix = 0xffff" "length (take 12 ip) = length v4InV6Prefix"
    using assms by (simp_all add: v4InV6Prefix_def)
  ultimately have "ip_val ip div 2 ^ 32 = 0xffff \<longleftrightarrow> take 12 ip = v4InV6Prefix" by (metis ip_val_eq_iff)
  with assms show ?thesis by (simp add: IP_To4_def)
qed

lemma ip_val_mapped: "length bs = 4 \<Longrightarrow> ip_val (v4InV6Prefix @ bs) = 0xffff * 2 ^ 32 + ip_val bs"
  by (simp add: ip_val_append) (simp add: v4InV6Prefix_def)

text \<open>A network contains the addresses of its family that have its first bits.\<close>

lemma Contains_val:
  assumes len: "length ip = 16" "length x = 16" and n: "n \<le> family_bits ip"
    and fam: "IP_To4 x = None \<longleftrightarrow> IP_To4 ip = None"
  shows "IPNet_Contains (ip_CIDR ip n) x \<longleftrightarrow>
    ip_val x div 2 ^ (family_bits ip - n) = ip_val ip div 2 ^ (family_bits ip - n)"
proof (cases "IP_To4 ip")
  case None
  with assms masked_eq_div [of n ip x] show ?thesis
    by (simp add: IPNet_Contains_def networkNumberAndMask_def ip_CIDR_def family_bits_def CIDRMask_def)
next
  case (Some p)
  then obtain bs where bs: "ip = v4InV6Prefix @ bs" "length bs = 4"
    using IP_To4_16 [OF Some len(1)] by (auto simp: net_IPv4_def)
  obtain y where "IP_To4 x = Some y" using Some fam by auto
  then obtain ys where ys: "x = v4InV6Prefix @ ys" "length ys = 4"
    using IP_To4_16 len(2) by (fastforce simp: net_IPv4_def)
  have four: "IP_To4 (v4InV6Prefix @ zs) = Some zs" if "length zs = 4" for zs
    using that by (simp add: IP_To4_def v4InV6Prefix_def)
  have n: "n \<le> 32" "family_bits ip = 32" using n Some by (simp_all add: family_bits_def)
  have "(0xffff * 2 ^ 32 + v) div 2 ^ (32 - n) = 0xffff * 2 ^ n + v div 2 ^ (32 - n)" for v :: nat
  proof -
    have p: "(2 :: nat) ^ 32 = 2 ^ n * 2 ^ (32 - n)" using n(1) by (simp flip: power_add)
    show ?thesis unfolding p mult.assoc [symmetric] by (simp only: div_mult_self3 add.commute) simp
  qed
  then have "ip_val x div 2 ^ (32 - n) = ip_val ip div 2 ^ (32 - n) \<longleftrightarrow> ip_val ys div 2 ^ (32 - n) = ip_val bs div 2 ^ (32 - n)"
    by (simp only: bs(1) ys(1) ip_val_mapped [OF bs(2)] ip_val_mapped [OF ys(2)] add_left_cancel)
  with masked_eq_div [of n bs ys] n bs ys four show ?thesis
    by (simp add: IPNet_Contains_def networkNumberAndMask_def ip_CIDR_def CIDRMask_def)
qed

section \<open>What the generator yields\<close>

lemma next_loop_find:
  "next_loop taken g =
    (case find (\<lambda>ip. \<not> taken ip)
        (map (\<lambda>k. (incrementIP ^^ k) (gen_current g)) [0..<nat (gen_count g - gen_idx g)]) of
       None \<Rightarrow> Inl (ErrMsg ''pool exhausted'')
     | Some ip \<Rightarrow> Inr ip)"
proof (induction taken g rule: next_loop.induct)
  case (1 taken g)
  show ?case
  proof (cases "gen_idx g < gen_count g")
    case True
    let ?g = "g\<lparr>gen_idx := gen_idx g + 1, gen_current := incrementIP (gen_current g)\<rparr>"
    have nx: "Next g = (Some (gen_current g), ?g)" using True by (simp add: Next_def Let_def)
    obtain m where m: "nat (gen_count g - gen_idx g) = Suc m" "nat (gen_count ?g - gen_idx ?g) = m"
      using True by (cases "nat (gen_count g - gen_idx g)") auto
    have "map (\<lambda>k. (incrementIP ^^ k) ip) [0..<Suc m] =
        ip # map (\<lambda>k. (incrementIP ^^ k) (incrementIP ip)) [0..<m]" for ip
      by (simp add: upt_conv_Cons map_Suc_upt [symmetric] funpow_swap1 comp_def del: upt_Suc)
    with 1 [OF nx [symmetric] refl] m show ?thesis
      by (simp add: next_loop.simps [of taken g] nx)
  next
    case False
    then show ?thesis by (simp add: next_loop.simps [of taken g] Next_def Let_def)
  qed
qed

text \<open>The addresses the generator yields, for a network with \<open>h\<close> host bits.\<close>

definition pool :: "IPNet \<Rightarrow> IP list" where
  "pool net =
     (case IPMask_Size (net_Mask net) of
        (ones, bits) \<Rightarrow> map (\<lambda>k. (incrementIP ^^ k) (net_IP net)) [1..<2 ^ (bits - ones) - 1])"

lemma next_loop_pool:
  "next_loop taken (newGeneratorFromIPNet net) =
    (case find (\<lambda>ip. \<not> taken ip) (pool net) of
       None \<Rightarrow> Inl (ErrMsg ''pool exhausted'')
     | Some ip \<Rightarrow> Inr ip)"
proof -
  obtain ones bits where sz: "IPMask_Size (net_Mask net) = (ones, bits)" by (cases "IPMask_Size (net_Mask net)")
  have "nat (int m - 1 - 1) = m - 1 - 1" for m by linarith
  from this [of "2 ^ (bits - ones)"] have "nat (2 ^ (bits - ones) - 1 - 1) = 2 ^ (bits - ones) - 1 - 1" by simp
  moreover have "map (\<lambda>k. (incrementIP ^^ k) (incrementIP ip)) [0..<m - 1] =
      map (\<lambda>k. (incrementIP ^^ k) ip) [1..<m]" for ip m
    by (cases m) (simp_all add: map_Suc_upt [symmetric] funpow_swap1 comp_def del: upt_Suc)
  note shift = this [of "net_IP net" "2 ^ (bits - ones) - 1"]
  ultimately show ?thesis
    by (simp only: next_loop_find newGeneratorFromIPNet_def pool_def sz prod.case ipNetGenerator.simps shift)
qed

definition host_bits :: "IPNet \<Rightarrow> nat" where
  "host_bits net = (case IPMask_Size (net_Mask net) of (ones, bits) \<Rightarrow> bits - ones)"

lemma pool_mem:
  assumes len: "length (net_IP net) = 16" and fits: "ip_val (net_IP net) + 2 ^ host_bits net \<le> 2 ^ 128 + 1"
  shows "x \<in> set (pool net) \<longleftrightarrow>
    length x = 16 \<and> ip_val (net_IP net) < ip_val x \<and> ip_val x + 1 < ip_val (net_IP net) + 2 ^ host_bits net" (is "_ \<longleftrightarrow> ?R")
proof -
  let ?b = "net_IP net" and ?h = "2 ^ host_bits net :: nat"
  have inc: "length ((incrementIP ^^ k) ?b) = 16 \<and> ip_val ((incrementIP ^^ k) ?b) = ip_val ?b + k" if "k + 1 < ?h" for k
    using increments_val [of ?b k] that fits len by simp
  have "x \<in> set (pool net) \<longleftrightarrow> (\<exists>k. 0 < k \<and> k + 1 < ?h \<and> x = (incrementIP ^^ k) ?b)"
    by (cases "IPMask_Size (net_Mask net)") (auto simp: pool_def host_bits_def image_iff less_diff_conv Suc_le_eq)
  also have "\<dots> \<longleftrightarrow> ?R"
  proof
    assume ?R
    let ?k = "ip_val x - ip_val ?b"
    have k: "0 < ?k" "?k + 1 < ?h" using \<open>?R\<close> by linarith+
    have "x = (incrementIP ^^ ?k) ?b"
      using inc [OF k(2)] \<open>?R\<close> ip_val_eq_iff [of "(incrementIP ^^ ?k) ?b" x] by simp
    with k show "\<exists>k. 0 < k \<and> k + 1 < ?h \<and> x = (incrementIP ^^ k) ?b" by blast
  qed (use inc in auto)
  finally show ?thesis .
qed

lemma inner_iff:
  fixes v q h :: nat
  assumes "0 < h"
  shows "h * q < v \<and> v + 1 < h * q + h \<longleftrightarrow> v div h = q \<and> v mod h \<noteq> 0 \<and> v mod h \<noteq> h - 1" (is "?L \<longleftrightarrow> ?R")
proof
  have v: "v = h * (v div h) + v mod h" by (rule mult_div_mod_eq [symmetric])
  show ?R if ?L
  proof -
    have q: "v div h = q" using that by (intro div_nat_eqI) simp_all
    then show ?thesis using that v assms by (intro conjI notI) (simp_all, linarith+)
  qed
  show ?L if ?R
  proof -
    have "v = h * q + v mod h" using that v by simp
    then show ?thesis using that mod_less_divisor [OF assms, of v] by linarith
  qed
qed

text \<open>
  For a network address, the pool is the network without its first and its last address.
\<close>

definition network_address :: "IPNet \<Rightarrow> bool" where
  "network_address net \<longleftrightarrow>
     length (net_IP net) = 16 \<and> host_bits net \<le> 128 \<and> ip_val (net_IP net) mod 2 ^ host_bits net = 0"

definition host_of :: "IPNet \<Rightarrow> IP \<Rightarrow> bool" where
  "host_of net x \<longleftrightarrow>
     length x = 16 \<and> ip_val x div 2 ^ host_bits net = ip_val (net_IP net) div 2 ^ host_bits net \<and>
     ip_val x mod 2 ^ host_bits net \<noteq> 0 \<and> ip_val x mod 2 ^ host_bits net \<noteq> 2 ^ host_bits net - 1"

lemma pool_network:
  assumes "network_address net"
  shows "x \<in> set (pool net) \<longleftrightarrow> host_of net x"
proof -
  let ?h = "2 ^ host_bits net :: nat" and ?v = "ip_val (net_IP net)"
  have len: "length (net_IP net) = 16" and le: "host_bits net \<le> 128" using assms by (simp_all add: network_address_def)
  obtain q where q: "?v = ?h * q" using assms by (auto simp: network_address_def mod_eq_0_iff_dvd)
  have p: "(2 :: nat) ^ 128 = ?h * 2 ^ (128 - host_bits net)" using le by (simp flip: power_add)
  have "?v < 2 ^ 128" using ip_val_less [of "net_IP net"] len by simp
  then have "?h * q < ?h * 2 ^ (128 - host_bits net)" by (simp only: q p)
  then have "?h * (q + 1) \<le> ?h * 2 ^ (128 - host_bits net)" by (intro mult_left_mono) simp_all
  then have fits: "?v + ?h \<le> 2 ^ 128 + 1" unfolding q p by simp
  have "?v < ip_val x \<and> ip_val x + 1 < ?v + ?h \<longleftrightarrow>
      ip_val x div ?h = q \<and> ip_val x mod ?h \<noteq> 0 \<and> ip_val x mod ?h \<noteq> ?h - 1"
    unfolding q by (rule inner_iff) simp
  then show ?thesis by (auto simp: pool_mem [OF len fits] host_of_def q)
qed

lemma host_of_family:
  assumes "host_of net x" "length (net_IP net) = 16" "host_bits net \<le> 32"
  shows "IP_To4 x = None \<longleftrightarrow> IP_To4 (net_IP net) = None"
proof -
  have "v div 2 ^ 32 = v div 2 ^ host_bits net div 2 ^ (32 - host_bits net)" for v :: nat
    using assms(3) by (simp flip: div_mult2_eq power_add)
  then have "ip_val x div 2 ^ 32 = ip_val (net_IP net) div 2 ^ 32"
    using assms(1) by (simp only: host_of_def)
  with assms(1,2) family_val show ?thesis by (metis host_of_def)
qed

lemma host_contained:
  assumes "host_of (ip_CIDR ip n) x" "length ip = 16" "n \<le> family_bits ip" "IP_To4 x = None \<or> IP_To4 ip \<noteq> None"
  shows "IPNet_Contains (ip_CIDR ip n) x"
proof -
  have h: "host_bits (ip_CIDR ip n) = family_bits ip - n"
    using assms(3) by (auto simp: host_bits_def ip_CIDR_def family_bits_def)
  have ip: "net_IP (ip_CIDR ip n) = ip" by (simp add: ip_CIDR_def)
  have "IP_To4 x = None \<longleftrightarrow> IP_To4 ip = None"
  proof (cases "IP_To4 ip")
    case (Some p)
    then have "host_bits (ip_CIDR ip n) \<le> 32" by (simp add: h family_bits_def)
    then show ?thesis using host_of_family [OF assms(1)] assms(2) by (simp only: ip)
  qed (use assms(4) in simp)
  with Contains_val [OF assms(2) _ assms(3)] assms(1) show ?thesis by (simp add: host_of_def h ip)
qed

text \<open>For any other address of the network, the pool goes past the end of the network.\<close>

lemma pool_escapes:
  assumes len: "length (net_IP net) = 16" and fits: "ip_val (net_IP net) + 2 ^ host_bits net \<le> 2 ^ 128 + 1"
    and off: "2 \<le> ip_val (net_IP net) mod 2 ^ host_bits net"
  shows "\<exists>x \<in> set (pool net). ip_val x div 2 ^ host_bits net \<noteq> ip_val (net_IP net) div 2 ^ host_bits net"
proof -
  let ?h = "2 ^ host_bits net :: nat" and ?b = "net_IP net"
  let ?x = "(incrementIP ^^ (?h - 2)) ?b"
  have "ip_val ?b mod ?h < ?h" by simp
  with off have h: "2 < ?h" by linarith
  have x: "length ?x = 16" "ip_val ?x = ip_val ?b + (?h - 2)"
    using increments_val [of ?b "?h - 2"] fits h len by simp_all
  have mem: "?x \<in> set (pool net)"
    unfolding pool_mem [OF len fits] by (intro conjI x(1); unfold x(2); use h in linarith)
  have "ip_val ?b = ?h * (ip_val ?b div ?h) + ip_val ?b mod ?h" by (rule mult_div_mod_eq [symmetric])
  moreover have "?h * (ip_val ?b div ?h + 1) = ?h * (ip_val ?b div ?h) + ?h" by (simp only: distrib_left mult_1_right)
  ultimately have "?h * (ip_val ?b div ?h + 1) \<le> ip_val ?x" using x(2) off h by linarith
  then have "ip_val ?b div ?h + 1 \<le> ip_val ?x div ?h" by (simp add: less_eq_div_iff_mult_less_eq mult.commute)
  with mem show ?thesis by (intro bexI [of _ ?x]) simp_all
qed

end
