(* ===== verification/Registration.thy ===== *)
theory Registration
  imports Iprange Auth
begin

text \<open>
  Registration of new peers (\<^verbatim>\<open>datastore/registration/registration.go\<close>). The ranger of the
  package \<^verbatim>\<open>cidranger\<close>, a set of networks that answers whether an address is in one of
  them, is an argument.
\<close>

section \<open>Definitions\<close>

record 'r ranger =
  rg_New :: 'r
  rg_Insert :: "IPNet \<Rightarrow> 'r \<Rightarrow> 'r"
  rg_Contains :: "'r \<Rightarrow> IP \<Rightarrow> bool"

definition select_ranges_sql :: string where
  "select_ranges_sql = ''SELECT ip, ip6 FROM peers WHERE interface = ?''"

fun ranges_loop :: "'r ranger \<Rightarrow> row list \<Rightarrow> 'r \<Rightarrow> 'r result" where
  "ranges_loop lib [] rg = Inr rg"
| "ranges_loop lib (r # rs) rg =
     (case CIDR_Scan CIDR_zero (cell r ''ip'') of
        Inl e \<Rightarrow> Inl e
      | Inr ip \<Rightarrow>
          (case CIDR_Scan CIDR_zero (cell r ''ip6'') of
             Inl e \<Rightarrow> Inl e
           | Inr ip6 \<Rightarrow>
               (let rg = (if \<not> CIDR_IsNil (Some ip) then rg_Insert lib ip rg else rg);
                    rg = (if \<not> CIDR_IsNil (Some ip6) then rg_Insert lib ip6 rg else rg)
                in ranges_loop lib rs rg)))"

definition allocatedRanges :: "sqlenv \<Rightarrow> 'r ranger \<Rightarrow> string \<Rightarrow> tables \<Rightarrow> 'r result" where
  "allocatedRanges env lib intfName tabs =
     (case run_stmt env select_ranges_sql
             (Inr (filter (\<lambda>r. col_eq_arg (cell r ''interface'') intfName) (tabs ''peers''))) of
        Inl e \<Rightarrow> Inl e
      | Inr rows \<Rightarrow> ranges_loop lib rows (rg_New lib))"

definition nextFreeIP :: "'r ranger \<Rightarrow> CIDR \<Rightarrow> 'r \<Rightarrow> IP result" where
  "nextFreeIP lib ipnet allocated = next_loop (rg_Contains lib allocated) (newGeneratorFromIPNet ipnet)"

definition select_interface_sql :: string where
  "select_interface_sql = ''SELECT * FROM interfaces WHERE name = ?''"

definition query_interface :: "sqlenv \<Rightarrow> string \<Rightarrow> tables \<Rightarrow> Interface result" where
  "query_interface env intfName tabs =
     run_stmt env select_interface_sql
       (case filter (\<lambda>r. col_eq_arg (cell r ''name'') intfName) (tabs ''interfaces'') of
          [] \<Rightarrow> Inl (ErrMsg ''sql: no rows in result set'')
        | r # _ \<Rightarrow> scan_cols Interface_scan_col Interface_zero r)"

text \<open>
  One of the two assignments: when the interface has a network, the peer gets a free address
  from it. Both of them set the field \<^verbatim>\<open>IP\<close>.
\<close>

definition assign :: "'r ranger \<Rightarrow> 'r \<Rightarrow> CIDR option \<Rightarrow> nat \<Rightarrow> Peer \<Rightarrow> Peer result" where
  "assign lib allocated net sz peer =
     (if \<not> CIDR_IsNil net then
        (case nextFreeIP lib (the net) allocated of
           Inl e \<Rightarrow> Inl e
         | Inr ip \<Rightarrow> Inr (peer\<lparr>peer_IP := Some (NewCIDR ip sz)\<rparr>))
      else Inr peer)"

text \<open>
  The body of the transaction. The peer is a variable of the program, not of the database:
  it keeps what was assigned when the transaction fails later.
\<close>

definition register_body :: "sqlenv \<Rightarrow> 'r ranger \<Rightarrow> string \<Rightarrow> (tables, Peer, unit) txbody" where
  "register_body env lib intfName s =
     (case s of (tabs, peer) \<Rightarrow>
        (case query_interface env intfName tabs of
           Inl e \<Rightarrow> (Returns (Inl e), s)
         | Inr intf \<Rightarrow>
             (case allocatedRanges env lib intfName tabs of
                Inl e \<Rightarrow> (Returns (Inl e), s)
              | Inr allocated \<Rightarrow>
                  (case assign lib allocated (intf_IP intf) 32 peer of
                     Inl e \<Rightarrow> (Returns (Inl e), s)
                   | Inr peer \<Rightarrow>
                       (case assign lib allocated (intf_IP6 intf) 128 peer of
                          Inl e \<Rightarrow> (Returns (Inl e), (tabs, peer))
                        | Inr peer \<Rightarrow> (Returns (Inr ()), (tabs, peer)))))))"

definition RegisterNewPeer :: "sqlenv \<Rightarrow> 'r ranger \<Rightarrow> gotime \<Rightarrow> string \<Rightarrow> string \<Rightarrow> int \<Rightarrow> tables \<Rightarrow>
    (Peer \<times> error option) outcome" where
  "RegisterNewPeer env lib now intfName publicKey ttl tabs =
     (let peer = Peer_zero\<lparr>peer_PublicKey := publicKey, peer_Interface := intfName\<rparr>;
          peer = (if ttl > 0 then peer\<lparr>peer_Expire := now + ttl\<rparr> else peer)
      in case WithTx env (register_body env lib intfName) (tabs, peer) of
           (Returns r, (_, peer)) \<Rightarrow> Returns (peer, err_of r)
         | (Blocks, _) \<Rightarrow> Blocks
         | (Panics m, _) \<Rightarrow> Panics m)"

record RegisterPeerRequest =
  rr_Interface :: string
  rr_PublicKey :: string
  rr_TTL :: int

definition RegisterPeerRequest_set :: "RegisterPeerRequest \<Rightarrow> string \<Rightarrow> json \<Rightarrow> RegisterPeerRequest result" where
  "RegisterPeerRequest_set rr k v =
     (if key_eq k ''interface'' then put_field (\<lambda>x. rr\<lparr>rr_Interface := x\<rparr>) (dec_string (rr_Interface rr) v)
      else if key_eq k ''public_key'' then put_field (\<lambda>x. rr\<lparr>rr_PublicKey := x\<rparr>) (dec_string (rr_PublicKey rr) v)
      else if key_eq k ''ttl'' then put_field (\<lambda>x. rr\<lparr>rr_TTL := x\<rparr>) (dec_int (rr_TTL rr) v)
      else Inr rr)"

definition dec_register :: "chunk list \<Rightarrow> RegisterPeerRequest result" where
  "dec_register body =
     (case body_decode body of
        Inl e \<Rightarrow> Inl e
      | Inr j \<Rightarrow> dec_struct RegisterPeerRequest_set \<lparr>rr_Interface = [], rr_PublicKey = [], rr_TTL = 0\<rparr> j)"

text \<open>A number of seconds as a duration: a product of 64-bit integers, which wraps around.\<close>

definition seconds :: "int \<Rightarrow> int" where
  "seconds n = sint (word_of_int (second * n) :: 64 word)"

definition handleRegisterPeer :: "sqlenv \<Rightarrow> 'r ranger \<Rightarrow> gotime \<Rightarrow> ('s \<Rightarrow> tables) \<Rightarrow> 's handler" where
  "handleRegisterPeer env lib now tabs_of =
     ServeJSON errorRegistry dec_register
       (\<lambda>rr s. case RegisterNewPeer env lib now (rr_Interface rr) (rr_PublicKey rr) (seconds (rr_TTL rr)) (tabs_of s) of
          Returns (peer, None) \<Rightarrow> (Returns (Inr (Some (obj_MarshalJSON (OPeer peer)))), s)
        | Returns (_, Some e) \<Rightarrow> (Returns (Inl e), s)
        | Blocks \<Rightarrow> (Blocks, s)
        | Panics m \<Rightarrow> (Panics m, s))"

definition apiURLRegisterPeer :: string where
  "apiURLRegisterPeer = ''/api/v1/register-peer''"

definition Registration_BuildAPI :: "sqlenv \<Rightarrow> 'r ranger \<Rightarrow> gotime \<Rightarrow> ('s \<Rightarrow> tables) \<Rightarrow> 's API \<Rightarrow> 's API" where
  "Registration_BuildAPI env lib now tabs_of api =
     API_Handle apiURLRegisterPeer (WithAuth api ''register-peer'' (handleRegisterPeer env lib now tabs_of)) api"

section \<open>Which address a peer gets\<close>

text \<open>
  What the package promises: an address is contained exactly when an inserted network, given
  by its network address, contains it.
\<close>

definition canonical :: "IPNet \<Rightarrow> bool" where
  "canonical n =
     (case networkNumberAndMask n of None \<Rightarrow> False | Some (nn, m) \<Rightarrow> list_all2 (\<lambda>x v. x AND v = x) nn m)"

definition ranger_law :: "'r ranger \<Rightarrow> bool" where
  "ranger_law lib \<longleftrightarrow>
     (\<forall>nets ip. (\<forall>n\<in>set nets. canonical n) \<longrightarrow> length ip \<in> {4, 16} \<longrightarrow>
        rg_Contains lib (fold (rg_Insert lib) nets (rg_New lib)) ip = (\<exists>n\<in>set nets. IPNet_Contains n ip))"

definition peer_nets :: "string \<Rightarrow> Peer list \<Rightarrow> IPNet list" where
  "peer_nets intfName ps =
     concat (map (\<lambda>p. [n. Some n \<leftarrow> [peer_IP p, peer_IP6 p]]) (filter (\<lambda>p. peer_Interface p = intfName) ps))"

lemma Scan_Value:
  "CIDR_textual c \<Longrightarrow> CIDR_Scan CIDR_zero (CIDR_Value c) = Inr (case c of None \<Rightarrow> CIDR_zero | Some n \<Rightarrow> n)"
  using CIDR_textual_not_nil CIDR_parse_String
  by (cases c) (simp_all add: CIDR_Value_def CIDR_IsNil_def [of None])

lemma CIDR_zero_nil: "CIDR_IsNil (Some CIDR_zero)"
  by (simp add: CIDR_IsNil_def CIDR_zero_def)

lemma ranges_loop_peers:
  assumes "\<forall>p\<in>set ps. obj_wf (OPeer p)"
  shows "ranges_loop lib (map (db_fields \<circ> OPeer) ps) rg =
    Inr (fold (rg_Insert lib) (concat (map (\<lambda>p. [n. Some n \<leftarrow> [peer_IP p, peer_IP6 p]]) ps)) rg)"
  using assms
proof (induction ps arbitrary: rg)
  case (Cons p ps)
  then have "CIDR_textual (peer_IP p)" "CIDR_textual (peer_IP6 p)" by simp_all
  with Cons show ?case
    by (auto simp: Scan_Value CIDR_zero_nil CIDR_textual_not_nil split: option.splits)
qed simp

lemma allocatedRanges_peers:
  assumes "tabs ''peers'' = map (db_fields \<circ> OPeer) ps" "\<forall>p\<in>set ps. obj_wf (OPeer p)"
  shows "allocatedRanges sql_ok lib intfName tabs = Inr (fold (rg_Insert lib) (peer_nets intfName ps) (rg_New lib))"
proof -
  have "filter (\<lambda>r. col_eq_arg (cell r ''interface'') intfName) (tabs ''peers'') =
      map (db_fields \<circ> OPeer) (filter (\<lambda>p. peer_Interface p = intfName) ps)"
    by (simp add: assms(1) filter_map comp_def)
  with assms(2) show ?thesis
    by (simp add: allocatedRanges_def ranges_loop_peers peer_nets_def)
qed

lemma query_interface_stored:
  assumes "tables_inv tabs" "db_fields (OInterface i) \<in> set (tabs ''interfaces'')" "obj_wf (OInterface i)"
  shows "query_interface sql_ok (intf_Name i) tabs = Inr i"
proof -
  have "filter (\<lambda>r. col_eq_arg (cell r ''name'') (intf_Name i)) (tabs ''interfaces'') = [db_fields (OInterface i)]"
    using assms(1,2) by (intro key_row_unique [where cs = intf_cols]) (simp_all add: tables_inv_def)
  moreover have "scan_cols Interface_scan_col Interface_zero (db_fields (OInterface i)) = Inr i"
  proof -
    have "put_field OInterface (scan_cols Interface_scan_col Interface_zero (db_fields (OInterface i))) =
        Inr (OInterface i)"
      using StructScan_db_fields [OF assms(3)] by (simp only: obj_type.simps StructScan.simps)
    then show ?thesis by (simp add: put_field_def del: db_fields.simps split: sum.splits)
  qed
  ultimately show ?thesis by (simp add: query_interface_def del: db_fields.simps)
qed

text \<open>
  The addresses that could be assigned from a network: not its first or last, in no range of a peer.
\<close>

definition assignable :: "IPNet \<Rightarrow> IPNet list \<Rightarrow> IP \<Rightarrow> bool" where
  "assignable net nets ip \<longleftrightarrow> host_of net ip \<and> (\<forall>m\<in>set nets. \<not> IPNet_Contains m ip)"

lemma nextFreeIP_assignable:
  assumes "ranger_law lib" "\<forall>m\<in>set nets. canonical m" "network_address net"
  shows "case nextFreeIP lib net (fold (rg_Insert lib) nets (rg_New lib)) of
      Inr ip \<Rightarrow> assignable net nets ip
    | Inl e \<Rightarrow> e = ErrMsg ''pool exhausted'' \<and> (\<forall>ip. \<not> assignable net nets ip)"
proof -
  let ?taken = "rg_Contains lib (fold (rg_Insert lib) nets (rg_New lib))"
  have "?taken ip = (\<exists>m\<in>set nets. IPNet_Contains m ip)" if "host_of net ip" for ip
    using assms(1,2) that by (simp add: ranger_law_def host_of_def)
  then have free: "assignable net nets ip \<longleftrightarrow> ip \<in> set (pool net) \<and> \<not> ?taken ip" for ip
    by (auto simp: assignable_def pool_network [OF assms(3)])
  show ?thesis
    unfolding nextFreeIP_def next_loop_pool free
    by (auto simp: find_None_iff find_Some_iff split: option.split)
qed

text \<open>The networks of an interface, and what the two assignments do with them.\<close>

definition intf_nets :: "Interface \<Rightarrow> IPNet list" where
  "intf_nets i = [n. Some n \<leftarrow> [intf_IP i, intf_IP6 i]]"

lemma assign_assignable:
  assumes "ranger_law lib" "\<forall>m\<in>set nets. canonical m" "network_address net"
  shows "case assign lib (fold (rg_Insert lib) nets (rg_New lib)) (Some net) sz p of
      Inr p' \<Rightarrow> \<exists>ip. assignable net nets ip \<and> p' = p\<lparr>peer_IP := Some (NewCIDR ip sz)\<rparr>
    | Inl e \<Rightarrow> e = ErrMsg ''pool exhausted'' \<and> (\<forall>ip. \<not> assignable net nets ip)"
proof -
  have "net_IP net \<noteq> []" using assms(3) by (auto simp: network_address_def)
  then show ?thesis
    using nextFreeIP_assignable [OF assms] by (auto simp: assign_def CIDR_IsNil_def split: sum.splits)
qed

lemma assign_none: "assign lib allocated None sz p = Inr p"
  by (simp add: assign_def CIDR_IsNil_def)


definition list_ranger :: "IPNet list ranger" where
  "list_ranger = \<lparr>rg_New = [], rg_Insert = (#), rg_Contains = (\<lambda>nets ip. list_ex (\<lambda>n. IPNet_Contains n ip) nets)\<rparr>"

lemma ranger_law_list: "ranger_law list_ranger"
proof -
  have "fold (#) nets acc = rev nets @ acc" for nets acc :: "IPNet list" by (simp add: fold_Cons_rev)
  then show ?thesis by (simp add: ranger_law_def list_ranger_def list_ex_iff)
qed

definition pool_interface :: Interface where
  "pool_interface = Interface_zero\<lparr>intf_Name := ''wg0'', intf_IP := Some (ip_CIDR (net_IPv4 10 0 0 0) 24),
     intf_IP6 := Some (ip_CIDR [0xfd, 0, 0, 0, 0, 0, 0, 0, 0, 0, 0, 0, 0, 0, 0, 0] 64)\<rparr>"

definition pool_tables :: tables where
  "pool_tables = (\<lambda>_. [])(''interfaces'' := [db_fields (OInterface pool_interface)])"




end
