(* ===== verification/Expire.thy ===== *)
theory Expire
  imports Remote_Crud
begin

text \<open>
  Expiration of peers (\<^verbatim>\<open>datastore/expire/expire.go\<close>). The state \<open>'s\<close> is that of the datastore
  behind the writer; \<open>tabs_of\<close> gives the tables the query reads.
\<close>

definition select_expired_sql :: string where
  "select_expired_sql = ''SELECT public_key FROM peers WHERE expire IS NOT NULL AND expire < ?''"

text \<open>The rows are scanned one by one, and the result is not extended.\<close>

fun expired_loop :: "row list \<Rightarrow> string list \<Rightarrow> string list" where
  "expired_loop [] out = out"
| "expired_loop (r # rs) out =
     (case scan_string (cell r ''public_key'') of
        Inl _ \<Rightarrow> []
      | Inr s \<Rightarrow> expired_loop rs out)"

definition is_expired :: "gotime \<Rightarrow> row \<Rightarrow> bool" where
  "is_expired now r = (case cell r ''expire'' of STime t \<Rightarrow> t < now | _ \<Rightarrow> False)"

definition findExpiredPeers :: "sqlenv \<Rightarrow> gotime \<Rightarrow> tables \<Rightarrow> string list" where
  "findExpiredPeers env now tabs =
     (case run_stmt env select_expired_sql (Inr (filter (is_expired now) (tabs ''peers''))) of
        Inl _ \<Rightarrow> []
      | Inr rows \<Rightarrow> expired_loop rows [])"

fun expirePeers :: "('s, 'm) crud_API \<Rightarrow> string list \<Rightarrow> error option \<Rightarrow> 's \<Rightarrow> error option outcome \<times> 's" where
  "expirePeers api [] lastErr s = (Returns lastErr, s)"
| "expirePeers api (pkey # pkeys) lastErr s =
     (case ca_Delete api (OPeer (Peer_zero\<lparr>peer_PublicKey := pkey\<rparr>)) s of
        (Returns (Inl e), s') \<Rightarrow> expirePeers api pkeys (Some e) s'
      | (Returns (Inr _), s') \<Rightarrow> expirePeers api pkeys lastErr s'
      | (Blocks, s') \<Rightarrow> (Blocks, s')
      | (Panics m, s') \<Rightarrow> (Panics m, s'))"

definition expire :: "sqlenv \<Rightarrow> ('s \<Rightarrow> tables) \<Rightarrow> ('s, 'm) crud_API \<Rightarrow> gotime \<Rightarrow> 's \<Rightarrow> error option outcome \<times> 's" where
  "expire env tabs_of api now s =
     (let toExpire = snd (snd (WithTx env
           (\<lambda>(tabs, _). (Returns (Inl ErrRollback :: unit result), (tabs, findExpiredPeers env now tabs)))
           (tabs_of s, [])))
      in expirePeers api toExpire None s)"

text \<open>The loop of \<^verbatim>\<open>Expire\<close> over its ticks, each with its time, until the context is done.\<close>

fun Expire_loop :: "sqlenv \<Rightarrow> ('s \<Rightarrow> tables) \<Rightarrow> ('s, 'm) crud_API \<Rightarrow> gotime list \<Rightarrow> 's \<Rightarrow> unit outcome \<times> 's" where
  "Expire_loop env tabs_of api [] s = (Returns (), s)"
| "Expire_loop env tabs_of api (now # ticks) s =
     (case expire env tabs_of api now s of
        (Returns _, s') \<Rightarrow> Expire_loop env tabs_of api ticks s'
      | (Blocks, s') \<Rightarrow> (Blocks, s')
      | (Panics m, s') \<Rightarrow> (Panics m, s'))"

lemma findExpiredPeers_none: "findExpiredPeers env now tabs = []"
proof -
  have "expired_loop rows [] = []" for rows by (induction rows) (simp_all split: sum.splits)
  then show ?thesis by (simp add: findExpiredPeers_def split: sum.splits)
qed

lemma expire_nothing: "expire env tabs_of api now s = (Returns None, s)"
proof -
  have "snd (snd (WithTx env
      (\<lambda>(tabs, _). (Returns (Inl ErrRollback :: unit result), (tabs, findExpiredPeers env now tabs))) (tabs, []))) = []"
    for tabs
    by (simp add: WithTx_def findExpiredPeers_none split: option.splits)
  then show ?thesis unfolding expire_def Let_def by simp
qed

text \<open>
  C37: peers never expire. However long the loop runs and whatever peers are past their time,
  no peer is deleted: the list of expired keys is read but not filled.
\<close>

theorem peers_never_expire: "Expire_loop env tabs_of api ticks s = (Returns (), s)"
  by (induction ticks) (simp_all add: expire_nothing)

end
