(* ===== verification/Sessions.thy ===== *)
theory Sessions
  imports Auth
begin

text \<open>
  Sessions of peers (package \<^verbatim>\<open>datastore/sessions\<close>): the finder that turns the statistics of
  the gateways into sessions, their storage, and the HTTP interface. The GeoIP databases are
  arguments.
\<close>

section \<open>Data\<close>

record PeerStats =
  pst_PublicKey :: string
  pst_LastHandshakeTime :: gotime
  pst_RxBytes :: int
  pst_TxBytes :: int
  pst_Endpoint :: string

record Session =
  sess_PeerPublicKey :: string
  sess_SrcASNum :: string
  sess_SrcASOrg :: string
  sess_SrcCountry :: string
  sess_Begin :: gotime
  sess_End :: gotime
  sess_Active :: bool

definition Session_zero :: Session where
  "Session_zero =
     \<lparr>sess_PeerPublicKey = [], sess_SrcASNum = [], sess_SrcASOrg = [], sess_SrcCountry = [],
      sess_Begin = 0, sess_End = 0, sess_Active = False\<rparr>"

definition Session_fields :: "Session \<Rightarrow> row" where
  "Session_fields s =
     [(''peer_public_key'', SText (sess_PeerPublicKey s)), (''src_as_num'', SText (sess_SrcASNum s)),
      (''src_as_org'', SText (sess_SrcASOrg s)), (''src_country'', SText (sess_SrcCountry s)),
      (''begin_timestamp'', STime (sess_Begin s)), (''end_timestamp'', STime (sess_End s)),
      (''active'', SInt (if sess_Active s then 1 else 0))]"

definition Session_scan_col :: "Session \<Rightarrow> string \<Rightarrow> sqlval \<Rightarrow> Session result" where
  "Session_scan_col s c v =
     (if c = ''peer_public_key'' then put_field (\<lambda>x. s\<lparr>sess_PeerPublicKey := x\<rparr>) (scan_string v)
      else if c = ''src_as_num'' then put_field (\<lambda>x. s\<lparr>sess_SrcASNum := x\<rparr>) (scan_string v)
      else if c = ''src_as_org'' then put_field (\<lambda>x. s\<lparr>sess_SrcASOrg := x\<rparr>) (scan_string v)
      else if c = ''src_country'' then put_field (\<lambda>x. s\<lparr>sess_SrcCountry := x\<rparr>) (scan_string v)
      else if c = ''begin_timestamp'' then put_field (\<lambda>x. s\<lparr>sess_Begin := x\<rparr>) (scan_time v)
      else if c = ''end_timestamp'' then put_field (\<lambda>x. s\<lparr>sess_End := x\<rparr>) (scan_time v)
      else if c = ''active'' then put_field (\<lambda>x. s\<lparr>sess_Active := (x \<noteq> 0)\<rparr>) (scan_int v)
      else Inl ErrMissingField)"

definition Session_MarshalJSON :: "Session \<Rightarrow> json" where
  "Session_MarshalJSON s =
     JObj [(''peer_public_key'', JStr (sess_PeerPublicKey s)), (''src_as_num'', JStr (sess_SrcASNum s)),
       (''src_as_org'', JStr (sess_SrcASOrg s)), (''src_country'', JStr (sess_SrcCountry s)),
       (''begin'', JTime (sess_Begin s)), (''end'', JTime (sess_End s)), (''active'', JBool (sess_Active s))]"

section \<open>GeoIP\<close>

text \<open>
  \<^verbatim>\<open>net.ParseIP\<close>: the first dot or colon of the text decides which form it is read as.
\<close>

definition net_ParseIP :: "string \<Rightarrow> IP option" where
  "net_ParseIP s =
     (case find (\<lambda>c. c = CHR ''.'' \<or> c = CHR '':'') s of
        None \<Rightarrow> None
      | Some c \<Rightarrow> if c = CHR ''.'' then parseIPv4 s else parseIPv6 s)"

record georecord =
  geo_ISOCode :: string
  geo_ASNumber :: string
  geo_ASOrganization :: string

type_synonym geodb = "IP \<Rightarrow> georecord result"

definition defaultGeoIPPaths :: "string list" where
  "defaultGeoIPPaths = [''/var/lib/GeoIP/GeoLite2-Country.mmdb'', ''/var/lib/GeoIP/GeoLite2-ASN.mmdb'']"

fun open_geo :: "(string \<Rightarrow> bool) \<Rightarrow> (string \<Rightarrow> geodb result) \<Rightarrow> string list \<Rightarrow> geodb list \<Rightarrow> geodb list result" where
  "open_geo missing opn [] dbs = Inr dbs"
| "open_geo missing opn (path # paths) dbs =
     (if missing path then open_geo missing opn paths dbs
      else
        (case opn path of
           Inl e \<Rightarrow> Inl e
         | Inr geo \<Rightarrow> open_geo missing opn paths (dbs @ [geo])))"

definition newIPRefiner :: "(string \<Rightarrow> bool) \<Rightarrow> (string \<Rightarrow> geodb result) \<Rightarrow> string list \<Rightarrow> geodb list result" where
  "newIPRefiner missing opn paths = open_geo missing opn (if length paths = 0 then defaultGeoIPPaths else paths) []"

fun refine :: "geodb list \<Rightarrow> IP \<Rightarrow> Session \<Rightarrow> Session" where
  "refine [] ip sess = sess"
| "refine (db # dbs) ip sess =
     (case db ip of
        Inl _ \<Rightarrow> refine dbs ip sess
      | Inr r \<Rightarrow>
          (let sess = (if geo_ISOCode r \<noteq> [] then sess\<lparr>sess_SrcCountry := geo_ISOCode r\<rparr> else sess);
               sess = (if geo_ASNumber r \<noteq> [] then sess\<lparr>sess_SrcASNum := geo_ASNumber r\<rparr> else sess);
               sess = (if geo_ASOrganization r \<noteq> [] then sess\<lparr>sess_SrcASOrg := geo_ASOrganization r\<rparr> else sess)
           in refine dbs ip sess))"

definition addIPInfo :: "geodb list \<Rightarrow> Session \<Rightarrow> string \<Rightarrow> Session" where
  "addIPInfo dbs sess ipStr = (case net_ParseIP ipStr of None \<Rightarrow> sess | Some ip \<Rightarrow> refine dbs ip sess)"

section \<open>Storage\<close>

definition active_cols :: "string list" where
  "active_cols = [''peer_public_key'', ''begin_timestamp'', ''end_timestamp'', ''src_as_num'', ''src_as_org'',
     ''src_country'', ''active'']"

definition completed_cols :: "string list" where
  "completed_cols = [''peer_public_key'', ''begin_timestamp'', ''end_timestamp'', ''src_as_num'', ''src_as_org'',
     ''src_country'']"

fun insert_sessions :: "sqlenv \<Rightarrow> Session list \<Rightarrow> tables \<Rightarrow> tables result" where
  "insert_sessions env [] tabs = Inr tabs"
| "insert_sessions env (s # ss) tabs =
     (case NamedExec env wig_catalog (InsertStmt ''active_sessions'' active_cols active_cols) (Session_fields s) tabs of
        Inl e \<Rightarrow> Inl e
      | Inr tabs' \<Rightarrow> insert_sessions env ss tabs')"

definition DumpActiveSessions :: "sqlenv \<Rightarrow> Session list \<Rightarrow> tables \<Rightarrow> tables result" where
  "DumpActiveSessions env sessions tabs =
     (case run_stmt env ''DELETE FROM active_sessions'' (sql_delete_all wig_catalog ''active_sessions'' tabs) of
        Inl e \<Rightarrow> Inl e
      | Inr tabs' \<Rightarrow> if length sessions > 0 then insert_sessions env sessions tabs' else Inr tabs')"

fun scan_sessions :: "row list \<Rightarrow> (string, Session) gomap \<Rightarrow> (string, Session) gomap" where
  "scan_sessions [] out = out"
| "scan_sessions (r # rs) out =
     (case scan_cols Session_scan_col Session_zero r of
        Inl _ \<Rightarrow> out
      | Inr sess \<Rightarrow> scan_sessions rs (map_put (sess_PeerPublicKey sess) sess out))"

text \<open>A query that fails gives a nil map.\<close>

definition GetActiveSessions :: "sqlenv \<Rightarrow> tables \<Rightarrow> (string, Session) gomap option" where
  "GetActiveSessions env tabs =
     (case run_stmt env ''SELECT * FROM active_sessions'' (Inr (tabs ''active_sessions'')) of
        Inl _ \<Rightarrow> None
      | Inr rows \<Rightarrow> Some (scan_sessions rows []))"

fun scan_handshakes :: "row list \<Rightarrow> (string, gotime) gomap \<Rightarrow> (string, gotime) gomap" where
  "scan_handshakes [] out = out"
| "scan_handshakes (r # rs) out =
     (case scan_string (cell r ''peer_public_key'') of
        Inl _ \<Rightarrow> out
      | Inr pk \<Rightarrow>
          (case scan_time (cell r ''last_handshake'') of
             Inl _ \<Rightarrow> out
           | Inr ht \<Rightarrow> scan_handshakes rs (map_put pk ht out)))"

definition GetLastHandshakeTimes :: "sqlenv \<Rightarrow> tables \<Rightarrow> (string, gotime) gomap option" where
  "GetLastHandshakeTimes env tabs =
     (case run_stmt env ''SELECT peer_public_key, last_handshake FROM active_sessions'' (Inr (tabs ''active_sessions'')) of
        Inl _ \<Rightarrow> None
      | Inr rows \<Rightarrow> Some (scan_handshakes rows []))"

definition WriteCompletedSession :: "sqlenv \<Rightarrow> Session \<Rightarrow> tables \<Rightarrow> tables result" where
  "WriteCompletedSession env sess tabs =
     NamedExec env wig_catalog (InsertStmt ''sessions'' completed_cols completed_cols) (Session_fields sess) tabs"

text \<open>The rows are scanned one by one, and the result is not extended.\<close>

definition begin_key :: "row \<Rightarrow> gotime" where
  "begin_key r = (case cell r ''begin_timestamp'' of STime t \<Rightarrow> t | _ \<Rightarrow> 0)"

fun find_sessions_loop :: "row list \<Rightarrow> Session list \<Rightarrow> Session list" where
  "find_sessions_loop [] out = out"
| "find_sessions_loop (r # rs) out =
     (case scan_cols Session_scan_col Session_zero r of
        Inl _ \<Rightarrow> find_sessions_loop rs out
      | Inr sess \<Rightarrow> find_sessions_loop rs out)"

definition sql_FindSessionsByPublicKey :: "sqlenv \<Rightarrow> string \<Rightarrow> nat \<Rightarrow> tables \<Rightarrow> Session list" where
  "sql_FindSessionsByPublicKey env pk limit tabs =
     (case run_stmt env ''SELECT * FROM sessions WHERE peer_public_key = ? ORDER BY begin_timestamp DESC LIMIT ?''
             (Inr (take limit (rev (sort_key begin_key
               (filter (\<lambda>r. col_eq_arg (cell r ''peer_public_key'') pk) (tabs ''sessions'')))))) of
        Inl _ \<Rightarrow> []
      | Inr rows \<Rightarrow> find_sessions_loop rows [])"

section \<open>The finder\<close>

definition sessionInactivityTimeout :: duration where
  "sessionInactivityTimeout = 600 * second"

text \<open>A map that was never made is \<open>None\<close>: it can be read, not written.\<close>

record SessionFinder =
  sf_refiner :: "geodb list"
  sf_activeSessions :: "(string, Session) gomap option"
  sf_lastHandshake :: "(string, gotime) gomap option"

definition nil_map :: string where
  "nil_map = ''assignment to entry in nil map''"

definition NewSessionFinder :: "sqlenv \<Rightarrow> (string \<Rightarrow> bool) \<Rightarrow> (string \<Rightarrow> geodb result) \<Rightarrow> tables \<Rightarrow> SessionFinder result" where
  "NewSessionFinder env missing opn tabs =
     (case newIPRefiner missing opn [] of
        Inl e \<Rightarrow> Inl e
      | Inr refiner \<Rightarrow>
          (let sf = \<lparr>sf_refiner = refiner, sf_activeSessions = None, sf_lastHandshake = None\<rparr>
           in case WithTx env
                (\<lambda>(tabs, sf). (Returns (Inl ErrRollback :: unit result),
                   (tabs, sf\<lparr>sf_activeSessions := GetActiveSessions env tabs,
                             sf_lastHandshake := GetLastHandshakeTimes env tabs\<rparr>)))
                (tabs, sf) of
                (_, (_, sf)) \<Rightarrow> Inr sf))"

definition ActiveSessions :: "string list \<Rightarrow> SessionFinder \<Rightarrow> Session list" where
  "ActiveSessions ord f =
     (case sf_activeSessions f of None \<Rightarrow> [] | Some m \<Rightarrow> [s. k \<leftarrow> ord, Some s \<leftarrow> [map_of m k]])"

text \<open>One tick of the goroutine that dumps the sessions; an error is only logged.\<close>

definition dumper_tick :: "sqlenv \<Rightarrow> string list \<Rightarrow> tables \<times> SessionFinder \<Rightarrow> tables \<times> SessionFinder" where
  "dumper_tick env ord s =
     snd (WithTx env
       (\<lambda>(tabs, f). case DumpActiveSessions env (ActiveSessions ord f) tabs of
          Inl e \<Rightarrow> (Returns (Inl e :: unit result), (tabs, f))
        | Inr tabs' \<Rightarrow> (Returns (Inr ()), (tabs', f))) s)"

definition ActiveSessionByPublicKey :: "string \<Rightarrow> SessionFinder \<Rightarrow> Session option" where
  "ActiveSessionByPublicKey pkey f = (case sf_activeSessions f of None \<Rightarrow> None | Some m \<Rightarrow> map_of m pkey)"

definition setHandshakeTime :: "string \<Rightarrow> gotime \<Rightarrow> SessionFinder \<Rightarrow> gotime outcome \<times> SessionFinder" where
  "setHandshakeTime pkey ht f =
     (case sf_lastHandshake f of
        None \<Rightarrow> (Panics nil_map, f)
      | Some m \<Rightarrow>
          (case map_of m pkey of
             Some prev \<Rightarrow>
               if ht < prev then (Returns prev, f) else (Returns ht, f\<lparr>sf_lastHandshake := Some (map_put pkey ht m)\<rparr>)
           | None \<Rightarrow> (Returns ht, f\<lparr>sf_lastHandshake := Some (map_put pkey ht m)\<rparr>)))"

definition Analyze :: "gotime \<Rightarrow> PeerStats \<Rightarrow> SessionFinder \<Rightarrow> Session option outcome \<times> SessionFinder" where
  "Analyze now s f =
     (case setHandshakeTime (pst_PublicKey s) (pst_LastHandshakeTime s) f of
        (Blocks, f) \<Rightarrow> (Blocks, f)
      | (Panics m, f) \<Rightarrow> (Panics m, f)
      | (Returns ht, f) \<Rightarrow>
          (let active = (now - sessionInactivityTimeout < ht)
           in case sf_activeSessions f of
                None \<Rightarrow> if active then (Panics nil_map, f) else (Returns None, f)
              | Some m \<Rightarrow>
                  (case map_of m (pst_PublicKey s) of
                     None \<Rightarrow>
                       if active then
                         (Returns None, f\<lparr>sf_activeSessions := Some (map_put (pst_PublicKey s)
                            (Session_zero\<lparr>sess_PeerPublicKey := pst_PublicKey s, sess_Begin := ht, sess_Active := True\<rparr>) m)\<rparr>)
                       else (Returns None, f)
                   | Some cur \<Rightarrow>
                       if \<not> active then
                         (Returns (Some (addIPInfo (sf_refiner f) (cur\<lparr>sess_End := ht, sess_Active := False\<rparr>)
                            (pst_Endpoint s))),
                          f\<lparr>sf_activeSessions := Some (map_delete (pst_PublicKey s) m)\<rparr>)
                       else (Returns None, f))))"

section \<open>The manager\<close>

fun receive_loop :: "sqlenv \<Rightarrow> gotime \<Rightarrow> PeerStats list \<Rightarrow> (tables, SessionFinder, unit) txbody" where
  "receive_loop env now [] s = (Returns (Inr ()), s)"
| "receive_loop env now (d # dump) (tabs, f) =
     (case Analyze now d f of
        (Blocks, f') \<Rightarrow> (Blocks, (tabs, f'))
      | (Panics m, f') \<Rightarrow> (Panics m, (tabs, f'))
      | (Returns None, f') \<Rightarrow> receive_loop env now dump (tabs, f')
      | (Returns (Some sess), f') \<Rightarrow>
          (case WriteCompletedSession env sess tabs of
             Inl e \<Rightarrow> (Returns (Inl e), (tabs, f'))
           | Inr tabs' \<Rightarrow> receive_loop env now dump (tabs', f')))"

definition ReceivePeerStats :: "sqlenv \<Rightarrow> gotime \<Rightarrow> PeerStats list \<Rightarrow> (tables, SessionFinder, unit) txbody" where
  "ReceivePeerStats env now dump = WithTx env (receive_loop env now dump)"

definition FindSessionsByPublicKey :: "sqlenv \<Rightarrow> string \<Rightarrow> tables \<times> SessionFinder \<Rightarrow> Session list" where
  "FindSessionsByPublicKey env pkey s =
     (let out = (case ActiveSessionByPublicKey pkey (snd s) of Some s \<Rightarrow> [s] | None \<Rightarrow> [])
      in snd (snd (WithTx env
           (\<lambda>(tabs, out). (Returns (Inl ErrRollback :: unit result), (tabs, out @ sql_FindSessionsByPublicKey env pkey 100 tabs)))
           (fst s, out))))"

section \<open>The HTTP interface\<close>

definition apiURLReceive :: string where
  "apiURLReceive = ''/api/v1/receive-stats''"

definition apiURLGetSessions :: string where
  "apiURLGetSessions = ''/api/v1/sessions/find''"

definition PeerStats_zero :: PeerStats where
  "PeerStats_zero =
     \<lparr>pst_PublicKey = [], pst_LastHandshakeTime = 0, pst_RxBytes = 0, pst_TxBytes = 0, pst_Endpoint = []\<rparr>"

definition PeerStats_MarshalJSON :: "PeerStats \<Rightarrow> json" where
  "PeerStats_MarshalJSON s =
     JObj [(''public_key'', JStr (pst_PublicKey s)), (''last_handshake_time'', JTime (pst_LastHandshakeTime s)),
       (''rx_bytes'', JInt (pst_RxBytes s)), (''tx_bytes'', JInt (pst_TxBytes s)), (''endpoint'', JStr (pst_Endpoint s))]"

definition PeerStats_set :: "PeerStats \<Rightarrow> string \<Rightarrow> json \<Rightarrow> PeerStats result" where
  "PeerStats_set s k v =
     (if key_eq k ''public_key'' then put_field (\<lambda>x. s\<lparr>pst_PublicKey := x\<rparr>) (dec_string (pst_PublicKey s) v)
      else if key_eq k ''last_handshake_time'' then
        put_field (\<lambda>x. s\<lparr>pst_LastHandshakeTime := x\<rparr>) (dec_time (pst_LastHandshakeTime s) v)
      else if key_eq k ''rx_bytes'' then put_field (\<lambda>x. s\<lparr>pst_RxBytes := x\<rparr>) (dec_int (pst_RxBytes s) v)
      else if key_eq k ''tx_bytes'' then put_field (\<lambda>x. s\<lparr>pst_TxBytes := x\<rparr>) (dec_int (pst_TxBytes s) v)
      else if key_eq k ''endpoint'' then put_field (\<lambda>x. s\<lparr>pst_Endpoint := x\<rparr>) (dec_string (pst_Endpoint s) v)
      else Inr s)"

fun dec_all :: "(json \<Rightarrow> 'a result) \<Rightarrow> json list \<Rightarrow> 'a list result" where
  "dec_all d [] = Inr []"
| "dec_all d (j # js) =
     (case d j of
        Inl e \<Rightarrow> Inl e
      | Inr x \<Rightarrow> (case dec_all d js of Inl e \<Rightarrow> Inl e | Inr xs \<Rightarrow> Inr (x # xs)))"

fun dec_slice :: "(json \<Rightarrow> 'a result) \<Rightarrow> json \<Rightarrow> 'a list result" where
  "dec_slice d JNull = Inr []"
| "dec_slice d (JArr js) = dec_all d js"
| "dec_slice d _ = Inl ErrUnmarshal"

definition dec_dump :: "chunk list \<Rightarrow> PeerStats list result" where
  "dec_dump body =
     (case body_decode body of
        Inl e \<Rightarrow> Inl e
      | Inr j \<Rightarrow> dec_slice (dec_struct PeerStats_set PeerStats_zero) j)"

definition handleReceive :: "sqlenv \<Rightarrow> gotime \<Rightarrow> (tables \<times> SessionFinder) handler" where
  "handleReceive env now =
     ServeJSON errorRegistry dec_dump
       (\<lambda>dump s. case ReceivePeerStats env now dump s of
          (Returns (Inl e), s') \<Rightarrow> (Returns (Inl e), s')
        | (Returns (Inr _), s') \<Rightarrow> (Returns (Inr None), s')
        | (Blocks, s') \<Rightarrow> (Blocks, s')
        | (Panics m, s') \<Rightarrow> (Panics m, s'))"

text \<open>A missing form value is the empty string; a nil slice is written as null.\<close>

definition FormValue :: "http_request \<Rightarrow> string \<Rightarrow> string" where
  "FormValue req k = (case map_of (rq_query req) k of Some v \<Rightarrow> v | None \<Rightarrow> [])"

definition sessions_json :: "Session list \<Rightarrow> json" where
  "sessions_json ss = (if ss = [] then JNull else JArr (map Session_MarshalJSON ss))"

definition handleGetSessions :: "sqlenv \<Rightarrow> (tables \<times> SessionFinder) handler" where
  "handleGetSessions env req =
     ServeJSON errorRegistry (\<lambda>_. Inr ())
       (\<lambda>_ s. let pkey = FormValue req ''pkey''
          in if pkey = [] then (Returns (Inl (ErrMsg ''no 'pkey' argument'')), s)
             else (Returns (Inr (Some (sessions_json (FindSessionsByPublicKey env pkey s)))), s)) req"

definition Sessions_BuildAPI :: "sqlenv \<Rightarrow> gotime \<Rightarrow> ('s \<Rightarrow> tables \<times> SessionFinder) \<Rightarrow>
    (tables \<times> SessionFinder \<Rightarrow> 's \<Rightarrow> 's) \<Rightarrow> 's API \<Rightarrow> 's API" where
  "Sessions_BuildAPI env now get put api =
     API_Handle apiURLReceive (WithAuth api ''write-sessions'' (on_part get put (handleReceive env now)))
       (API_Handle apiURLGetSessions (WithAuth api ''read-sessions'' (on_part get put (handleGetSessions env))) api)"

text \<open>The client the gateways use. Without any peers the dump is a nil slice.\<close>

definition stats_json :: "PeerStats list \<Rightarrow> json" where
  "stats_json stats = (if stats = [] then JNull else JArr (map PeerStats_MarshalJSON stats))"

definition stub_ReceivePeerStats :: "'w network \<Rightarrow> string \<Rightarrow> PeerStats list \<Rightarrow> 'w \<Rightarrow> unit result outcome \<times> 'w" where
  "stub_ReceivePeerStats client uri stats =
     Do errorRegistry client ''POST'' (uri @ apiURLReceive) []
       (Some (stats_json stats)) (\<lambda>_. Inr ())"

definition Session_set :: "Session \<Rightarrow> string \<Rightarrow> json \<Rightarrow> Session result" where
  "Session_set s k v =
     (if key_eq k ''peer_public_key'' then put_field (\<lambda>x. s\<lparr>sess_PeerPublicKey := x\<rparr>) (dec_string (sess_PeerPublicKey s) v)
      else if key_eq k ''src_as_num'' then put_field (\<lambda>x. s\<lparr>sess_SrcASNum := x\<rparr>) (dec_string (sess_SrcASNum s) v)
      else if key_eq k ''src_as_org'' then put_field (\<lambda>x. s\<lparr>sess_SrcASOrg := x\<rparr>) (dec_string (sess_SrcASOrg s) v)
      else if key_eq k ''src_country'' then put_field (\<lambda>x. s\<lparr>sess_SrcCountry := x\<rparr>) (dec_string (sess_SrcCountry s) v)
      else if key_eq k ''begin'' then put_field (\<lambda>x. s\<lparr>sess_Begin := x\<rparr>) (dec_time (sess_Begin s) v)
      else if key_eq k ''end'' then put_field (\<lambda>x. s\<lparr>sess_End := x\<rparr>) (dec_time (sess_End s) v)
      else if key_eq k ''active'' then
        put_field (\<lambda>x. s\<lparr>sess_Active := x\<rparr>)
          (case v of JBool b \<Rightarrow> Inr b | JNull \<Rightarrow> Inr (sess_Active s) | _ \<Rightarrow> Inl ErrUnmarshal)
      else Inr s)"

definition stub_GetSessions :: "'w network \<Rightarrow> string \<Rightarrow> string \<Rightarrow> 'w \<Rightarrow> Session list result outcome \<times> 'w" where
  "stub_GetSessions client uri pkey =
     Do errorRegistry client ''GET'' (uri @ apiURLGetSessions) [] None
       (\<lambda>body. case body_decode body of
          Inl e \<Rightarrow> Inl e
        | Inr j \<Rightarrow> dec_slice (dec_struct Session_set Session_zero) j)"

section \<open>The history of a peer\<close>

text \<open>A run of the finder over reports, each with the time it is processed at.\<close>

fun analyze_all :: "(gotime \<times> PeerStats) list \<Rightarrow> SessionFinder \<Rightarrow> Session list outcome \<times> SessionFinder" where
  "analyze_all [] f = (Returns [], f)"
| "analyze_all ((now, s) # evs) f =
     (case Analyze now s f of
        (Blocks, f') \<Rightarrow> (Blocks, f')
      | (Panics m, f') \<Rightarrow> (Panics m, f')
      | (Returns r, f') \<Rightarrow>
          (case analyze_all evs f' of
             (Returns ss, f'') \<Rightarrow> (Returns (case r of None \<Rightarrow> ss | Some s \<Rightarrow> s # ss), f'')
           | (Blocks, f'') \<Rightarrow> (Blocks, f'')
           | (Panics m, f'') \<Rightarrow> (Panics m, f'')))"

lemma refine_keeps:
  "sess_PeerPublicKey (refine dbs ip s) = sess_PeerPublicKey s" "sess_Begin (refine dbs ip s) = sess_Begin s"
  "sess_End (refine dbs ip s) = sess_End s" "sess_Active (refine dbs ip s) = sess_Active s"
  by (induction dbs arbitrary: s) (simp_all add: Let_def split: sum.splits)

lemma addIPInfo_keeps [simp]:
  "sess_PeerPublicKey (addIPInfo dbs s ep) = sess_PeerPublicKey s" "sess_Begin (addIPInfo dbs s ep) = sess_Begin s"
  "sess_End (addIPInfo dbs s ep) = sess_End s" "sess_Active (addIPInfo dbs s ep) = sess_Active s"
  by (simp_all add: addIPInfo_def refine_keeps split: option.splits)

text \<open>
  What the finder knows, with the handshakes \<open>R\<close> reported so far and, for every peer, a time
  \<open>past\<close> at which its last completed session was over: an active session began later than
  that, with a handshake that is not later than the last one.
\<close>

definition session_ok :: "(string \<times> gotime) set \<Rightarrow> (string \<Rightarrow> gotime) \<Rightarrow> (string, gotime) gomap \<Rightarrow> string \<Rightarrow> Session \<Rightarrow> bool" where
  "session_ok R past l pk s =
     (sess_PeerPublicKey s = pk \<and> sess_Active s \<and> past pk < sess_Begin s \<and> (pk, sess_Begin s) \<in> R \<and>
      (\<exists>t. map_of l pk = Some t \<and> sess_Begin s \<le> t))"

definition finder_inv :: "(string \<times> gotime) set \<Rightarrow> (string \<Rightarrow> gotime) \<Rightarrow> SessionFinder \<Rightarrow> bool" where
  "finder_inv R past f =
     (\<exists>m l. sf_activeSessions f = Some m \<and> sf_lastHandshake f = Some l \<and>
       (\<forall>pk s. map_of m pk = Some s \<longrightarrow> session_ok R past l pk s) \<and>
       (\<forall>pk t. map_of l pk = Some t \<longrightarrow> (pk, t) \<in> R))"

text \<open>One report: the handshake that counts is the latest one known, and there are four edges.\<close>

lemma setHandshakeTime_inv:
  assumes "finder_inv R past f" "(pk, ht) \<in> R"
  obtains t f' where "setHandshakeTime pk ht f = (Returns t, f')" "finder_inv R past f'" "(pk, t) \<in> R"
    "sf_activeSessions f' = sf_activeSessions f" "sf_refiner f' = sf_refiner f" "map_of (the (sf_lastHandshake f')) pk = Some t"
proof -
  from assms(1) obtain m l where ml: "sf_activeSessions f = Some m" "sf_lastHandshake f = Some l"
    and act: "\<forall>pk s. map_of m pk = Some s \<longrightarrow> session_ok R past l pk s" and lst: "\<forall>pk t. map_of l pk = Some t \<longrightarrow> (pk, t) \<in> R"
    unfolding finder_inv_def by blast
  show thesis
  proof (cases "\<exists>t. map_of l pk = Some t \<and> ht < t")
    case True
    then obtain t where "map_of l pk = Some t" "ht < t" by blast
    then show thesis using that [of t f] ml assms(1) lst by (simp add: setHandshakeTime_def)
  next
    case False
    let ?f = "f\<lparr>sf_lastHandshake := Some (map_put pk ht l)\<rparr>"
    have "setHandshakeTime pk ht f = (Returns ht, ?f)"
      using False ml by (simp add: setHandshakeTime_def split: option.split)
    moreover have "finder_inv R past ?f"
      unfolding finder_inv_def using ml act lst assms(2) False by (fastforce simp: session_ok_def)
    ultimately show thesis using that [of ht ?f] assms(2) by simp
  qed
qed

lemma finder_inv_begin:
  assumes "finder_inv R past f" "sf_activeSessions f = Some m" "map_of (the (sf_lastHandshake f)) pk = Some t" "past pk < t" "(pk, t) \<in> R"
  shows "finder_inv R past (f\<lparr>sf_activeSessions := Some (map_put pk
    (Session_zero\<lparr>sess_PeerPublicKey := pk, sess_Begin := t, sess_Active := True\<rparr>) m)\<rparr>)"
  using assms unfolding finder_inv_def by (auto simp: session_ok_def)

lemma finder_inv_end:
  assumes "finder_inv R past f" "sf_activeSessions f = Some m"
  shows "finder_inv R (past(pk := t)) (f\<lparr>sf_activeSessions := Some (map_delete pk m)\<rparr>)"
  using assms unfolding finder_inv_def by (auto simp: session_ok_def split: if_splits)

lemma Analyze_inv:
  assumes "finder_inv R past f" "(pst_PublicKey s, pst_LastHandshakeTime s) \<in> R"
    and "\<forall>pk. past pk \<le> now - sessionInactivityTimeout"
  obtains r f' past' where "Analyze now s f = (Returns r, f')" "finder_inv R past' f'"
    "\<forall>pk. past pk \<le> past' pk \<and> past' pk \<le> now - sessionInactivityTimeout"
    "case r of None \<Rightarrow> past' = past
     | Some c \<Rightarrow> \<not> sess_Active c \<and> past (sess_PeerPublicKey c) < sess_Begin c \<and> sess_Begin c \<le> sess_End c \<and>
         sess_End c = past' (sess_PeerPublicKey c) \<and>
         (sess_PeerPublicKey c, sess_Begin c) \<in> R \<and> (sess_PeerPublicKey c, sess_End c) \<in> R"
proof -
  let ?pk = "pst_PublicKey s"
  obtain t f1 where t: "setHandshakeTime ?pk (pst_LastHandshakeTime s) f = (Returns t, f1)"
    "finder_inv R past f1" "(?pk, t) \<in> R" "map_of (the (sf_lastHandshake f1)) ?pk = Some t"
    by (rule setHandshakeTime_inv [OF assms(1,2)])
  from t(2) obtain m l where ml: "sf_activeSessions f1 = Some m" "sf_lastHandshake f1 = Some l"
    and act: "\<forall>pk s. map_of m pk = Some s \<longrightarrow> session_ok R past l pk s"
    unfolding finder_inv_def by blast
  have l: "map_of l ?pk = Some t" using t(4) ml(2) by simp
  let ?active = "now - sessionInactivityTimeout < t"
  show thesis
  proof (cases "map_of m ?pk")
    case None
    show thesis
    proof (cases ?active)
      case True
      let ?new = "Session_zero\<lparr>sess_PeerPublicKey := ?pk, sess_Begin := t, sess_Active := True\<rparr>"
      let ?f = "f1\<lparr>sf_activeSessions := Some (map_put ?pk ?new m)\<rparr>"
      have "Analyze now s f = (Returns None, ?f)" using None True t(1) ml by (simp add: Analyze_def)
      moreover have "past ?pk < t" using True assms(3) by (meson le_less_trans)
      then have "finder_inv R past ?f" by (rule finder_inv_begin [OF t(2) ml(1) t(4) _ t(3)])
      ultimately show thesis using that [of None ?f past] assms(3) by simp
    next
      case False
      then have "Analyze now s f = (Returns None, f1)" using None t(1) ml by (simp add: Analyze_def)
      then show thesis using that [of None f1 past] t(2) assms(3) by simp
    qed
  next
    case (Some cur)
    then have cur: "sess_PeerPublicKey cur = ?pk" "past ?pk < sess_Begin cur" "(?pk, sess_Begin cur) \<in> R" "sess_Begin cur \<le> t"
      using act [rule_format, OF Some] l by (auto simp: session_ok_def)
    show thesis
    proof (cases ?active)
      case True
      then have "Analyze now s f = (Returns None, f1)" using Some t(1) ml by (simp add: Analyze_def)
      then show thesis using that [of None f1 past] t(2) assms(3) by simp
    next
      case False
      let ?c = "addIPInfo (sf_refiner f1) (cur\<lparr>sess_End := t, sess_Active := False\<rparr>) (pst_Endpoint s)"
      let ?f = "f1\<lparr>sf_activeSessions := Some (map_delete ?pk m)\<rparr>" and ?past = "past(?pk := t)"
      have "Analyze now s f = (Returns (Some ?c), ?f)" using Some False t(1) ml by (simp add: Analyze_def)
      moreover have "finder_inv R ?past ?f" by (rule finder_inv_end [OF t(2) ml(1)])
      ultimately show thesis using that [of "Some ?c" ?f ?past] cur t(3) False assms(3) by auto
    qed
  qed
qed

definition history_ok :: "(string \<times> gotime) set \<Rightarrow> (string \<Rightarrow> gotime) \<Rightarrow> Session list \<Rightarrow> bool" where
  "history_ok R past ss =
     ((\<forall>pk. sorted_wrt (\<lambda>a b. sess_End a < sess_Begin b) (filter (\<lambda>s. sess_PeerPublicKey s = pk) ss)) \<and>
     (\<forall>s\<in>set ss. \<not> sess_Active s \<and> past (sess_PeerPublicKey s) < sess_Begin s \<and> sess_Begin s \<le> sess_End s \<and>
        (sess_PeerPublicKey s, sess_Begin s) \<in> R \<and> (sess_PeerPublicKey s, sess_End s) \<in> R))"

lemma history_mono: "history_ok R past' ss \<Longrightarrow> \<forall>pk. past pk \<le> past' pk \<Longrightarrow> history_ok R past ss"
  unfolding history_ok_def by (meson order.strict_trans1)

lemma history_Cons:
  assumes "history_ok R past' ss" "\<forall>pk. past pk \<le> past' pk"
    and "\<not> sess_Active c" "past (sess_PeerPublicKey c) < sess_Begin c" "sess_Begin c \<le> sess_End c"
      "sess_End c = past' (sess_PeerPublicKey c)"
      "(sess_PeerPublicKey c, sess_Begin c) \<in> R" "(sess_PeerPublicKey c, sess_End c) \<in> R"
  shows "history_ok R past (c # ss)"
  using assms history_mono [OF assms(1,2)] unfolding history_ok_def by auto

lemma analyze_all_history:
  assumes "finder_inv R past f" "sorted (map fst evs)"
    and "\<forall>(now, s)\<in>set evs. (pst_PublicKey s, pst_LastHandshakeTime s) \<in> R"
    and "\<forall>now\<in>fst ` set evs. \<forall>pk. past pk \<le> now - sessionInactivityTimeout"
  shows "\<exists>ss f' past'. analyze_all evs f = (Returns ss, f') \<and> history_ok R past ss \<and> finder_inv R past' f' \<and>
    (\<forall>pk. past pk \<le> past' pk) \<and> (\<forall>s\<in>set ss. sess_End s \<le> past' (sess_PeerPublicKey s))"
  using assms
proof (induction evs arbitrary: f past)
  case Nil
  then show ?case by (auto simp: history_ok_def)
next
  case (Cons e evs)
  obtain now s where e: "e = (now, s)" by (cases e)
  have now: "\<forall>pk. past pk \<le> now - sessionInactivityTimeout" "\<forall>now'\<in>fst ` set evs. now \<le> now'"
    using Cons.prems(2,4) e by auto
  have mem: "(pst_PublicKey s, pst_LastHandshakeTime s) \<in> R" using Cons.prems(3) e by simp
  obtain r f1 past1 where r: "Analyze now s f = (Returns r, f1)" "finder_inv R past1 f1"
    "\<forall>pk. past pk \<le> past1 pk \<and> past1 pk \<le> now - sessionInactivityTimeout"
    "case r of None \<Rightarrow> past1 = past
     | Some c \<Rightarrow> \<not> sess_Active c \<and> past (sess_PeerPublicKey c) < sess_Begin c \<and> sess_Begin c \<le> sess_End c \<and>
         sess_End c = past1 (sess_PeerPublicKey c) \<and>
         (sess_PeerPublicKey c, sess_Begin c) \<in> R \<and> (sess_PeerPublicKey c, sess_End c) \<in> R"
    by (rule Analyze_inv [OF Cons.prems(1) mem now(1)])
  have "\<forall>now'\<in>fst ` set evs. \<forall>pk. past1 pk \<le> now' - sessionInactivityTimeout"
    using r(3) now(2) by (meson diff_right_mono order_trans)
  then obtain ss f2 past2 where ss: "analyze_all evs f1 = (Returns ss, f2)" "history_ok R past1 ss" "finder_inv R past2 f2"
    "\<forall>pk. past1 pk \<le> past2 pk" "\<forall>s\<in>set ss. sess_End s \<le> past2 (sess_PeerPublicKey s)"
    using Cons.IH [OF r(2)] Cons.prems(2,3) by auto
  have "history_ok R past (case r of None \<Rightarrow> ss | Some c \<Rightarrow> c # ss)"
    using r(3,4) ss(2) by (cases r) (auto intro: history_mono history_Cons)
  moreover have "\<forall>pk. past pk \<le> past2 pk" using r(3) ss(4) by (meson order_trans)
  moreover have "\<forall>c\<in>set (case r of None \<Rightarrow> ss | Some c \<Rightarrow> c # ss). sess_End c \<le> past2 (sess_PeerPublicKey c)"
    using r(4) ss(4,5) by (cases r) auto
  ultimately show ?case using r(1) ss(1,3) e by auto
qed

text \<open>
  C20: the finder builds a linear history for every peer. Whatever the gateways report, in
  whatever order, as long as the clock does not go back the completed sessions of a peer are
  intervals between handshakes that were reported for it, one strictly after the other, and
  an active session begins after all of them.
\<close>

theorem sessions_form_history:
  assumes "sf_activeSessions f = Some []" "sf_lastHandshake f = Some []" "sorted (map fst evs)"
  shows "\<exists>ss f'. analyze_all evs f = (Returns ss, f') \<and>
    (\<forall>pk. sorted_wrt (\<lambda>a b. sess_End a < sess_Begin b) (filter (\<lambda>s. sess_PeerPublicKey s = pk) ss)) \<and>
    (\<forall>s\<in>set ss. \<not> sess_Active s \<and> sess_Begin s \<le> sess_End s \<and>
      (\<exists>(now, st)\<in>set evs. pst_PublicKey st = sess_PeerPublicKey s \<and> pst_LastHandshakeTime st = sess_Begin s) \<and>
      (\<exists>(now, st)\<in>set evs. pst_PublicKey st = sess_PeerPublicKey s \<and> pst_LastHandshakeTime st = sess_End s)) \<and>
    (\<forall>pk a. ActiveSessionByPublicKey pk f' = Some a \<longrightarrow>
      (\<forall>s\<in>set ss. sess_PeerPublicKey s = pk \<longrightarrow> sess_End s < sess_Begin a))"
proof -
  let ?R = "(\<lambda>(now, s). (pst_PublicKey s, pst_LastHandshakeTime s)) ` set evs"
  let ?past = "\<lambda>_ :: string. (case evs of [] \<Rightarrow> 0 | e # _ \<Rightarrow> fst e - sessionInactivityTimeout)"
  have inv: "finder_inv ?R ?past f" using assms(1,2) by (simp add: finder_inv_def)
  have ev: "\<forall>(now, s)\<in>set evs. (pst_PublicKey s, pst_LastHandshakeTime s) \<in> ?R" by force
  have "\<forall>now\<in>fst ` set evs. \<forall>pk. ?past pk \<le> now - sessionInactivityTimeout"
    using assms(3) by (cases evs) auto
  then obtain ss f' past' where ss: "analyze_all evs f = (Returns ss, f')" "history_ok ?R ?past ss" "finder_inv ?R past' f'"
    "\<forall>s\<in>set ss. sess_End s \<le> past' (sess_PeerPublicKey s)"
    using analyze_all_history [OF inv assms(3) ev] by auto
  have "sess_End s < sess_Begin a" if "ActiveSessionByPublicKey (sess_PeerPublicKey s) f' = Some a" "s \<in> set ss" for a s
    using ss(3,4) that by (force simp: finder_inv_def session_ok_def ActiveSessionByPublicKey_def)
  with ss(1,2) show ?thesis
    by (intro exI [of _ ss] exI [of _ f']) (fastforce simp: history_ok_def)
qed

definition sample_stats :: "gotime \<Rightarrow> PeerStats" where
  "sample_stats t = PeerStats_zero\<lparr>pst_PublicKey := ''pk1'', pst_LastHandshakeTime := t\<rparr>"

theorem sessions_form_history_witness:
  "\<exists>ss f'. analyze_all [(0, sample_stats 0), (600 * second, sample_stats (300 * second)), (1200 * second, sample_stats (300 * second))]
      \<lparr>sf_refiner = [], sf_activeSessions = Some [], sf_lastHandshake = Some []\<rparr> = (Returns ss, f') \<and>
    (\<forall>s\<in>set ss. \<not> sess_Active s \<and> sess_Begin s \<le> sess_End s) \<and> length ss = 1"
proof -
  let ?evs = "[(0, sample_stats 0), (600 * second, sample_stats (300 * second)), (1200 * second, sample_stats (300 * second))]"
  let ?f = "\<lparr>sf_refiner = [], sf_activeSessions = Some [], sf_lastHandshake = Some []\<rparr>"
  have "sorted (map fst ?evs)" by (simp add: second_def)
  from sessions_form_history [OF _ _ this, of ?f] obtain ss f' where
    ss: "analyze_all ?evs ?f = (Returns ss, f')" "\<forall>s\<in>set ss. \<not> sess_Active s \<and> sess_Begin s \<le> sess_End s" by auto
  moreover have "length ss = 1"
    using ss(1) by (auto simp: Analyze_def setHandshakeTime_def sample_stats_def PeerStats_zero_def
        sessionInactivityTimeout_def second_def split: if_splits)
  ultimately show ?thesis by blast
qed

section \<open>Storage and the interface\<close>

lemma sessions_lookup:
  "map_of (cat_tables wig_catalog) ''active_sessions'' = Some \<lparr>tb_cols =
     [col ''peer_public_key'' ''SMALLTEXT'', col ''begin_timestamp'' ''DATETIME'', col ''end_timestamp'' ''DATETIME'',
      col ''last_handshake'' ''DATETIME'', col ''active'' ''BOOL'', col ''src_country'' ''TEXT'',
      col ''src_as_num'' ''SMALLTEXT'', col ''src_as_org'' ''SMALLTEXT''], tb_fks = []\<rparr>"
  by (simp add: wig_catalog_def)

text \<open>A dumped row has no handshake time, but a column for it.\<close>

definition dumped :: "Session \<Rightarrow> row" where
  "dumped s =
     [(''peer_public_key'', SText (sess_PeerPublicKey s)), (''begin_timestamp'', STime (sess_Begin s)),
      (''end_timestamp'', STime (sess_End s)), (''last_handshake'', SNull),
      (''active'', SInt (if sess_Active s then 1 else 0)), (''src_country'', SText (sess_SrcCountry s)),
      (''src_as_num'', SText (sess_SrcASNum s)), (''src_as_org'', SText (sess_SrcASOrg s))]"

lemma insert_sessions_rows:
  "insert_sessions env ss tabs = Inr tabs' \<Longrightarrow>
   tabs' = tabs(''active_sessions'' := tabs ''active_sessions'' @ map dumped ss)"
proof (induction ss arbitrary: tabs)
  case (Cons s ss)
  then obtain t1 where t1: "NamedExec env wig_catalog (InsertStmt ''active_sessions'' active_cols active_cols)
      (Session_fields s) tabs = Inr t1" "insert_sessions env ss t1 = Inr tabs'"
    by (auto split: sum.splits)
  have "NamedExec sql_ok wig_catalog (InsertStmt ''active_sessions'' active_cols active_cols) (Session_fields s) tabs =
      Inr (tabs(''active_sessions'' := tabs ''active_sessions'' @ [dumped s]))"
    by (simp add: active_cols_def Session_fields_def sql_insert_def sessions_lookup col_defs notnull_ok_def pk_free_def
        pk_col_def fk_ok_def dumped_def Let_def)
  with NamedExec_env [OF t1(1)] have "t1 = tabs(''active_sessions'' := tabs ''active_sessions'' @ [dumped s])" by simp
  with Cons.IH [OF t1(2)] show ?case by (simp add: fun_eq_iff)
qed simp

lemma Dump_rows:
  assumes "DumpActiveSessions env ss tabs = Inr tabs'"
  shows "tabs' ''active_sessions'' = map dumped ss"
proof -
  obtain t1 where t1: "sql_delete_all wig_catalog ''active_sessions'' tabs = Inr t1"
    "tabs' = (if ss = [] then t1 else t1(''active_sessions'' := t1 ''active_sessions'' @ map dumped ss))"
    using assms insert_sessions_rows
    by (fastforce simp: DumpActiveSessions_def run_stmt_def split: sum.splits option.splits if_splits)
  then show ?thesis by (auto simp: sql_delete_all_def sessions_lookup cascade_wig)
qed

text \<open>
  C36: no session survives a restart. What the dumper wrote is never read back: the rows have
  a column for the last handshake that a \<^verbatim>\<open>Session\<close> has no field for, and the dumper leaves it
  empty, so that the new finder starts without active sessions and without handshake times.
\<close>

theorem restart_loses_sessions:
  assumes "DumpActiveSessions env ss tabs = Inr tabs'" "NewSessionFinder sql_ok missing opn tabs' = Inr f"
  shows "sf_activeSessions f = Some [] \<and> sf_lastHandshake f = Some []"
proof -
  have "scan_sessions (map dumped ss) [] = []"
    by (cases ss) (simp_all add: dumped_def Session_scan_col_def)
  moreover have "scan_handshakes (map dumped ss) [] = []"
    by (cases ss) (simp_all add: dumped_def)
  ultimately show ?thesis
    using assms(2) Dump_rows [OF assms(1)]
    by (auto simp: NewSessionFinder_def WithTx_def GetActiveSessions_def GetLastHandshakeTimes_def Let_def split: sum.splits)
qed

theorem restart_loses_sessions_witness:
  "\<exists>tabs f. DumpActiveSessions sql_ok [Session_zero] (\<lambda>_. []) = Inr tabs \<and> tabs ''active_sessions'' \<noteq> [] \<and>
     NewSessionFinder sql_ok (\<lambda>_. True) (\<lambda>_. Inl ErrUnmarshal) tabs = Inr f \<and> sf_activeSessions f = Some []"
proof -
  have "\<exists>tabs. DumpActiveSessions sql_ok [Session_zero] (\<lambda>_. []) = Inr tabs"
    by (simp add: DumpActiveSessions_def sql_delete_all_def sessions_lookup active_cols_def Session_fields_def sql_insert_def
        col_defs notnull_ok_def pk_free_def pk_col_def fk_ok_def Let_def)
  then obtain tabs where tabs: "DumpActiveSessions sql_ok [Session_zero] (\<lambda>_. []) = Inr tabs" by blast
  obtain f where f: "NewSessionFinder sql_ok (\<lambda>_. True) (\<lambda>_. Inl ErrUnmarshal) tabs = Inr f"
    by (simp add: NewSessionFinder_def newIPRefiner_def defaultGeoIPPaths_def WithTx_def Let_def)
  from restart_loses_sessions [OF tabs f] Dump_rows [OF tabs] tabs f show ?thesis by auto
qed

text \<open>Completed sessions are never found, and the client of the gateways never gets any session.\<close>

lemma find_sessions_nothing: "sql_FindSessionsByPublicKey env pk limit tabs = []"
proof -
  have "find_sessions_loop rows out = out" for rows out
    by (induction rows) (simp_all split: sum.splits)
  then show ?thesis by (simp add: sql_FindSessionsByPublicKey_def split: sum.splits)
qed

lemma get_sessions_without_key:
  "handleGetSessions env \<lparr>rq_method = m, rq_url = u, rq_query = [], rq_basic = b, rq_certs = c, rq_body = []\<rparr> w s =
   (Returns (), (HTTPError errorRegistry (ErrMsg ''no 'pkey' argument'') w, s))"
  by (simp add: handleGetSessions_def ServeJSON_def FormValue_def)

end
