(* ===== verification/Gateway.thy ===== *)
theory Gateway
  imports Follow Sessions
begin

text \<open>
  The gateway (package \<^verbatim>\<open>gateway\<close>): it follows the log and configures the WireGuard devices of
  its host. The kernel, reached through the packages \<^verbatim>\<open>netlink\<close> and \<^verbatim>\<open>wgctrl\<close>, is an argument:
  a record of the calls the program makes, on a state \<open>'k\<close>.
\<close>

section \<open>The kernel\<close>

record PeerConfig =
  pc_PublicKey :: string
  pc_Remove :: bool
  pc_UpdateOnly :: bool
  pc_PresharedKey :: "byte list option"
  pc_AllowedIPs :: "IPNet list"
  pc_ReplaceAllowedIPs :: bool
  pc_PersistentKeepaliveInterval :: "duration option"

record wgConfig =
  wc_PrivateKey :: "string option"
  wc_ListenPort :: "int option"
  wc_FirewallMark :: "int option"
  wc_ReplacePeers :: bool
  wc_Peers :: "PeerConfig list"

definition wgConfig_zero :: wgConfig where
  "wgConfig_zero =
     \<lparr>wc_PrivateKey = None, wc_ListenPort = None, wc_FirewallMark = None, wc_ReplacePeers = False, wc_Peers = []\<rparr>"

record wgPeer =
  wp_PublicKey :: string
  wp_LastHandshakeTime :: gotime
  wp_ReceiveBytes :: int
  wp_TransmitBytes :: int
  wp_Endpoint :: "IP option"

record 'k kernel =
  kn_LinkByName :: "string \<Rightarrow> 'k \<Rightarrow> bool"
  kn_LinkSetDown :: "string \<Rightarrow> 'k \<Rightarrow> error option \<times> 'k"
  kn_LinkDel :: "string \<Rightarrow> 'k \<Rightarrow> error option \<times> 'k"
  kn_LinkAdd :: "string \<Rightarrow> nat \<Rightarrow> 'k \<Rightarrow> error option \<times> 'k"
  kn_AddrAdd :: "string \<Rightarrow> IPNet \<Rightarrow> 'k \<Rightarrow> error option \<times> 'k"
  kn_LinkSetUp :: "string \<Rightarrow> 'k \<Rightarrow> error option \<times> 'k"
  kn_ConfigureDevice :: "string \<Rightarrow> wgConfig \<Rightarrow> 'k \<Rightarrow> error option \<times> 'k"
  kn_Device :: "string \<Rightarrow> 'k \<Rightarrow> wgPeer list result"

text \<open>Calls in sequence, the first error ending it.\<close>

type_synonym 'k action = "'k \<Rightarrow> error option \<times> 'k"

definition skip :: "'k action" where
  "skip k = (None, k)"

definition seq_calls :: "'k action \<Rightarrow> 'k action \<Rightarrow> 'k action" where
  "seq_calls a b k = (case a k of (Some e, k') \<Rightarrow> (Some e, k') | (None, k') \<Rightarrow> b k')"

definition wrap_call :: "string \<Rightarrow> 'k action \<Rightarrow> 'k action" where
  "wrap_call msg a k = (case a k of (Some e, k') \<Rightarrow> (Some (Wrapped msg e), k') | (None, k') \<Rightarrow> (None, k'))"

section \<open>Interfaces\<close>

definition delete_link :: "'k kernel \<Rightarrow> string \<Rightarrow> 'k action" where
  "delete_link kn name =
     seq_calls (wrap_call (''ip link set '' @ name @ '' down'') (kn_LinkSetDown kn name))
       (wrap_call (''ip del '' @ name) (kn_LinkDel kn name))"

definition add_addr :: "'k kernel \<Rightarrow> string \<Rightarrow> CIDR option \<Rightarrow> 'k action" where
  "add_addr kn name ip =
     (case ip of None \<Rightarrow> skip | Some n \<Rightarrow> wrap_call (''ip addr add '' @ name) (kn_AddrAdd kn name n))"

definition startInterface :: "'k kernel \<Rightarrow> Interface \<Rightarrow> 'k action" where
  "startInterface kn i =
     seq_calls (\<lambda>k. if kn_LinkByName kn (intf_Name i) k then delete_link kn (intf_Name i) k else (None, k))
       (seq_calls (wrap_call (''ip link add '' @ intf_Name i) (kn_LinkAdd kn (intf_Name i) 1420))
         (seq_calls (add_addr kn (intf_Name i) (intf_IP i))
           (seq_calls (add_addr kn (intf_Name i) (intf_IP6 i)) (kn_LinkSetUp kn (intf_Name i)))))"

definition stopInterface :: "'k kernel \<Rightarrow> Interface \<Rightarrow> 'k action" where
  "stopInterface kn i k = (if \<not> kn_LinkByName kn (intf_Name i) k then (None, k) else delete_link kn (intf_Name i) k)"

definition configureWGDevice :: "'k kernel \<Rightarrow> Interface \<Rightarrow> wgConfig \<Rightarrow> 'k action" where
  "configureWGDevice kn i cfg = kn_ConfigureDevice kn (intf_Name i) cfg"

definition wg_initialize :: "wgkeys \<Rightarrow> 'k kernel \<Rightarrow> Interface \<Rightarrow> 'k action" where
  "wg_initialize wg kn i k =
     (case wg_ParseKey wg (intf_PrivateKey i) of
        Inl e \<Rightarrow> (Some e, k)
      | Inr key \<Rightarrow>
          (let cfg = wgConfig_zero\<lparr>wc_PrivateKey := Some key, wc_ListenPort := Some (intf_Port i)\<rparr>;
               cfg = (if intf_Fwmark i > 0 then cfg\<lparr>wc_FirewallMark := Some (intf_Fwmark i)\<rparr> else cfg)
           in configureWGDevice kn i cfg k))"

definition newInterface :: "wgkeys \<Rightarrow> 'k kernel \<Rightarrow> Interface \<Rightarrow> 'k action" where
  "newInterface wg kn i = seq_calls (startInterface kn i) (wg_initialize wg kn i)"

text \<open>\<open>reconfigure\<close> also returns the interface the device now stands for.\<close>

definition reconfigure :: "wgkeys \<Rightarrow> 'k kernel \<Rightarrow> Interface \<Rightarrow> Interface \<Rightarrow> 'k \<Rightarrow> (error option \<times> Interface) \<times> 'k" where
  "reconfigure wg kn i intf k =
     (case stopInterface kn i k of
        (Some e, k') \<Rightarrow> ((Some e, i), k')
      | (None, k') \<Rightarrow>
          (case seq_calls (wg_initialize wg kn intf) (startInterface kn intf) k' of
             (err, k'') \<Rightarrow> ((err, intf), k'')))"

section \<open>Peers\<close>

definition persistentKeepaliveInterval :: duration where
  "persistentKeepaliveInterval = 10 * second"

definition allowed_ips :: "Peer \<Rightarrow> IPNet list" where
  "allowed_ips p = [n. Some n \<leftarrow> [peer_IP p, peer_IP6 p]]"

definition peerToConfig :: "wgkeys \<Rightarrow> Peer \<Rightarrow> bool \<Rightarrow> bool \<Rightarrow> PeerConfig result" where
  "peerToConfig wg peer update remove =
     (case wg_ParseKey wg (peer_PublicKey peer) of
        Inl e \<Rightarrow> Inl e
      | Inr key \<Rightarrow>
          (let c = \<lparr>pc_PublicKey = key, pc_Remove = remove, pc_UpdateOnly = update,
                    pc_PresharedKey = Some (replicate 32 0), pc_AllowedIPs = [],
                    pc_ReplaceAllowedIPs = False, pc_PersistentKeepaliveInterval = None\<rparr>
           in if \<not> remove then
                (if length (allowed_ips peer) = 0 then Inl (ErrMsg ''no IPs configured for peer'')
                 else Inr (c\<lparr>pc_AllowedIPs := allowed_ips peer, pc_ReplaceAllowedIPs := True,
                   pc_PersistentKeepaliveInterval := Some persistentKeepaliveInterval\<rparr>))
              else Inr c))"

section \<open>The gateway as a sink of the log\<close>

record Gateway =
  gw_intfs :: "(string, Interface) gomap"
  gw_peerIndex :: "(string, string) gomap"
  gw_seq :: Sequence

definition gateway_New :: Gateway where
  "gateway_New = \<lparr>gw_intfs = [], gw_peerIndex = [], gw_seq = 0\<rparr>"

text \<open>\<open>ord\<close> is the order in which the map of interfaces is iterated; errors are only logged.\<close>

fun closeAllInterfaces :: "'k kernel \<Rightarrow> (string, Interface) gomap \<Rightarrow> string list \<Rightarrow> 'k \<Rightarrow> 'k" where
  "closeAllInterfaces kn m [] k = k"
| "closeAllInterfaces kn m (n # ord) k =
     closeAllInterfaces kn m ord (case map_of m n of None \<Rightarrow> k | Some i \<Rightarrow> snd (stopInterface kn i k))"

definition gateway_Close :: "'k kernel \<Rightarrow> string list \<Rightarrow> Gateway \<times> 'k \<Rightarrow> 'k" where
  "gateway_Close kn ord s = closeAllInterfaces kn (gw_intfs (fst s)) ord (snd s)"

definition gateway_LatestSequence :: "Gateway \<times> 'k \<Rightarrow> Sequence" where
  "gateway_LatestSequence s = gw_seq (fst s)"

fun splitSnapshot :: "obj list \<Rightarrow> Interface list \<times> (string, Peer list) gomap \<Rightarrow> Interface list \<times> (string, Peer list) gomap" where
  "splitSnapshot [] acc = acc"
| "splitSnapshot (OInterface i # os) (intfs, peers) = splitSnapshot os (intfs @ [i], peers)"
| "splitSnapshot (OPeer p # os) (intfs, peers) =
     splitSnapshot os (intfs, map_put (peer_Interface p)
       ((case map_of peers (peer_Interface p) of Some ps \<Rightarrow> ps | None \<Rightarrow> []) @ [p]) peers)"
| "splitSnapshot (_ # os) acc = splitSnapshot os acc"

fun peer_configs :: "wgkeys \<Rightarrow> string \<Rightarrow> Peer list \<Rightarrow> (string, string) gomap \<Rightarrow> PeerConfig list \<Rightarrow>
    (PeerConfig list \<times> (string, string) gomap) result" where
  "peer_configs wg intf [] idx cfgs = Inr (cfgs, idx)"
| "peer_configs wg intf (p # ps) idx cfgs =
     (case peerToConfig wg p False False of
        Inl e \<Rightarrow> Inl e
      | Inr cfg \<Rightarrow> peer_configs wg intf ps (map_put (peer_PublicKey p) intf idx) (cfgs @ [cfg]))"

fun load_interfaces :: "wgkeys \<Rightarrow> 'k kernel \<Rightarrow> (string, Peer list) gomap \<Rightarrow> Interface list \<Rightarrow>
    (string, Interface) gomap \<times> (string, string) gomap \<Rightarrow> 'k \<Rightarrow>
    ((string, Interface) gomap \<times> (string, string) gomap) result \<times> 'k" where
  "load_interfaces wg kn peers [] acc k = (Inr acc, k)"
| "load_interfaces wg kn peers (i # is) (m, idx) k =
     (case newInterface wg kn i k of
        (Some e, k') \<Rightarrow> (Inl e, k')
      | (None, k') \<Rightarrow>
          (case peer_configs wg (intf_Name i) (case map_of peers (intf_Name i) of Some ps \<Rightarrow> ps | None \<Rightarrow> []) idx [] of
             Inl e \<Rightarrow> (Inl e, k')
           | Inr (cfgs, idx') \<Rightarrow>
               (case configureWGDevice kn i (wgConfig_zero\<lparr>wc_ReplacePeers := True, wc_Peers := cfgs\<rparr>) k' of
                  (Some e, k'') \<Rightarrow> (Inl e, k'')
                | (None, k'') \<Rightarrow> load_interfaces wg kn peers is (map_put (intf_Name i) i m, idx') k'')))"

definition gateway_LoadSnapshot :: "wgkeys \<Rightarrow> 'k kernel \<Rightarrow> string list \<Rightarrow> memSnapshot \<Rightarrow> Gateway \<times> 'k \<Rightarrow>
    unit result outcome \<times> (Gateway \<times> 'k)" where
  "gateway_LoadSnapshot wg kn ord snap s =
     (case s of (gw, k) \<Rightarrow>
        (case splitSnapshot (snap_Items snap) ([], []) of
           (intfs, peers) \<Rightarrow>
             (case load_interfaces wg kn peers intfs ([], []) (closeAllInterfaces kn (gw_intfs gw) ord k) of
                (Inl e, k') \<Rightarrow> (Returns (Inl e), (gw, k'))
              | (Inr (m, idx), k') \<Rightarrow>
                  (Returns (Inr ()), (\<lparr>gw_intfs = m, gw_peerIndex = idx, gw_seq = snap_SeqNum snap\<rparr>, k')))))"

definition applyInterface :: "wgkeys \<Rightarrow> 'k kernel \<Rightarrow> int \<Rightarrow> Interface \<Rightarrow> Gateway \<times> 'k \<Rightarrow> error option \<times> (Gateway \<times> 'k)" where
  "applyInterface wg kn opType intf s =
     (case s of (gw, k) \<Rightarrow>
        if opType = OpCreate then
          (if map_of (gw_intfs gw) (intf_Name intf) \<noteq> None then (Some (ErrMsg ''interface already exists''), s)
           else
             (case newInterface wg kn intf k of
                (Some e, k') \<Rightarrow> (Some e, (gw, k'))
              | (None, k') \<Rightarrow> (None, (gw\<lparr>gw_intfs := map_put (intf_Name intf) intf (gw_intfs gw)\<rparr>, k'))))
        else if opType = OpUpdate then
          (case map_of (gw_intfs gw) (intf_Name intf) of
             None \<Rightarrow> (Some (ErrMsg ''interface does not exist''), s)
           | Some i \<Rightarrow>
               (case reconfigure wg kn i intf k of
                  ((err, i'), k') \<Rightarrow> (err, (gw\<lparr>gw_intfs := map_put (intf_Name intf) i' (gw_intfs gw)\<rparr>, k'))))
        else if opType = OpDelete then
          (case map_of (gw_intfs gw) (intf_Name intf) of
             None \<Rightarrow> (Some (ErrMsg ''interface does not exist''), s)
           | Some i \<Rightarrow>
               (None, (gw\<lparr>gw_intfs := map_delete (intf_Name intf) (gw_intfs gw)\<rparr>, snd (stopInterface kn i k))))
        else (None, s))"

text \<open>
  The end of \<^verbatim>\<open>applyPeer\<close>: the device is configured, unless the configuration is an error; a
  missing interface is a nil pointer.
\<close>

definition configure_peer :: "'k kernel \<Rightarrow> Interface option \<Rightarrow> PeerConfig result \<Rightarrow> Gateway \<times> 'k \<Rightarrow>
    unit result outcome \<times> (Gateway \<times> 'k)" where
  "configure_peer kn wgi cfg s =
     (case cfg of
        Inl e \<Rightarrow> (Returns (Inl e), s)
      | Inr c \<Rightarrow>
          (case wgi of
             None \<Rightarrow> (Panics nil_deref, s)
           | Some i \<Rightarrow>
               (case configureWGDevice kn i (wgConfig_zero\<lparr>wc_Peers := [c]\<rparr>) (snd s) of
                  (Some e, k') \<Rightarrow> (Returns (Inl e), (fst s, k'))
                | (None, k') \<Rightarrow> (Returns (Inr ()), (fst s, k')))))"

text \<open>A configuration that could not be made is passed on as the zero value.\<close>

definition zero_config :: PeerConfig where
  "zero_config =
     \<lparr>pc_PublicKey = [], pc_Remove = False, pc_UpdateOnly = False, pc_PresharedKey = None, pc_AllowedIPs = [],
      pc_ReplaceAllowedIPs = False, pc_PersistentKeepaliveInterval = None\<rparr>"

definition index_of :: "Gateway \<Rightarrow> string \<Rightarrow> string" where
  "index_of gw pk = (case map_of (gw_peerIndex gw) pk of Some n \<Rightarrow> n | None \<Rightarrow> [])"

definition applyPeer :: "wgkeys \<Rightarrow> 'k kernel \<Rightarrow> int \<Rightarrow> Peer \<Rightarrow> Gateway \<times> 'k \<Rightarrow> unit result outcome \<times> (Gateway \<times> 'k)" where
  "applyPeer wg kn opType peer s =
     (case s of (gw, k) \<Rightarrow>
        let indexed = gw\<lparr>gw_peerIndex := map_put (peer_PublicKey peer) (peer_Interface peer) (gw_peerIndex gw)\<rparr>
        in if opType = OpCreate then
             (case map_of (gw_intfs gw) (peer_Interface peer) of
                None \<Rightarrow> (Returns (Inl (ErrMsg ''interface does not exist'')), s)
              | Some i \<Rightarrow> configure_peer kn (Some i) (peerToConfig wg peer False False) (indexed, k))
           else if opType = OpUpdate then
             (case map_of (gw_intfs gw) (peer_Interface peer) of
                None \<Rightarrow> (Returns (Inl (ErrMsg ''interface does not exist'')), s)
              | Some i \<Rightarrow>
                  (let oldIntf = index_of gw (peer_PublicKey peer)
                   in if oldIntf \<noteq> [] \<and> oldIntf \<noteq> peer_Interface peer then
                        (case map_of (gw_intfs gw) oldIntf of
                           None \<Rightarrow> (Panics nil_deref, s)
                         | Some old \<Rightarrow>
                             (let delCfg = (case peerToConfig wg peer False True of Inl _ \<Rightarrow> zero_config | Inr c \<Rightarrow> c);
                                  k' = snd (configureWGDevice kn old (wgConfig_zero\<lparr>wc_Peers := [delCfg]\<rparr>) k)
                              in configure_peer kn (Some i) (peerToConfig wg peer True False) (indexed, k')))
                      else configure_peer kn (Some i) (peerToConfig wg peer True False) (indexed, k)))
           else if opType = OpDelete then
             configure_peer kn (map_of (gw_intfs gw) (index_of gw (peer_PublicKey peer)))
               (peerToConfig wg peer False True) s
           else configure_peer kn None (Inr zero_config) s)"

definition gateway_Apply :: "wgkeys \<Rightarrow> 'k kernel \<Rightarrow> op \<Rightarrow> bool \<Rightarrow> Gateway \<times> 'k \<Rightarrow> unit result outcome \<times> (Gateway \<times> 'k)" where
  "gateway_Apply wg kn o' fromLog s =
     (case (case op_value o' of
              OPeer p \<Rightarrow> applyPeer wg kn (op_typ o') p s
            | OInterface i \<Rightarrow>
                (case applyInterface wg kn (op_typ o') i s of
                   (Some e, s') \<Rightarrow> (Returns (Inl e), s')
                 | (None, s') \<Rightarrow> (Returns (Inr ()), s'))
            | _ \<Rightarrow> (Returns (Inr ()), s)) of
        (Returns (Inr _), (gw, k)) \<Rightarrow> (Returns (Inr ()), (gw\<lparr>gw_seq := op_seq o'\<rparr>, k))
      | r \<Rightarrow> r)"

definition gateway_sink :: "wgkeys \<Rightarrow> 'k kernel \<Rightarrow> string list \<Rightarrow> (Gateway \<times> 'k) LogSink" where
  "gateway_sink wg kn ord =
     \<lparr>snk_Apply = gateway_Apply wg kn, snk_LatestSequence = gateway_LatestSequence,
      snk_LoadSnapshot = gateway_LoadSnapshot wg kn ord\<rparr>"

section \<open>Statistics\<close>

definition collectStats :: "'k kernel \<Rightarrow> Interface \<Rightarrow> 'k \<Rightarrow> PeerStats list result" where
  "collectStats kn i k =
     (case kn_Device kn (intf_Name i) k of
        Inl e \<Rightarrow> Inl e
      | Inr peers \<Rightarrow>
          Inr (map (\<lambda>p. \<lparr>pst_PublicKey = wp_PublicKey p, pst_LastHandshakeTime = wp_LastHandshakeTime p,
            pst_RxBytes = wp_ReceiveBytes p, pst_TxBytes = wp_TransmitBytes p,
            pst_Endpoint = (case wp_Endpoint p of None \<Rightarrow> [] | Some ip \<Rightarrow> IP_String ip)\<rparr>) peers))"

fun stats_of :: "'k kernel \<Rightarrow> (string, Interface) gomap \<Rightarrow> string list \<Rightarrow> 'k \<Rightarrow> PeerStats list result" where
  "stats_of kn m [] k = Inr []"
| "stats_of kn m (n # ord) k =
     (case map_of m n of
        None \<Rightarrow> stats_of kn m ord k
      | Some i \<Rightarrow>
          (case collectStats kn i k of
             Inl e \<Rightarrow> Inl e
           | Inr st \<Rightarrow> (case stats_of kn m ord k of Inl e \<Rightarrow> Inl e | Inr sts \<Rightarrow> Inr (st @ sts))))"

definition updateStats :: "'k kernel \<Rightarrow> (PeerStats list \<Rightarrow> 'c \<Rightarrow> unit result outcome \<times> 'c) \<Rightarrow> string list \<Rightarrow>
    Gateway \<times> 'k \<Rightarrow> 'c \<Rightarrow> unit result outcome \<times> 'c" where
  "updateStats kn collector ord s c =
     (case stats_of kn (gw_intfs (fst s)) ord (snd s) of
        Inl e \<Rightarrow> (Returns (Inl e), c)
      | Inr stats \<Rightarrow> collector stats c)"

text \<open>
  At every tick, which finds the gateway and the kernel in some state, the statistics are sent;
  an error is only logged.
\<close>

fun statsLoop :: "'k kernel \<Rightarrow> (PeerStats list \<Rightarrow> 'c \<Rightarrow> unit result outcome \<times> 'c) \<Rightarrow>
    (string list \<times> (Gateway \<times> 'k)) list \<Rightarrow> 'c \<Rightarrow> unit outcome \<times> 'c" where
  "statsLoop kn collector [] c = (Blocks, c)"
| "statsLoop kn collector ((ord, s) # ticks) c =
     (case updateStats kn collector ord s c of
        (Returns _, c') \<Rightarrow> statsLoop kn collector ticks c'
      | (Blocks, c') \<Rightarrow> (Blocks, c')
      | (Panics m, c') \<Rightarrow> (Panics m, c'))"

text \<open>The metrics: for every peer of every interface the two counters.\<close>

fun Collect_metrics :: "'k kernel \<Rightarrow> (string, Interface) gomap \<Rightarrow> string list \<Rightarrow> 'k \<Rightarrow> (string \<times> string \<times> int) list" where
  "Collect_metrics kn m [] k = []"
| "Collect_metrics kn m (n # ord) k =
     (case map_of m n of
        None \<Rightarrow> []
      | Some i \<Rightarrow>
          (case collectStats kn i k of
             Inl _ \<Rightarrow> []
           | Inr st \<Rightarrow>
               concat (map (\<lambda>ps. [(''wig_receive_bytes_total'', pst_PublicKey ps, pst_RxBytes ps),
                 (''wig_transmit_bytes_total'', pst_PublicKey ps, pst_TxBytes ps)]) st))) @
     Collect_metrics kn m ord k"

end
