(* ===== verification/Gateway_Props.thy ===== *)
theory Gateway_Props
  imports Gateway
begin

text \<open>
  What the gateway does with the log: where it resumes, when its devices agree with the tables
  of the datastore it follows, and the operations that break it.
\<close>

section \<open>The gateway as a sink\<close>

lemma configure_peer_gw:
  "configure_peer kn wgi cfg s = (r, s') \<Longrightarrow> fst s' = fst s"
  by (auto simp: configure_peer_def split: sum.splits option.splits prod.splits)

lemma applyPeer_seq: "applyPeer wg kn t p s = (r, s') \<Longrightarrow> gw_seq (fst s') = gw_seq (fst s)"
  by (auto simp: applyPeer_def Let_def dest: configure_peer_gw split: if_splits option.splits prod.splits)

lemma applyInterface_seq: "applyInterface wg kn t i s = (r, s') \<Longrightarrow> gw_seq (fst s') = gw_seq (fst s)"
  by (auto simp: applyInterface_def split: if_splits option.splits prod.splits)

interpretation gws: log_sink "gateway_sink wg kn ord" "\<lambda>_. True"
proof unfold_locales
  fix o' and t t' :: "Gateway \<times> 'a"
  assume "snk_Apply (gateway_sink wg kn ord) o' True t = (Returns (Inr ()), t')"
  then show "True \<and> snk_LatestSequence (gateway_sink wg kn ord) t' = op_seq o'"
    by (auto simp: gateway_sink_def gateway_Apply_def gateway_LatestSequence_def
        split: call_splits)
next
  fix o' e and t t' :: "Gateway \<times> 'a"
  assume "snk_Apply (gateway_sink wg kn ord) o' True t = (Returns (Inl e), t')"
  then show "True \<and> snk_LatestSequence (gateway_sink wg kn ord) t' = snk_LatestSequence (gateway_sink wg kn ord) t"
    by (auto simp: gateway_sink_def gateway_Apply_def gateway_LatestSequence_def
        split: call_splits obj.splits option.splits
        dest: applyPeer_seq applyInterface_seq)
qed

section \<open>What the kernel promises\<close>

text \<open>
  \<open>devs\<close> gives the WireGuard devices and, for each, the allowed addresses of its peers. Adding a
  link makes a device without peers, deleting one removes it, and a configuration that succeeds
  changes the peers of an existing device as \<^verbatim>\<open>wgctrl\<close> documents it.
\<close>

type_synonym devices = "string \<Rightarrow> (string \<Rightarrow> IPNet list option) option"

definition config_peer :: "PeerConfig \<Rightarrow> (string \<Rightarrow> IPNet list option) \<Rightarrow> (string \<Rightarrow> IPNet list option)" where
  "config_peer c m =
     (if pc_Remove c then m(pc_PublicKey c := None)
      else
        (case m (pc_PublicKey c) of
           None \<Rightarrow> if pc_UpdateOnly c then m else m(pc_PublicKey c \<mapsto> pc_AllowedIPs c)
         | Some ips \<Rightarrow>
             m(pc_PublicKey c \<mapsto> (if pc_ReplaceAllowedIPs c then pc_AllowedIPs c else ips @ pc_AllowedIPs c))))"

definition config_device :: "wgConfig \<Rightarrow> (string \<Rightarrow> IPNet list option) \<Rightarrow> (string \<Rightarrow> IPNet list option)" where
  "config_device cfg m = fold config_peer (wc_Peers cfg) (if wc_ReplacePeers cfg then Map.empty else m)"

definition kernel_law :: "'k kernel \<Rightarrow> ('k \<Rightarrow> devices) \<Rightarrow> bool" where
  "kernel_law kn devs \<longleftrightarrow>
     (\<forall>n k. \<not> kn_LinkByName kn n k \<longrightarrow> devs k n = None) \<and>
     (\<forall>n k. devs (snd (kn_LinkSetDown kn n k)) = devs k \<and> devs (snd (kn_LinkSetUp kn n k)) = devs k) \<and>
     (\<forall>n a k. devs (snd (kn_AddrAdd kn n a k)) = devs k) \<and>
     (\<forall>n k. devs (snd (kn_LinkDel kn n k)) = (if fst (kn_LinkDel kn n k) = None then (devs k)(n := None) else devs k)) \<and>
     (\<forall>n mtu k. devs (snd (kn_LinkAdd kn n mtu k)) =
        (if fst (kn_LinkAdd kn n mtu k) = None then (devs k)(n \<mapsto> Map.empty) else devs k)) \<and>
     (\<forall>n cfg k. if fst (kn_ConfigureDevice kn n cfg k) = None
        then \<exists>m. devs k n = Some m \<and> devs (snd (kn_ConfigureDevice kn n cfg k)) = (devs k)(n \<mapsto> config_device cfg m)
        else \<forall>n'. devs (snd (kn_ConfigureDevice kn n cfg k)) n' = None \<longleftrightarrow> devs k n' = None)"

lemma delete_link_devs:
  assumes "kernel_law kn devs" "delete_link kn n k = (e, k')"
  shows "if e = None then devs k' = (devs k)(n := None) else devs k' = devs k"
proof -
  have "devs (snd (kn_LinkSetDown kn n k)) = devs k"
    "devs (snd (kn_LinkDel kn n k1)) = (if fst (kn_LinkDel kn n k1) = None then (devs k1)(n := None) else devs k1)" for k1
    using assms(1) unfolding kernel_law_def by blast+
  from this(1) this(2) [of "snd (kn_LinkSetDown kn n k)"] show ?thesis
    using assms(2) by (auto simp: delete_link_def seq_calls_def wrap_call_def split: prod.splits option.splits)
qed

lemma stopInterface_devs:
  assumes "kernel_law kn devs" "stopInterface kn i k = (e, k')"
  shows "if e = None then devs k' = (devs k)(intf_Name i := None) else devs k' = devs k"
proof (cases "kn_LinkByName kn (intf_Name i) k")
  case True
  with assms(2) delete_link_devs [OF assms(1)] show ?thesis by (simp add: stopInterface_def)
next
  case False
  with assms have "devs k (intf_Name i) = None" unfolding kernel_law_def by blast
  with False assms(2) show ?thesis by (auto simp: stopInterface_def)
qed

lemma add_addr_devs: "kernel_law kn devs \<Longrightarrow> add_addr kn n ip k = (e, k') \<Longrightarrow> devs k' = devs k"
  by (auto simp: kernel_law_def add_addr_def skip_def wrap_call_def split: option.splits prod.splits) (metis snd_conv)+

lemma seq_calls_None: "seq_calls a b k = (None, k') \<longleftrightarrow> (\<exists>k1. a k = (None, k1) \<and> b k1 = (None, k'))"
  by (auto simp: seq_calls_def split: prod.splits option.splits)

lemma wrap_call_None: "wrap_call msg a k = (None, k') \<longleftrightarrow> a k = (None, k')"
  by (auto simp: wrap_call_def split: prod.splits option.splits)

lemma startInterface_devs:
  assumes law: "kernel_law kn devs" and ok: "startInterface kn i k = (None, k')"
  shows "devs k' = (devs k)(intf_Name i \<mapsto> Map.empty)"
proof -
  let ?n = "intf_Name i"
  obtain k1 k2 k3 k4 where
    del: "(if kn_LinkByName kn ?n k then delete_link kn ?n k else (None, k)) = (None, k1)" and
    add: "kn_LinkAdd kn ?n 1420 k1 = (None, k2)" and
    addr: "add_addr kn ?n (intf_IP i) k2 = (None, k3)" "add_addr kn ?n (intf_IP6 i) k3 = (None, k4)" and
    up: "kn_LinkSetUp kn ?n k4 = (None, k')"
    using ok by (auto simp: startInterface_def seq_calls_None wrap_call_None)
  have "devs k1 = devs k \<or> devs k1 = (devs k)(?n := None)"
    using del delete_link_devs [OF law, of ?n k None k1] by (auto split: if_splits)
  moreover have "devs k2 = (devs k1)(?n \<mapsto> Map.empty)" "devs k' = devs k4"
    using law add up unfolding kernel_law_def by (metis fst_conv snd_conv)+
  ultimately show ?thesis
    using add_addr_devs [OF law addr(1)] add_addr_devs [OF law addr(2)] by auto
qed

lemma configure_devs:
  assumes "kernel_law kn devs" "kn_ConfigureDevice kn n cfg k = (None, k')" 
  shows "\<exists>m. devs k n = Some m \<and> devs k' = (devs k)(n \<mapsto> config_device cfg m)"
proof -
  have "if fst (kn_ConfigureDevice kn n cfg k) = None
        then \<exists>m. devs k n = Some m \<and> devs (snd (kn_ConfigureDevice kn n cfg k)) = (devs k)(n \<mapsto> config_device cfg m)
        else \<forall>n'. devs (snd (kn_ConfigureDevice kn n cfg k)) n' = None \<longleftrightarrow> devs k n' = None"
    using assms(1) unfolding kernel_law_def by blast
  with assms(2) show ?thesis by simp
qed

lemma newInterface_devs:
  assumes law: "kernel_law kn devs" and ok: "newInterface wg kn i k = (None, k')"
  shows "devs k' = (devs k)(intf_Name i \<mapsto> Map.empty)"
proof -
  obtain k1 where k1: "startInterface kn i k = (None, k1)" "wg_initialize wg kn i k1 = (None, k')"
    using ok by (auto simp: newInterface_def seq_calls_None)
  then obtain cfg where "kn_ConfigureDevice kn (intf_Name i) cfg k1 = (None, k')" "wc_Peers cfg = []" "\<not> wc_ReplacePeers cfg"
    by (auto simp: wg_initialize_def configureWGDevice_def wgConfig_zero_def Let_def split: sum.splits if_splits)
  with configure_devs [OF law] startInterface_devs [OF law k1(1)] show ?thesis
    by (fastforce simp: config_device_def)
qed

section \<open>Devices that agree with the tables\<close>

definition stored :: "tables \<Rightarrow> Interface list \<Rightarrow> Peer list \<Rightarrow> bool" where
  "stored tabs is ps \<longleftrightarrow>
     tabs ''interfaces'' = map (db_fields \<circ> OInterface) is \<and> tabs ''peers'' = map (db_fields \<circ> OPeer) ps"

definition peers_conf :: "Peer list \<Rightarrow> string \<Rightarrow> string \<Rightarrow> IPNet list option" where
  "peers_conf ps n = map_of (map (\<lambda>p. (peer_PublicKey p, allowed_ips p)) (filter (\<lambda>p. peer_Interface p = n) ps))"

text \<open>
  The gateway mirrors the tables: it knows their interfaces, each of which is a device with
  exactly the peers of the table on it, and it knows on which interface every peer is.
\<close>

definition mirror :: "devices \<Rightarrow> Interface list \<Rightarrow> Peer list \<Rightarrow> Gateway \<Rightarrow> bool" where
  "mirror d is ps gw \<longleftrightarrow>
     (\<forall>n i. map_of (gw_intfs gw) n = Some i \<longrightarrow> intf_Name i = n) \<and>
     (\<forall>n. map_of (gw_intfs gw) n \<noteq> None \<longleftrightarrow> n \<in> intf_Name ` set is) \<and>
     (\<forall>i\<in>set is. d (intf_Name i) = Some (peers_conf ps (intf_Name i))) \<and>
     (\<forall>p\<in>set ps. map_of (gw_peerIndex gw) (peer_PublicKey p) = Some (peer_Interface p))"

lemma stored_keys:
  assumes "stored tabs is ps"
  shows "has_key (tabs ''interfaces'') ''name'' n \<longleftrightarrow> n \<in> intf_Name ` set is"
    "has_key (tabs ''peers'') ''public_key'' pk \<longleftrightarrow> pk \<in> peer_PublicKey ` set ps"
  using assms by (auto simp: stored_def has_key_def)

lemma stored_fk:
  assumes "tables_inv tabs" "stored tabs is ps" "p \<in> set ps"
  shows "peer_Interface p \<in> intf_Name ` set is"
proof -
  have "\<forall>r\<in>set (tabs ''peers''). \<exists>i\<in>set (tabs ''interfaces''). cell i ''name'' = cell r ''interface''"
    using assms(1) by (simp add: tables_inv_def fk_inv_def)
  with assms(2) have "\<forall>q\<in>set ps. \<exists>i\<in>set is. intf_Name i = peer_Interface q" by (simp add: stored_def)
  with assms(3) show ?thesis by (metis imageI)
qed

lemma stored_distinct:
  assumes "tables_inv tabs" "stored tabs is ps"
  shows "distinct (map peer_PublicKey ps)"
proof -
  have "distinct (map (\<lambda>p. SText (peer_PublicKey p)) ps)"
    using assms by (simp add: tables_inv_def table_ok_def stored_def comp_def)
  then show ?thesis by (simp add: distinct_map inj_on_def)
qed

lemma conf_none: "pk \<notin> peer_PublicKey ` set ps \<Longrightarrow> peers_conf ps n pk = None"
  by (auto simp: peers_conf_def map_of_eq_None_iff)

lemma conf_some: "q \<in> set ps \<Longrightarrow> peers_conf ps (peer_Interface q) (peer_PublicKey q) \<noteq> None"
  unfolding peers_conf_def map_of_eq_None_iff by (auto intro: rev_image_eqI)

lemma conf_add:
  assumes "peer_PublicKey p \<notin> peer_PublicKey ` set ps"
  shows "peers_conf (ps @ [p]) n =
    (if peer_Interface p = n then (peers_conf ps n)(peer_PublicKey p \<mapsto> allowed_ips p) else peers_conf ps n)"
proof -
  have "peers_conf ps n (peer_PublicKey p) = None" using assms by (rule conf_none)
  then show ?thesis
    by (auto simp: peers_conf_def map_add_def fun_eq_iff split: option.splits)
qed

lemma conf_remove: "peers_conf (filter (\<lambda>q. peer_PublicKey q \<noteq> pk) ps) n = (peers_conf ps n)(pk := None)"
  by (induction ps) (auto simp: peers_conf_def)

lemma conf_replace:
  assumes "\<forall>q\<in>set ps. peer_PublicKey q = peer_PublicKey p \<longrightarrow> peer_Interface q = peer_Interface p"
    and "peer_PublicKey p \<in> peer_PublicKey ` set ps"
  shows "peers_conf (map (\<lambda>q. if peer_PublicKey q = peer_PublicKey p then p else q) ps) n =
    (if peer_Interface p = n then (peers_conf ps n)(peer_PublicKey p \<mapsto> allowed_ips p) else peers_conf ps n)"
  using assms
proof (induction ps)
  case (Cons q ps)
  show ?case
  proof (cases "peer_PublicKey p \<in> peer_PublicKey ` set ps")
    case True
    with Cons show ?thesis by (auto simp: peers_conf_def fun_eq_iff)
  next
    case False
    then have "\<forall>q\<in>set ps. peer_PublicKey q \<noteq> peer_PublicKey p" by (metis imageI)
    then have "map (\<lambda>q. if peer_PublicKey q = peer_PublicKey p then p else q) ps = ps"
      by (intro map_idI) simp
    with False Cons.prems show ?thesis by (auto simp: peers_conf_def)
  qed
qed simp

lemma conf_other_interface:
  "n \<noteq> n' \<Longrightarrow> peers_conf (filter (\<lambda>q. peer_Interface q \<noteq> n') ps) n = peers_conf ps n"
  by (auto simp: peers_conf_def intro!: arg_cong [of _ _ "\<lambda>xs. map_of (map _ xs)"] filter_cong)

section \<open>Each operation keeps the mirror\<close>

definition key_ok :: "wgkeys \<Rightarrow> Peer \<Rightarrow> bool" where
  "key_ok wg p = (wg_ParseKey wg (peer_PublicKey p) = Inr (peer_PublicKey p))"

lemma configure_peer_ok:
  assumes "configure_peer kn wgi cfg (gw, k) = (Returns (Inr ()), (gw', k'))" "kernel_law kn devs"
  shows "\<exists>i c m. wgi = Some i \<and> cfg = Inr c \<and> gw' = gw \<and> devs k (intf_Name i) = Some m \<and>
    devs k' = (devs k)(intf_Name i \<mapsto> config_peer c m)"
proof -
  obtain i c where ic: "wgi = Some i" "cfg = Inr c" "gw' = gw"
    "kn_ConfigureDevice kn (intf_Name i) (wgConfig_zero\<lparr>wc_Peers := [c]\<rparr>) k = (None, k')"
    using assms(1) by (auto simp: configure_peer_def configureWGDevice_def split: sum.splits option.splits prod.splits)
  with configure_devs [OF assms(2) ic(4)] show ?thesis by (auto simp: config_device_def wgConfig_zero_def)
qed

lemma mirror_peer_create:
  assumes law: "kernel_law kn devs" and m: "mirror (devs k) is ps gw" "key_ok wg p"
    and new: "peer_PublicKey p \<notin> peer_PublicKey ` set ps"
    and ok: "applyPeer wg kn OpCreate p (gw, k) = (Returns (Inr ()), (gw', k'))"
  shows "mirror (devs k') is (ps @ [p]) gw'"
proof -
  obtain i where i: "map_of (gw_intfs gw) (peer_Interface p) = Some i"
    using ok by (auto simp: applyPeer_def Let_def split: option.splits)
  then have nm: "intf_Name i = peer_Interface p" "peer_Interface p \<in> intf_Name ` set is"
    using m(1) unfolding mirror_def by auto
  obtain c where c: "peerToConfig wg p False False = Inr c" "pc_PublicKey c = peer_PublicKey p" "\<not> pc_Remove c"
    "\<not> pc_UpdateOnly c" "pc_AllowedIPs c = allowed_ips p"
    using ok i m(2) by (auto simp: applyPeer_def configure_peer_def peerToConfig_def key_ok_def Let_def split: if_splits)
  let ?gw = "gw\<lparr>gw_peerIndex := map_put (peer_PublicKey p) (peer_Interface p) (gw_peerIndex gw)\<rparr>"
  have conf: "configure_peer kn (Some i) (Inr c) (?gw, k) = (Returns (Inr ()), (gw', k'))"
    using ok by (simp add: applyPeer_def i c(1) Let_def OpType_defs)
  have m0: "devs k (peer_Interface p) = Some (peers_conf ps (peer_Interface p))"
    using m(1) nm i unfolding mirror_def by (metis (no_types, lifting) imageE option.distinct(1))
  have gw: "gw' = ?gw" and d: "devs k' = (devs k)(peer_Interface p \<mapsto> config_peer c (peers_conf ps (peer_Interface p)))"
    using configure_peer_ok [OF conf law] m0 by (auto simp: nm)
  have "config_peer c (peers_conf ps (peer_Interface p)) = peers_conf (ps @ [p]) (peer_Interface p)"
    using c conf_none [OF new] by (simp add: config_peer_def conf_add [OF new])
  moreover have "\<forall>q\<in>set ps. peer_PublicKey q \<noteq> peer_PublicKey p" using new by (metis imageI)
  ultimately show ?thesis
    using m(1) by (auto simp: mirror_def gw d conf_add [OF new])
qed

lemma mirror_peer_update:
  assumes law: "kernel_law kn devs" and m: "mirror (devs k) is ps gw" "key_ok wg p"
    and old: "\<forall>q\<in>set ps. peer_PublicKey q = peer_PublicKey p \<longrightarrow> peer_Interface q = peer_Interface p"
      "peer_PublicKey p \<in> peer_PublicKey ` set ps"
    and ok: "applyPeer wg kn OpUpdate p (gw, k) = (Returns (Inr ()), (gw', k'))"
  shows "mirror (devs k') is (map (\<lambda>q. if peer_PublicKey q = peer_PublicKey p then p else q) ps) gw'"
proof -
  obtain q where q: "q \<in> set ps" "peer_PublicKey q = peer_PublicKey p" "peer_Interface q = peer_Interface p"
    using old by auto
  obtain i where i: "map_of (gw_intfs gw) (peer_Interface p) = Some i"
    using ok by (auto simp: applyPeer_def Let_def OpType_defs split: option.splits)
  then have nm: "intf_Name i = peer_Interface p" using m(1) unfolding mirror_def by auto
  have idx: "index_of gw (peer_PublicKey p) = peer_Interface p"
    using m(1) q by (fastforce simp: mirror_def index_of_def)
  obtain c where c: "peerToConfig wg p True False = Inr c" "pc_PublicKey c = peer_PublicKey p" "\<not> pc_Remove c"
    "pc_ReplaceAllowedIPs c" "pc_AllowedIPs c = allowed_ips p"
    using ok i idx m(2)
    by (auto simp: applyPeer_def configure_peer_def peerToConfig_def key_ok_def OpType_defs Let_def split: if_splits)
  let ?gw = "gw\<lparr>gw_peerIndex := map_put (peer_PublicKey p) (peer_Interface p) (gw_peerIndex gw)\<rparr>"
  have conf: "configure_peer kn (Some i) (Inr c) (?gw, k) = (Returns (Inr ()), (gw', k'))"
    using ok by (simp add: applyPeer_def i idx c(1) Let_def OpType_defs)
  have m0: "devs k (peer_Interface p) = Some (peers_conf ps (peer_Interface p))"
    using m(1) nm i unfolding mirror_def by (metis (no_types, lifting) imageE option.distinct(1))
  have gw: "gw' = ?gw" and d: "devs k' = (devs k)(peer_Interface p \<mapsto> config_peer c (peers_conf ps (peer_Interface p)))"
    using configure_peer_ok [OF conf law] m0 by (auto simp: nm)
  have "peers_conf ps (peer_Interface p) (peer_PublicKey p) \<noteq> None"
    using conf_some [OF q(1)] by (simp only: q(2,3) not_False_eq_True)
  then have "config_peer c (peers_conf ps (peer_Interface p)) =
      (peers_conf ps (peer_Interface p))(peer_PublicKey p \<mapsto> allowed_ips p)"
    using c by (auto simp: config_peer_def)
  then show ?thesis
    using m(1) old(1) by (auto simp: mirror_def gw d conf_replace [OF old])
qed

lemma mirror_peer_delete:
  assumes law: "kernel_law kn devs" and m: "mirror (devs k) is ps gw" "key_ok wg p"
    and ok: "applyPeer wg kn OpDelete p (gw, k) = (Returns (Inr ()), (gw', k'))"
  shows "mirror (devs k') is (filter (\<lambda>q. peer_PublicKey q \<noteq> peer_PublicKey p) ps) gw'"
proof -
  let ?n = "index_of gw (peer_PublicKey p)" and ?pk = "peer_PublicKey p"
  obtain c where c: "peerToConfig wg p False True = Inr c" "pc_PublicKey c = ?pk" "pc_Remove c"
    using m(2) by (auto simp: peerToConfig_def key_ok_def Let_def)
  obtain i d0 where i: "map_of (gw_intfs gw) ?n = Some i" "gw' = gw" "devs k (intf_Name i) = Some d0"
    "devs k' = (devs k)(intf_Name i \<mapsto> d0(?pk := None))"
    using ok c configure_peer_ok [OF _ law, of "map_of (gw_intfs gw) ?n" "Inr c" gw k gw' k']
    by (auto simp: applyPeer_def OpType_defs config_peer_def Let_def)
  then have nm: "intf_Name i = ?n" using m(1) unfolding mirror_def by auto
  have other: "peers_conf ps n ?pk = None" if "n \<noteq> ?n" for n
  proof -
    have "peer_Interface q = ?n" if "q \<in> set ps" "peer_PublicKey q = ?pk" for q
      using m(1) that by (fastforce simp: mirror_def index_of_def)
    with \<open>n \<noteq> ?n\<close> show ?thesis by (auto simp: peers_conf_def map_of_eq_None_iff)
  qed
  have "(devs k') (intf_Name j) = Some ((peers_conf ps (intf_Name j))(?pk := None))" if "j \<in> set is" for j
  proof (cases "intf_Name j = ?n")
    case True
    with m(1) that i(3,4) nm show ?thesis by (auto simp: mirror_def)
  next
    case False
    moreover have "(peers_conf ps (intf_Name j))(?pk := None) = peers_conf ps (intf_Name j)"
      using other [OF False] by auto
    ultimately show ?thesis using m(1) that i(4) nm by (simp add: mirror_def)
  qed
  then show ?thesis using m(1) i(2) by (auto simp: mirror_def conf_remove)
qed

lemma mirror_interface_create:
  assumes law: "kernel_law kn devs" and m: "mirror (devs k) is ps gw"
    and fk: "\<forall>p\<in>set ps. peer_Interface p \<in> intf_Name ` set is" "intf_Name i \<notin> intf_Name ` set is"
    and ok: "applyInterface wg kn OpCreate i (gw, k) = (None, (gw', k'))"
  shows "mirror (devs k') (is @ [i]) ps gw'"
proof -
  obtain gw: "gw' = gw\<lparr>gw_intfs := map_put (intf_Name i) i (gw_intfs gw)\<rparr>" and new: "newInterface wg kn i k = (None, k')"
    using ok by (auto simp: applyInterface_def split: if_splits prod.splits option.splits)
  have "\<forall>p\<in>set ps. peer_Interface p \<noteq> intf_Name i" using fk by metis
  then have "peers_conf ps (intf_Name i) = Map.empty" by (simp add: peers_conf_def filter_False)
  moreover have "\<forall>j\<in>set is. intf_Name j \<noteq> intf_Name i" using fk(2) by (metis imageI)
  ultimately show ?thesis
    using m by (auto simp: mirror_def gw newInterface_devs [OF law new])
qed

lemma mirror_interface_delete:
  assumes law: "kernel_law kn devs" and m: "mirror (devs k) is ps gw"
    and ok: "applyInterface wg kn OpDelete i (gw, k) = (None, (gw', k'))"
  shows "mirror (devs k') (filter (\<lambda>j. intf_Name j \<noteq> intf_Name i) is)
    (filter (\<lambda>p. peer_Interface p \<noteq> intf_Name i) ps) gw'"
proof -
  obtain j where j: "map_of (gw_intfs gw) (intf_Name i) = Some j"
    "gw' = gw\<lparr>gw_intfs := map_delete (intf_Name i) (gw_intfs gw)\<rparr>" "k' = snd (stopInterface kn j k)"
    using ok by (auto simp: applyInterface_def OpType_defs split: option.splits)
  then have nm: "intf_Name j = intf_Name i" using m unfolding mirror_def by auto
  have d: "devs k' n = devs k n" if "n \<noteq> intf_Name i" for n
    using stopInterface_devs [OF law, of j k "fst (stopInterface kn j k)" k'] that nm j(3)
    by (auto split: if_splits)
  have m': "\<And>n i. map_of (gw_intfs gw) n = Some i \<Longrightarrow> intf_Name i = n"
    "\<And>n. map_of (gw_intfs gw) n \<noteq> None \<longleftrightarrow> n \<in> intf_Name ` set is"
    "\<And>i. i \<in> set is \<Longrightarrow> devs k (intf_Name i) = Some (peers_conf ps (intf_Name i))"
    "\<And>p. p \<in> set ps \<Longrightarrow> map_of (gw_peerIndex gw) (peer_PublicKey p) = Some (peer_Interface p)"
    using m unfolding mirror_def by blast+
  have "map_of (map_delete (intf_Name i) (gw_intfs gw)) n \<noteq> None \<longleftrightarrow>
      n \<in> intf_Name ` set (filter (\<lambda>j. intf_Name j \<noteq> intf_Name i) is)" for n
    using m'(2) [of n] by auto
  then show ?thesis
    unfolding mirror_def j(2) using m'(1,3,4) d by (simp add: conf_other_interface)
qed

lemma mirror_seq [simp]: "mirror d is ps (gw\<lparr>gw_seq := q\<rparr>) = mirror d is ps gw"
  by (simp add: mirror_def)

text \<open>The same operations on the tables.\<close>

lemma stored_create:
  assumes "stored tabs is ps" "dispatcher_Create sql_ok (Model wg) ob tabs = Inr tabs'"
  shows "ob = OPeer p \<Longrightarrow> peer_PublicKey p \<notin> peer_PublicKey ` set ps \<and> stored tabs' is (ps @ [p])"
    "ob = OInterface i \<Longrightarrow> intf_Name i \<notin> intf_Name ` set is \<and> stored tabs' (is @ [i]) ps"
    "ob = OToken t \<Longrightarrow> stored tabs' is ps"
proof -
  have st: "storable ob" using assms(2) by (rule dispatch_storable)
  have "\<not> has_key (tabs (table_of ob)) (key_col ob) (key_of ob)"
    and tabs': "tabs' = tabs(table_of ob := tabs (table_of ob) @ [db_fields ob])"
    using assms(2) unfolding Create_effect [OF st] by (simp_all split: if_splits)
  then show "ob = OPeer p \<Longrightarrow> peer_PublicKey p \<notin> peer_PublicKey ` set ps \<and> stored tabs' is (ps @ [p])"
    "ob = OInterface i \<Longrightarrow> intf_Name i \<notin> intf_Name ` set is \<and> stored tabs' (is @ [i]) ps"
    "ob = OToken t \<Longrightarrow> stored tabs' is ps"
    using stored_keys [OF assms(1)] assms(1) by (auto simp: stored_def)
qed

lemma stored_update:
  assumes "stored tabs is ps" "tables_inv tabs" "dispatcher_Update sql_ok (Model wg) ob tabs = Inr tabs'"
  shows "ob = OPeer p \<Longrightarrow> stored tabs' is (map (\<lambda>q. if peer_PublicKey q = peer_PublicKey p then p else q) ps)"
    "ob = OToken t \<Longrightarrow> stored tabs' is ps"
proof -
  have st: "storable ob" using assms(3) by (rule dispatch_storable)
  have shape: "\<forall>r\<in>set (tabs (table_of ob)). row_shape ob r"
    using table_ok_shape [OF assms(2) st] by (simp add: table_ok_def row_shape_def)
  have "tabs' = tabs(table_of ob := replace_row ob (tabs (table_of ob)))"
    using assms(3) unfolding Update_effect [of ob tabs, OF st shape] by (simp split: if_splits)
  then show "ob = OPeer p \<Longrightarrow> stored tabs' is (map (\<lambda>q. if peer_PublicKey q = peer_PublicKey p then p else q) ps)"
    "ob = OToken t \<Longrightarrow> stored tabs' is ps"
    using assms(1) by (auto simp: stored_def replace_row_def)
qed

lemma stored_delete:
  assumes "stored tabs is ps" "tables_inv tabs" "dispatcher_Delete sql_ok (Model wg) ob tabs = Inr tabs'"
  shows "ob = OPeer p \<Longrightarrow> stored tabs' is (filter (\<lambda>q. peer_PublicKey q \<noteq> peer_PublicKey p) ps)"
    "ob = OInterface i \<Longrightarrow> stored tabs' (filter (\<lambda>j. intf_Name j \<noteq> intf_Name i) is) (filter (\<lambda>q. peer_Interface q \<noteq> intf_Name i) ps)"
    "ob = OToken t \<Longrightarrow> stored tabs' is ps"
proof -
  have st: "storable ob" using assms(3) by (rule dispatch_storable)
  have tabs': "tabs' = delete_rows ob tabs" using assms(3) unfolding Delete_effect [OF st] by simp
  have peers: "without_key ''interface'' n (tabs ''peers'') = map (db_fields \<circ> OPeer) (filter (\<lambda>q. peer_Interface q \<noteq> n) ps)" for n
    using assms(1) by (simp add: stored_def without_key_def filter_map comp_def)
  have none: "filter (\<lambda>q. peer_Interface q \<noteq> n) ps = ps" if "n \<notin> intf_Name ` set is" for n
    using stored_fk [OF assms(2,1)] that by (metis (mono_tags, lifting) filter_True)
  show "ob = OPeer p \<Longrightarrow> stored tabs' is (filter (\<lambda>q. peer_PublicKey q \<noteq> peer_PublicKey p) ps)"
    using assms(1) by (auto simp: tabs' stored_def delete_rows_def without_key_def filter_map comp_def)
  show "ob = OToken t \<Longrightarrow> stored tabs' is ps"
    using assms(1) by (auto simp: tabs' stored_def delete_rows_def)
  show "ob = OInterface i \<Longrightarrow> stored tabs' (filter (\<lambda>j. intf_Name j \<noteq> intf_Name i) is) (filter (\<lambda>q. peer_Interface q \<noteq> intf_Name i) ps)"
    using assms(1) stored_keys(1) [OF assms(1), of "intf_Name i"] none [of "intf_Name i"] peers [of "intf_Name i"]
    by (auto simp: tabs' stored_def delete_rows_def without_key_def filter_map comp_def)
qed

lemma gateway_Apply_cases:
  assumes "gateway_Apply wg kn o' b (gw, k) = (Returns (Inr ()), (gw', k'))"
  obtains gw1 where "gw' = gw1\<lparr>gw_seq := op_seq o'\<rparr>"
    "\<And>p. op_value o' = OPeer p \<Longrightarrow> applyPeer wg kn (op_typ o') p (gw, k) = (Returns (Inr ()), (gw1, k'))"
    "\<And>i. op_value o' = OInterface i \<Longrightarrow> applyInterface wg kn (op_typ o') i (gw, k) = (None, (gw1, k'))"
    "\<And>t. op_value o' = OToken t \<Longrightarrow> gw1 = gw \<and> k' = k"
  using assms
  by (cases "op_value o'") (auto simp: gateway_Apply_def split: call_splits option.splits)

lemma mirror_peer_stays:
  assumes law: "kernel_law kn devs" and inv: "tables_inv tabs" and st: "stored tabs is ps"
    and m: "mirror (devs k) is ps gw" "key_ok wg p"
    and stays: "\<exists>q\<in>set ps. peer_PublicKey q = peer_PublicKey p \<and> peer_Interface q = peer_Interface p"
    and ok: "applyPeer wg kn OpUpdate p (gw, k) = (Returns (Inr ()), (gw', k'))"
  shows "mirror (devs k') is (map (\<lambda>q. if peer_PublicKey q = peer_PublicKey p then p else q) ps) gw'"
proof (rule mirror_peer_update [OF law m _ _ ok])
  show "\<forall>q\<in>set ps. peer_PublicKey q = peer_PublicKey p \<longrightarrow> peer_Interface q = peer_Interface p"
    using stays stored_distinct [OF inv st] by (auto simp: distinct_map inj_on_def)
  show "peer_PublicKey p \<in> peer_PublicKey ` set ps" using stays by (metis imageI)
qed

text \<open>
  The operations a gateway can follow: not the changes to an interface, and of the changes to a
  peer only those that leave it on its interface. The key of a peer has to be one.
\<close>

definition covered :: "wgkeys \<Rightarrow> tables \<Rightarrow> op \<Rightarrow> bool" where
  "covered wg tabs o' =
     (case op_value o' of
        OInterface i \<Rightarrow> op_typ o' \<noteq> OpUpdate
      | OPeer p \<Rightarrow> key_ok wg p \<and> (op_typ o' = OpUpdate \<longrightarrow>
          list_ex (\<lambda>r. cell r ''public_key'' = SText (peer_PublicKey p) \<and> cell r ''interface'' = SText (peer_Interface p))
            (tabs ''peers''))
      | _ \<Rightarrow> True)"

lemma covered_stored:
  assumes "stored tabs is ps" "covered wg tabs o'"
  shows "case op_value o' of
        OInterface i \<Rightarrow> op_typ o' \<noteq> OpUpdate
      | OPeer p \<Rightarrow> key_ok wg p \<and> (op_typ o' = OpUpdate \<longrightarrow>
          (\<exists>q\<in>set ps. peer_PublicKey q = peer_PublicKey p \<and> peer_Interface q = peer_Interface p))
      | _ \<Rightarrow> True"
  using assms by (auto simp: covered_def stored_def list_ex_iff split: obj.splits)

text \<open>
  The devices of a gateway are the tables of the datastore it follows. When an operation
  that the tables accept is applied to a gateway that mirrors them, and the kernel reports
  no error, the gateway mirrors the new tables, and its sequence number is that of the
  operation. This covers everything except changes to an interface and peers that move.
\<close>

lemma mirror_step:
  assumes law: "kernel_law kn devs" and inv: "tables_inv tabs" and st: "stored tabs is ps"
    and m: "mirror (devs k) is ps gw" and cov: "covered wg tabs o'"
    and tabs': "ApplyOp sql_ok (Model wg) o' tabs = Inr tabs'"
    and ok: "gateway_Apply wg kn o' fromLog (gw, k) = (Returns (Inr ()), (gw', k'))"
  shows "\<exists>is' ps'. stored tabs' is' ps' \<and> mirror (devs k') is' ps' gw' \<and> gw_seq gw' = op_seq o'"
proof -
  note covered = covered_stored [OF st cov]
  obtain gw1 where gw: "gw' = gw1\<lparr>gw_seq := op_seq o'\<rparr>"
    and peer: "\<And>p. op_value o' = OPeer p \<Longrightarrow> applyPeer wg kn (op_typ o') p (gw, k) = (Returns (Inr ()), (gw1, k'))"
    and intf: "\<And>i. op_value o' = OInterface i \<Longrightarrow> applyInterface wg kn (op_typ o') i (gw, k) = (None, (gw1, k'))"
    and tok: "\<And>t. op_value o' = OToken t \<Longrightarrow> gw1 = gw \<and> k' = k"
    using ok by (rule gateway_Apply_cases) blast
  note fk = stored_fk [OF inv st]
  consider (c) "op_typ o' = OpCreate" "dispatcher_Create sql_ok (Model wg) (op_value o') tabs = Inr tabs'"
    | (u) "op_typ o' = OpUpdate" "dispatcher_Update sql_ok (Model wg) (op_value o') tabs = Inr tabs'"
    | (d) "op_typ o' = OpDelete" "dispatcher_Delete sql_ok (Model wg) (op_value o') tabs = Inr tabs'"
    using tabs' by (auto simp: ApplyOp_def split: if_splits)
  then have "\<exists>is' ps'. stored tabs' is' ps' \<and> mirror (devs k') is' ps' gw1"
  proof cases
    case c
    note t = stored_create [OF st c(2)]
    show ?thesis
    proof (cases "op_value o'")
      case (OPeer p)
      then show ?thesis using mirror_peer_create [OF law m _ _ peer [OF OPeer, unfolded c(1)]] covered t(1) by auto
    next
      case (OInterface i)
      then show ?thesis using mirror_interface_create [OF law m _ _ intf [OF OInterface, unfolded c(1)]] fk t(2) by blast
    qed (use m tok t(3) dispatch_storable(1) [OF c(2)] in auto)
  next
    case u
    note t = stored_update [OF st inv u(2)]
    show ?thesis
    proof (cases "op_value o'")
      case (OPeer p)
      then show ?thesis
        using mirror_peer_stays [OF law inv st m _ _ peer [OF OPeer, unfolded u(1)]] covered u(1) t(1) by auto
    qed (use m tok t(2) u covered dispatch_storable(2) [OF u(2)] in auto)
  next
    case d
    note t = stored_delete [OF st inv d(2)]
    show ?thesis
    proof (cases "op_value o'")
      case (OPeer p)
      then show ?thesis using mirror_peer_delete [OF law m _ peer [OF OPeer, unfolded d(1)]] covered t(1) by auto
    next
      case (OInterface i)
      then show ?thesis using mirror_interface_delete [OF law m intf [OF OInterface, unfolded d(1)]] t(2) by blast
    qed (use m tok t(3) dispatch_storable(3) [OF d(2)] in auto)
  qed
  then show ?thesis using gw by auto
qed

text \<open>A kernel without failures, whose state is its devices.\<close>

definition sample_kernel :: "devices kernel" where
  "sample_kernel =
     \<lparr>kn_LinkByName = (\<lambda>n k. k n \<noteq> None), kn_LinkSetDown = (\<lambda>n k. (None, k)),
      kn_LinkDel = (\<lambda>n k. (None, k(n := None))), kn_LinkAdd = (\<lambda>n mtu k. (None, k(n \<mapsto> Map.empty))),
      kn_AddrAdd = (\<lambda>n a k. (None, k)), kn_LinkSetUp = (\<lambda>n k. (None, k)),
      kn_ConfigureDevice = (\<lambda>n cfg k. case k n of None \<Rightarrow> (Some (ErrMsg ''no such device''), k)
        | Some m \<Rightarrow> (None, k(n \<mapsto> config_device cfg m))),
      kn_Device = (\<lambda>n k. Inr [])\<rparr>"

lemma kernel_law_sample: "kernel_law sample_kernel (\<lambda>k. k)"
  by (simp add: kernel_law_def sample_kernel_def split: option.splits)

lemma sample_gateway_create:
  "\<exists>gw' k'. gateway_Apply sample_wg sample_kernel (WithSequence 1 sample_op) True (gateway_New, \<lambda>_. None) =
     (Returns (Inr ()), (gw', k')) \<and> map_of (gw_intfs gw') ''wg0'' = Some sample_interface \<and> k' ''wg0'' \<noteq> None"
  by (simp add: gateway_Apply_def applyInterface_def newInterface_def startInterface_def wg_initialize_def
      configureWGDevice_def add_addr_def skip_def seq_calls_def wrap_call_def sample_kernel_def gateway_New_def
      sample_op_def newOp_def WithSequence_def sample_interface_def Interface_zero_def sample_wg_def Let_def)

lemma sample_gateway_mirrors:
  "\<exists>gw' k' is' ps'. gateway_Apply sample_wg sample_kernel (WithSequence 1 sample_op) True (gateway_New, \<lambda>_. None) =
     (Returns (Inr ()), (gw', k')) \<and> stored sample_tables is' ps' \<and> mirror k' is' ps' gw' \<and> gw_seq gw' = 1"
proof -
  obtain gw' k' where ok: "gateway_Apply sample_wg sample_kernel (WithSequence 1 sample_op) True (gateway_New, \<lambda>_. None) =
     (Returns (Inr ()), (gw', k'))"
    using sample_gateway_create by blast
  have st: "stored (\<lambda>_. []) [] []" by (simp add: stored_def)
  have m: "mirror (\<lambda>_. None) [] [] gateway_New" by (simp add: mirror_def gateway_New_def)
  have tabs: "ApplyOp sql_ok (Model sample_wg) (WithSequence 1 sample_op) (\<lambda>_. []) = Inr sample_tables"
    using ApplyOp_sample [of sample_wg] by (simp add: ApplyOp_def WithSequence_def empty_db_def)
  have "\<exists>is' ps'. stored sample_tables is' ps' \<and> mirror k' is' ps' gw' \<and> gw_seq gw' = op_seq (WithSequence 1 sample_op)"
    by (rule mirror_step [OF kernel_law_sample tables_inv_empty st m _ tabs ok])
      (simp add: covered_def WithSequence_def OpType_defs)
  with ok show ?thesis by (auto simp: WithSequence_def)
qed

section \<open>A gateway that follows a datastore\<close>

text \<open>
  A kernel in which nothing goes wrong: a link that exists can be taken down and deleted, and is
  then gone; one that does not exist can be added; and a device can be configured.
\<close>

definition kernel_works :: "'k kernel \<Rightarrow> ('k \<Rightarrow> devices) \<Rightarrow> bool" where
  "kernel_works kn devs \<longleftrightarrow>
     (\<forall>n k. kn_LinkByName kn n k \<longrightarrow>
        (\<exists>k1 k2. kn_LinkSetDown kn n k = (None, k1) \<and> kn_LinkDel kn n k1 = (None, k2) \<and> \<not> kn_LinkByName kn n k2)) \<and>
     (\<forall>n mtu k. \<not> kn_LinkByName kn n k \<longrightarrow> (\<exists>k'. kn_LinkAdd kn n mtu k = (None, k'))) \<and>
     (\<forall>n k. devs k n \<noteq> None \<longrightarrow>
        (\<forall>a. \<exists>k'. kn_AddrAdd kn n a k = (None, k')) \<and> (\<exists>k'. kn_LinkSetUp kn n k = (None, k')) \<and>
        (\<forall>cfg. \<exists>k'. kn_ConfigureDevice kn n cfg k = (None, k')))"

text \<open>
  The operations that a gateway applies without error: besides being covered, a peer has an address,
  the private key of an interface is one, and what is deleted is there.
\<close>

definition accepted :: "wgkeys \<Rightarrow> tables \<Rightarrow> op \<Rightarrow> bool" where
  "accepted wg tabs o' =
     (covered wg tabs o' \<and>
      (case op_value o' of
         OPeer p \<Rightarrow>
           if op_typ o' = OpDelete then has_key (tabs ''peers'') ''public_key'' (peer_PublicKey p) else allowed_ips p \<noteq> []
       | OInterface i \<Rightarrow>
           if op_typ o' = OpDelete then has_key (tabs ''interfaces'') ''name'' (intf_Name i)
           else \<not> isl (wg_ParseKey wg (intf_PrivateKey i))
       | _ \<Rightarrow> True))"

text \<open>All operations of a log, from some tables on, are accepted.\<close>

fun tracks :: "wgkeys \<Rightarrow> op list \<Rightarrow> tables \<Rightarrow> bool" where
  "tracks wg [] tabs = True"
| "tracks wg (o' # os) tabs =
     (accepted wg tabs o' \<and>
      (case ApplyOp sql_ok (Model wg) o' tabs of Inl _ \<Rightarrow> False | Inr tabs' \<Rightarrow> tracks wg os tabs'))"

lemma accepted_covered: "accepted wg tabs o' \<Longrightarrow> covered wg tabs o'"
  by (simp add: accepted_def)

lemma startInterface_works:
  assumes law: "kernel_law kn devs" and kn: "kernel_works kn devs"
  shows "\<exists>k'. startInterface kn i k = (None, k')"
proof -
  let ?n = "intf_Name i"
  obtain k1 where k1: "(if kn_LinkByName kn ?n k then delete_link kn ?n k else (None, k)) = (None, k1)"
    "\<not> kn_LinkByName kn ?n k1"
  proof (cases "kn_LinkByName kn ?n k")
    case True
    then obtain k0 k1 where "kn_LinkSetDown kn ?n k = (None, k0)" "kn_LinkDel kn ?n k0 = (None, k1)" "\<not> kn_LinkByName kn ?n k1"
      using kn unfolding kernel_works_def by blast
    then show thesis using that [of k1] by (simp add: True delete_link_def seq_calls_None wrap_call_None)
  qed (simp add: that)
  then obtain k2 where k2: "kn_LinkAdd kn ?n 1420 k1 = (None, k2)" using kn unfolding kernel_works_def by blast
  then have d2: "devs k2 ?n \<noteq> None" using law unfolding kernel_law_def by (metis fst_conv snd_conv fun_upd_same option.distinct(1))
  have addr: "\<exists>k'. add_addr kn ?n ip k = (None, k')" if "devs k ?n \<noteq> None" for ip k
    using kn that by (cases ip) (auto simp: kernel_works_def add_addr_def skip_def wrap_call_None)
  obtain k3 where k3: "add_addr kn ?n (intf_IP i) k2 = (None, k3)" using addr [OF d2] by blast
  then have d3: "devs k3 ?n \<noteq> None" using d2 add_addr_devs [OF law] by metis
  obtain k4 where k4: "add_addr kn ?n (intf_IP6 i) k3 = (None, k4)" using addr [OF d3] by blast
  then have "devs k4 ?n \<noteq> None" using d3 add_addr_devs [OF law] by metis
  then obtain k5 where "kn_LinkSetUp kn ?n k4 = (None, k5)" using kn unfolding kernel_works_def by blast
  with k1(1) k2 k3 k4 show ?thesis by (auto simp: startInterface_def seq_calls_None wrap_call_None)
qed

lemma configureWGDevice_works:
  "kernel_works kn devs \<Longrightarrow> devs k (intf_Name i) \<noteq> None \<Longrightarrow> \<exists>k'. configureWGDevice kn i cfg k = (None, k')"
  unfolding kernel_works_def configureWGDevice_def by blast

lemma newInterface_works:
  assumes law: "kernel_law kn devs" and kn: "kernel_works kn devs" and key: "\<not> isl (wg_ParseKey wg (intf_PrivateKey i))"
  shows "\<exists>k'. newInterface wg kn i k = (None, k')"
proof -
  obtain k1 where k1: "startInterface kn i k = (None, k1)" using startInterface_works [OF law kn] by blast
  then have "devs k1 (intf_Name i) \<noteq> None" using startInterface_devs [OF law] by simp
  then have "\<exists>k'. wg_initialize wg kn i k1 = (None, k')"
    using key configureWGDevice_works [OF kn] by (auto simp: wg_initialize_def Let_def split: sum.splits)
  with k1 show ?thesis by (auto simp: newInterface_def seq_calls_None)
qed

lemma mirror_device:
  assumes "mirror (devs k) is ps gw" "map_of (gw_intfs gw) n = Some i"
  shows "devs k (intf_Name i) \<noteq> None"
proof -
  have "intf_Name i = n" "n \<in> intf_Name ` set is" using assms unfolding mirror_def by (blast, metis option.distinct(1))
  then show ?thesis using assms(1) by (auto simp: mirror_def)
qed

lemma configure_peer_works:
  assumes "kernel_works kn devs" "mirror (devs k) is ps gw" "n \<in> intf_Name ` set is"
  shows "\<exists>k'. configure_peer kn (map_of (gw_intfs gw) n) (Inr c) (g, k) = (Returns (Inr ()), (g, k'))"
proof -
  obtain i where i: "map_of (gw_intfs gw) n = Some i" using assms(2,3) unfolding mirror_def by blast
  show ?thesis
    using configureWGDevice_works [of kn devs, OF assms(1) mirror_device [of devs k, OF assms(2) i], of "wgConfig_zero\<lparr>wc_Peers := [c]\<rparr>"]
    by (auto simp: i configure_peer_def)
qed

lemma applyPeer_works:
  assumes kn: "kernel_works kn devs" and m: "mirror (devs k) is ps gw" and key: "key_ok wg p"
    and ips: "t \<noteq> OpDelete \<Longrightarrow> allowed_ips p \<noteq> [] \<and> peer_Interface p \<in> intf_Name ` set is"
    and old: "t \<noteq> OpCreate \<Longrightarrow> q \<in> set ps \<and> peer_PublicKey q = peer_PublicKey p \<and> peer_Interface q \<in> intf_Name ` set is"
    and stays: "t = OpUpdate \<Longrightarrow> peer_Interface q = peer_Interface p"
    and t: "t = OpCreate \<or> t = OpUpdate \<or> t = OpDelete"
  shows "\<exists>s'. applyPeer wg kn t p (gw, k) = (Returns (Inr ()), s')"
proof -
  have intf: "map_of (gw_intfs gw) (peer_Interface p) \<noteq> None" if "t \<noteq> OpDelete"
    using m ips [OF that] unfolding mirror_def by blast
  have idx: "index_of gw (peer_PublicKey p) = peer_Interface q" if "t \<noteq> OpCreate"
    using m old [OF that] by (auto simp: mirror_def index_of_def)
  have cfg: "\<exists>c. peerToConfig wg p u r = Inr c" if "r \<or> t \<noteq> OpDelete" for u r
    using that key ips by (auto simp: peerToConfig_def key_ok_def Let_def)
  note works = configure_peer_works [of kn devs k, OF kn m]
  from t show ?thesis
  proof (elim disjE)
    assume "t = OpCreate"
    with intf cfg [of False False] works ips show ?thesis by (fastforce simp: applyPeer_def OpType_defs Let_def)
  next
    assume "t = OpUpdate"
    with intf cfg [of False True] works ips idx stays show ?thesis by (fastforce simp: applyPeer_def OpType_defs Let_def)
  next
    assume "t = OpDelete"
    with cfg [of True False] works old idx show ?thesis by (fastforce simp: applyPeer_def OpType_defs Let_def)
  qed
qed

lemma ApplyOp_inv [op_invs]: "ApplyOp env (Model wg) o' tabs = Inr tabs' \<Longrightarrow> tables_inv tabs \<Longrightarrow> tables_inv tabs'"
  by (auto simp: ApplyOp_def intro: op_invs split: if_splits)

lemma gateway_progress:
  assumes law: "kernel_law kn devs" and kn: "kernel_works kn devs" and inv: "tables_inv tabs"
    and st: "stored tabs is ps" and m: "mirror (devs k) is ps gw" and acc: "accepted wg tabs o'"
    and tabs': "ApplyOp sql_ok (Model wg) o' tabs = Inr tabs'"
  shows "\<exists>s'. gateway_Apply wg kn o' fromLog (gw, k) = (Returns (Inr ()), s')"
proof -
  have t: "op_typ o' = OpCreate \<or> op_typ o' = OpUpdate \<or> op_typ o' = OpDelete"
    using tabs' by (auto simp: ApplyOp_def split: if_splits)
  note cov = covered_stored [OF st accepted_covered [OF acc]] and keys = stored_keys [OF st] and fk = stored_fk [OF inv st]
  show ?thesis
  proof (cases "op_value o'")
    case (OPeer p)
    have new: "peer_Interface p \<in> intf_Name ` set is" if "op_typ o' = OpCreate"
      using tabs' keys(1) by (auto simp: ApplyOp_def that OPeer Create_effect split: if_splits)
    have "\<exists>q\<in>set ps. peer_PublicKey q = peer_PublicKey p \<and> (op_typ o' = OpUpdate \<longrightarrow> peer_Interface q = peer_Interface p)"
      if "op_typ o' \<noteq> OpCreate"
      using t that acc cov keys(2) by (fastforce simp: OPeer accepted_def OpType_defs)
    then obtain q where q: "op_typ o' \<noteq> OpCreate \<Longrightarrow> q \<in> set ps \<and> peer_PublicKey q = peer_PublicKey p"
      "op_typ o' = OpUpdate \<Longrightarrow> peer_Interface q = peer_Interface p"
      by (cases "op_typ o' = OpCreate") (auto simp: OpType_defs)
    have old: "op_typ o' \<noteq> OpCreate \<Longrightarrow> peer_Interface q \<in> intf_Name ` set is" using q(1) fk by blast
    have "\<exists>s'. applyPeer wg kn (op_typ o') p (gw, k) = (Returns (Inr ()), s')"
    proof (rule applyPeer_works [of kn devs k "is" ps gw, OF kn m _ _ _ q(2) t])
      show "op_typ o' \<noteq> OpDelete \<Longrightarrow> allowed_ips p \<noteq> [] \<and> peer_Interface p \<in> intf_Name ` set is"
        using acc t new old q(2) by (auto simp: OPeer accepted_def OpType_defs)
    qed (use cov q old in \<open>simp_all add: OPeer\<close>)
    then show ?thesis by (auto simp: gateway_Apply_def OPeer)
  next
    case (OInterface i)
    have "intf_Name i \<notin> intf_Name ` set is" if "op_typ o' = OpCreate"
      using tabs' keys(1) by (auto simp: ApplyOp_def that OInterface Create_effect split: if_splits)
    moreover have "intf_Name i \<in> intf_Name ` set is" if "op_typ o' \<noteq> OpCreate"
      using t acc cov keys(1) that by (simp add: OInterface accepted_def)
    moreover have "map_of (gw_intfs gw) (intf_Name i) = None \<longleftrightarrow> intf_Name i \<notin> intf_Name ` set is"
      using m unfolding mirror_def by blast
    ultimately have "map_of (gw_intfs gw) (intf_Name i) = None \<longleftrightarrow> op_typ o' = OpCreate" by blast
    moreover have "\<exists>k'. newInterface wg kn i k = (None, k')" if "op_typ o' = OpCreate"
      using acc newInterface_works [OF law kn] that by (simp add: OInterface accepted_def OpType_defs)
    ultimately have "\<exists>s'. applyInterface wg kn (op_typ o') i (gw, k) = (None, s')"
      using t cov by (auto simp: OInterface applyInterface_def OpType_defs)
    then show ?thesis by (auto simp: gateway_Apply_def OInterface)
  qed (auto simp: gateway_Apply_def)
qed

lemma mirror_all:
  assumes law: "kernel_law kn devs" and kn: "kernel_works kn devs"
    and "tables_inv tabs" "stored tabs is ps" "mirror (devs k) is ps gw" "tracks wg os tabs"
    and "replay (Model wg) os tabs = Inr tabs'"
  shows "\<exists>gw' k' is' ps'. apply_all (gateway_sink wg kn ord) os (gw, k) = Some (gw', k') \<and>
    stored tabs' is' ps' \<and> mirror (devs k') is' ps' gw'"
  using assms(3-)
proof (induction os arbitrary: tabs "is" ps gw k)
  case (Cons o' os)
  obtain t1 where t1: "ApplyOp sql_ok (Model wg) o' tabs = Inr t1" "tracks wg os t1" "replay (Model wg) os t1 = Inr tabs'"
    using Cons.prems(4,5) by (auto split: sum.splits)
  have acc: "accepted wg tabs o'" using Cons.prems(4) by simp
  obtain gw1 k1 where g1: "gateway_Apply wg kn o' True (gw, k) = (Returns (Inr ()), (gw1, k1))"
    using gateway_progress [OF law kn Cons.prems(1-3) acc t1(1)] by fast
  obtain is1 ps1 where "stored t1 is1 ps1" "mirror (devs k1) is1 ps1 gw1"
    using mirror_step [OF law Cons.prems(1-3) accepted_covered [OF acc] t1(1) g1] by blast
  from Cons.IH [OF ApplyOp_inv [OF t1(1) Cons.prems(1)] this t1(2,3)] g1 show ?case by (simp add: gateway_sink_def)
qed auto

lemma accepted_untimed [simp]: "accepted wg tabs (untimed o') = accepted wg tabs o'"
  by (cases "op_value o'") (simp_all add: accepted_def covered_def)

lemma tracks_untimed [simp]: "tracks wg (map untimed os) tabs = tracks wg os tabs"
  by (induction os arbitrary: tabs) (simp_all add: ApplyOp_untimed cong: sum.case_cong)

lemma replay_untimed [simp]: "replay crud (map untimed os) tabs = replay crud os tabs"
  by (induction os arbitrary: tabs) (simp_all add: ApplyOp_untimed cong: sum.case_cong)

lemma replay_inv: "replay (Model wg) os tabs = Inr tabs' \<Longrightarrow> tables_inv tabs \<Longrightarrow> tables_inv tabs'"
  by (induction os arbitrary: tabs) (auto dest: ApplyOp_inv split: sum.splits)

lemma created_peer_configured:
  assumes law: "kernel_law kn devs" and kn: "kernel_works kn devs" and inv: "tables_inv tabs"
    and st: "stored tabs is ps" and m: "mirror (devs k) is ps gw" and acc: "accepted wg tabs o'"
    and o': "op_typ o' = OpCreate" "op_value o' = OPeer p" and tabs': "ApplyOp sql_ok (Model wg) o' tabs = Inr tabs'"
  shows "\<exists>gw' k' conf. gateway_Apply wg kn o' fromLog (gw, k) = (Returns (Inr ()), (gw', k')) \<and>
    devs k' (peer_Interface p) = Some conf \<and> conf (peer_PublicKey p) = Some (allowed_ips p)"
proof -
  obtain gw' k' where ok: "gateway_Apply wg kn o' fromLog (gw, k) = (Returns (Inr ()), (gw', k'))"
    using gateway_progress [OF law kn inv st m acc tabs'] by fast
  have create: "dispatcher_Create sql_ok (Model wg) (OPeer p) tabs = Inr tabs'" using tabs' o' by (simp add: ApplyOp_def)
  have new: "peer_PublicKey p \<notin> peer_PublicKey ` set ps" using stored_create(1) [OF st create] by simp
  have "has_key (tabs ''interfaces'') ''name'' (peer_Interface p)" using create by (simp add: Create_effect split: if_splits)
  then have intf: "peer_Interface p \<in> intf_Name ` set is" using stored_keys(1) [OF st] by simp
  have key: "key_ok wg p" using acc o' by (simp add: accepted_def covered_def)
  obtain gw1 where "applyPeer wg kn OpCreate p (gw, k) = (Returns (Inr ()), (gw1, k'))"
    using gateway_Apply_cases [OF ok] o' by metis
  from mirror_peer_create [OF law m key new this] intf
  have "devs k' (peer_Interface p) = Some (peers_conf (ps @ [p]) (peer_Interface p))" by (auto simp: mirror_def)
  moreover have "peers_conf (ps @ [p]) (peer_Interface p) (peer_PublicKey p) = Some (allowed_ips p)"
    by (simp add: conf_add [OF new])
  ultimately show ?thesis using ok by blast
qed

lemma follower_mirrors:
  assumes kn: "kernel_law kn devs" "kernel_works kn devs"
    and log: "represents wg (os @ os') d" "replay (Model wg) os (\<lambda>_. []) = Inr tabs" "map untimed xs = os'"
    and gw: "stored tabs is ps" "mirror (devs k) is ps gw" "gw_seq gw = of_nat (length os)"
    and acc: "tracks wg os' tabs"
  shows "\<exists>gw' k' is' ps'. apply_all (gateway_sink wg kn ord) xs (gw, k) = Some (gw', k') \<and>
    stored (db_tables d) is' ps' \<and> mirror (devs k') is' ps' gw' \<and> db_sequence d = [gw_seq gw']"
proof -
  have seq: "db_sequence d = [of_nat (length (os @ os'))]" and "replay (Model wg) os' tabs = Inr (db_tables d)"
    using log(1,2) by (simp_all add: represents_def replay_append)
  then have "tracks wg xs tabs" "replay (Model wg) xs tabs = Inr (db_tables d)"
    using acc unfolding log(3) [symmetric] by simp_all
  then obtain gw' k' is' ps' where all: "apply_all (gateway_sink wg kn ord) xs (gw, k) = Some (gw', k')"
    and "stored (db_tables d) is' ps'" "mirror (devs k') is' ps' gw'"
    using mirror_all [OF kn replay_inv [OF log(2) tables_inv_empty] gw(1,2)] by blast
  moreover have "map op_seq xs = map of_nat [Suc (length os)..<Suc (length os + length os')]"
    using represents_drop_seqs [OF log(1), of "length os"] unfolding log(3) [symmetric] by (simp add: comp_def del: upt_Suc)
  then have "db_sequence d = [gw_seq gw']"
    using gws.apply_all_sequence [OF TrueI all] gw(3) seq
    by (cases os') (simp_all add: gateway_sink_def gateway_LatestSequence_def)
  ultimately show ?thesis by blast
qed

lemma gateway_follows:
  assumes kn: "kernel_law kn devs" "kernel_works kn devs"
    and s: "sys_reach wg s" "represents wg (os @ os0) (sys_db s)"
    and start: "replay (Model wg) os (\<lambda>_. []) = Inr tabs" "Suc (length os) < 2 ^ 63"
    and gw: "stored tabs is ps" "mirror (devs k) is ps gw" "gw_seq gw = of_nat (length os)"
  shows "\<exists>sub p1 s1. s1 = s\<lparr>sys_ps := p1, sys_subs := sys_subs s @ [Notify (gw_seq gw + 1) sub]\<rparr> \<and>
    sys_step wg s s1 \<and> sub_ch sub \<in> set (ps_subscribers p1) \<and>
    (\<forall>s2 os'. (sys_step wg)\<^sup>*\<^sup>* s1 s2 \<and> sub_ch sub \<in> set (ps_subscribers (sys_ps s2)) \<and>
        represents wg (os @ os') (sys_db s2) \<and> tracks wg os' tabs \<longrightarrow>
      (\<exists>s' gw' k' is' ps'. (deliver_step (length (sys_subs s)))\<^sup>*\<^sup>* s2 s' \<and>
        doFollow (datastore_source src_ord wg) (gateway_sink wg kn ord)
          (\<lambda>_. map Received (ss_seen (sys_subs s' ! length (sys_subs s)))) ((sys_db s, sys_ps s), (gw, k)) =
          (Blocks, ((sys_db s, p1), (gw', k'))) \<and>
        stored (db_tables (sys_db s2)) is' ps' \<and> mirror (devs k') is' ps' gw' \<and> db_sequence (sys_db s2) = [gw_seq gw']))"
proof -
  let ?dst = "gateway_sink wg kn ord" and ?i = "length (sys_subs s)"
  have q: "snk_LatestSequence ?dst (gw, k) = gw_seq gw" by (simp add: gateway_sink_def gateway_LatestSequence_def)
  have n: "snk_LatestSequence ?dst (gw, k) = of_nat (length os)" "length os \<le> length (os @ os0)" by (simp_all add: q gw(3))
  obtain sub p1 where sub: "Subscribe sql_ok (Model wg) (gw_seq gw + 1) (sys_db s, sys_ps s) = (Returns (Inr sub), (sys_db s, p1))"
      "sub_ch sub \<in> set (ps_subscribers p1)"
    and conn: "follow_connect (datastore_source src_ord wg) ?dst True (gw_seq gw) ((sys_db s, sys_ps s), (gw, k)) =
      (Returns (Inr sub), ((sys_db s, p1), (gw, k)))"
    and next_seq: "unat (gw_seq gw + 1) = Suc (length os)"
    by (rule source_connects [OF s(2) n start(2), of "sys_ps s" src_ord, unfolded q])
  let ?s1 = "s\<lparr>sys_ps := p1, sys_subs := sys_subs s @ [Notify (gw_seq gw + 1) sub]\<rparr>"
  have all: "\<exists>s' gw' k' is' ps'. (deliver_step ?i)\<^sup>*\<^sup>* s2 s' \<and>
      doFollow (datastore_source src_ord wg) ?dst (\<lambda>_. map Received (ss_seen (sys_subs s' ! ?i)))
        ((sys_db s, sys_ps s), (gw, k)) = (Blocks, ((sys_db s, p1), (gw', k'))) \<and>
      stored (db_tables (sys_db s2)) is' ps' \<and> mirror (devs k') is' ps' gw' \<and> db_sequence (sys_db s2) = [gw_seq gw']"
    if s2: "(sys_step wg)\<^sup>*\<^sup>* ?s1 s2" "sub_ch sub \<in> set (ps_subscribers (sys_ps s2))"
      and rep: "represents wg (os @ os') (sys_db s2)" and acc: "tracks wg os' tabs" for s2 os'
  proof -
    obtain s' os2 where s': "(deliver_step ?i)\<^sup>*\<^sup>* s2 s'" "represents wg os2 (sys_db s2)"
      "map untimed (ss_seen (sys_subs s' ! ?i)) = drop (length os) os2"
      by (rule connected_reads [OF s sub(1) next_seq s2])
    have "map untimed (ss_seen (sys_subs s' ! ?i)) = os'" using s'(3) represents_unique [OF rep s'(2)] by auto
    from follower_mirrors [OF kn rep start(1) this gw acc, of ord] doFollow_received [OF conn [folded q]] s'(1)
    show ?thesis by blast
  qed
  have step: "sys_step wg s ?s1" using sys_step.subscribes [OF sub(1)] by simp
  show ?thesis
    by (rule exI [of _ sub], rule exI [of _ p1], rule exI [of _ ?s1], intro conjI refl step sub(2) allI impI)
      (elim conjE, rule all)
qed


lemma kernel_works_sample: "kernel_works sample_kernel (\<lambda>k. k)"
  by (auto simp: kernel_works_def sample_kernel_def)


text \<open>Closing the gateway removes the devices of all its interfaces and no other.\<close>

lemma stopInterface_works:
  assumes "kernel_law kn devs" "kernel_works kn devs"
  shows "devs (snd (stopInterface kn i k)) = (devs k)(intf_Name i := None)"
proof -
  have "fst (stopInterface kn i k) = None"
  proof (cases "kn_LinkByName kn (intf_Name i) k")
    case True
    then obtain k0 k1 where "kn_LinkSetDown kn (intf_Name i) k = (None, k0)" "kn_LinkDel kn (intf_Name i) k0 = (None, k1)"
      using assms(2) unfolding kernel_works_def by blast
    then show ?thesis by (simp add: True stopInterface_def delete_link_def seq_calls_def wrap_call_def)
  qed (simp add: stopInterface_def)
  then show ?thesis using stopInterface_devs [OF assms(1)] by (metis prod.collapse)
qed

lemma closeAllInterfaces_devs:
  assumes "kernel_law kn devs" "kernel_works kn devs" "\<forall>n i. map_of m n = Some i \<longrightarrow> intf_Name i = n"
  shows "devs (closeAllInterfaces kn m ord k) n = (if n \<in> set ord \<and> map_of m n \<noteq> None then None else devs k n)"
  using assms(3)
  by (induction ord arbitrary: k) (auto simp: stopInterface_works [OF assms(1,2)] split: option.split)

lemma Close_removes_devices:
  assumes "kernel_law kn devs" "kernel_works kn devs" "mirror (devs k) is ps gw" "intf_Name ` set is \<subseteq> set ord"
  shows "devs (gateway_Close kn ord (gw, k)) n = (if n \<in> intf_Name ` set is then None else devs k n)"
proof -
  have "map_of (gw_intfs gw) n \<noteq> None \<longleftrightarrow> n \<in> intf_Name ` set is" "\<forall>n i. map_of (gw_intfs gw) n = Some i \<longrightarrow> intf_Name i = n"
    using assms(3) unfolding mirror_def by blast+
  then show ?thesis
    using assms(4) by (auto simp: gateway_Close_def closeAllInterfaces_devs [OF assms(1,2)])
qed

text \<open>No error of the devices or of the collector ends the collection of statistics.\<close>

lemma statsLoop_goes_on:
  assumes "\<And>st c. \<exists>r c'. collector st c = (Returns r, c')"
  shows "fst (statsLoop kn collector ticks c) = Blocks"
proof (induction ticks arbitrary: c)
  case (Cons t ticks)
  have "\<exists>r c'. updateStats kn collector (fst t) (snd t) c = (Returns r, c')"
    using assms by (simp add: updateStats_def split: sum.split)
  then show ?case using Cons by (cases t) auto
qed simp

section \<open>Operations that break a gateway\<close>



text \<open>
  C39: a gateway never survives a change to an interface. The device is deleted first and
  configured while it does not exist, so the operation always fails; the device is gone with
  all its peers, and the gateway asks for the same operation again.
\<close>

theorem interface_update_fails:
  assumes "kernel_law kn devs" "op_value o' = OInterface j" "op_typ o' = OpUpdate"
    and "map_of (gw_intfs gw) (intf_Name j) = Some i" "intf_Name i = intf_Name j"
    and "fst (stopInterface kn i k) = None"
  shows "\<exists>e gw' k'. gateway_Apply wg kn o' fromLog (gw, k) = (Returns (Inl e), (gw', k')) \<and>
    devs k' (intf_Name j) = None \<and> gateway_LatestSequence (gw', k') = gateway_LatestSequence (gw, k)"
proof -
  obtain k1 where k1: "stopInterface kn i k = (None, k1)" using assms(6) by (cases "stopInterface kn i k") simp
  then have d1: "devs k1 (intf_Name j) = None"
    using stopInterface_devs [OF assms(1) k1] assms(5) by simp
  have conf: "\<exists>e k2. kn_ConfigureDevice kn (intf_Name j) cfg k1 = (Some e, k2) \<and> devs k2 (intf_Name j) = None" for cfg
  proof -
    have "if fst (kn_ConfigureDevice kn (intf_Name j) cfg k1) = None
        then \<exists>m. devs k1 (intf_Name j) = Some m \<and>
          devs (snd (kn_ConfigureDevice kn (intf_Name j) cfg k1)) = (devs k1)(intf_Name j \<mapsto> config_device cfg m)
        else \<forall>n'. devs (snd (kn_ConfigureDevice kn (intf_Name j) cfg k1)) n' = None \<longleftrightarrow> devs k1 n' = None"
      using assms(1) unfolding kernel_law_def by blast
    with d1 show ?thesis by (cases "kn_ConfigureDevice kn (intf_Name j) cfg k1") (auto split: if_splits)
  qed
  have "\<exists>e k2. wg_initialize wg kn j k1 = (Some e, k2) \<and> devs k2 (intf_Name j) = None"
    using conf d1 by (auto simp: wg_initialize_def configureWGDevice_def Let_def split: sum.splits)
  then obtain e k2 where "wg_initialize wg kn j k1 = (Some e, k2)" "devs k2 (intf_Name j) = None" by blast
  with assms(2-4) k1 show ?thesis
    by (simp add: gateway_Apply_def applyInterface_def reconfigure_def seq_calls_def gateway_LatestSequence_def OpType_defs)
qed

theorem interface_update_fails_witness:
  "\<exists>gw k e gw' k'. k ''wg0'' \<noteq> None \<and>
     gateway_Apply sample_wg sample_kernel (WithSequence 2 (newOp 6 OpUpdate (OInterface sample_interface))) True (gw, k) =
       (Returns (Inl e), (gw', k')) \<and> k' ''wg0'' = None"
proof -
  obtain gw :: Gateway and k :: devices where gw: "map_of (gw_intfs gw) ''wg0'' = Some sample_interface" "k ''wg0'' \<noteq> None"
    using sample_gateway_create by blast
  have nm: "intf_Name sample_interface = ''wg0''" by (simp add: sample_interface_def)
  let ?o = "WithSequence 2 (newOp 6 OpUpdate (OInterface sample_interface))"
  have "op_value ?o = OInterface sample_interface" "op_typ ?o = OpUpdate" by (simp_all add: WithSequence_def newOp_def)
  moreover have "fst (stopInterface sample_kernel sample_interface k) = None"
    by (simp add: stopInterface_def delete_link_def seq_calls_def wrap_call_def sample_kernel_def)
  ultimately have "\<exists>e gw' k'. gateway_Apply sample_wg sample_kernel ?o True (gw, k) = (Returns (Inl e), (gw', k')) \<and>
      k' ''wg0'' = None"
    using interface_update_fails [OF kernel_law_sample, of ?o sample_interface gw sample_interface k sample_wg True] gw nm by auto
  with gw(2) show ?thesis by blast
qed

end
