(* ===== verification/Server.thy ===== *)
theory Server
  imports Remote_Log Commands Registration Expire Gateway_Props
begin

text \<open>
  The API server (\<^verbatim>\<open>cmd/wig/api.go\<close>): the routes it serves, who may use them and what
  requests can change.
\<close>

section \<open>The state of the API server\<close>

text \<open>
  One database and one publish-subscribe registry, which all handlers share, and the finder of
  sessions, which only a primary has.
\<close>

type_synonym server = "(db \<times> pubsub) \<times> SessionFinder"

definition server_tables :: "server \<Rightarrow> tables" where
  "server_tables s = db_tables (fst (fst s))"

definition put_store :: "db \<times> pubsub \<Rightarrow> server \<Rightarrow> server" where
  "put_store p s = (p, snd s)"

definition get_sessions :: "server \<Rightarrow> tables \<times> SessionFinder" where
  "get_sessions s = (server_tables s, snd s)"

definition put_sessions :: "tables \<times> SessionFinder \<Rightarrow> server \<Rightarrow> server" where
  "put_sessions ts s = (((fst (fst s))\<lparr>db_tables := fst ts\<rparr>, snd (fst s)), snd ts)"

text \<open>The interfaces of the datastore, seen from the state of the server.\<close>

definition store_API :: "(db \<times> pubsub, 'm) crud_API \<Rightarrow> (server, 'm) crud_API" where
  "store_API api =
     \<lparr>ca_Create = (\<lambda>ob s. case ca_Create api ob (fst s) of (r, p) \<Rightarrow> (r, put_store p s)),
      ca_Update = (\<lambda>ob s. case ca_Update api ob (fst s) of (r, p) \<Rightarrow> (r, put_store p s)),
      ca_Delete = (\<lambda>ob s. case ca_Delete api ob (fst s) of (r, p) \<Rightarrow> (r, put_store p s)),
      ca_Find = (\<lambda>typ query f (s, m). case ca_Find api typ query f (fst s, m) of (r, (p, m')) \<Rightarrow> (r, (put_store p s, m')))\<rparr>"

definition store_source :: "sqlenv \<Rightarrow> wgkeys \<Rightarrow> string list \<Rightarrow> (server, subscription) LogSource" where
  "store_source env wg ord =
     \<lparr>src_Subscribe = (\<lambda>start s. case Subscribe env (Model wg) start (fst s) of (r, p) \<Rightarrow> (r, put_store p s)),
      src_Snapshot = (\<lambda>s. (Returns (Snapshot env (Model wg) ord (fst s)), s))\<rparr>"

section \<open>The API server\<close>

record apiCommand =
  ac_tls :: TLSFlags
  ac_addr :: string
  ac_dburi :: string
  ac_logURL :: string
  ac_authType :: string
  ac_authTLSRoleSpec :: string

text \<open>What is around the process: the database engine, the libraries and the clock.\<close>

record 'r surroundings =
  su_sql :: sqlenv
  su_wg :: wgkeys
  su_ord :: "string list"
  su_ops :: "subscription \<Rightarrow> op list"
  su_ranger :: "'r ranger"
  su_tls :: tlslib
  su_missing :: "string \<Rightarrow> bool"
  su_geo :: "string \<Rightarrow> geodb result"
  su_now :: gotime

definition apiCommand_SetFlags :: "(string, string) gomap \<Rightarrow> FlagSet \<Rightarrow> FlagSet outcome" where
  "apiCommand_SetFlags conf f =
     (case define_flags
        [(''addr'', '':5005''), (''db'', []), (''max-log-age'', ''2880h0m0s''), (''log-url'', []),
         (''auth'', ''bearer''), (''tls-roles'', [])] f of
        Returns f \<Rightarrow>
          (case ServerTLSFlags_SetFlags f of
             Returns f \<Rightarrow> ClientCommand_SetFlags conf f
           | Blocks \<Rightarrow> Blocks
           | Panics m \<Rightarrow> Panics m)
      | Blocks \<Rightarrow> Blocks
      | Panics m \<Rightarrow> Panics m)"

text \<open>
  The server of the \<^verbatim>\<open>net/http\<close> package. \<^verbatim>\<open>ListenAndServe\<close> accepts plain connections, whatever
  the TLS configuration is, so that no request comes with certificates.
\<close>

record 's http_Server =
  hs_Addr :: string
  hs_Handler :: "'s handler"
  hs_TLSConfig :: "tls_Config option"

definition makeHTTPServer :: "'s handler \<Rightarrow> string \<Rightarrow> tls_Config option \<Rightarrow> 's http_Server" where
  "makeHTTPServer h addr tlsConf = \<lparr>hs_Addr = addr, hs_Handler = h, hs_TLSConfig = tlsConf\<rparr>"

definition ListenAndServe :: "'s http_Server \<Rightarrow> 's handler" where
  "ListenAndServe server req = hs_Handler server (req\<lparr>rq_certs := None\<rparr>)"

definition runHTTPServerWithContext :: "'s http_Server \<Rightarrow> 's handler" where
  "runHTTPServerWithContext server = ListenAndServe server"

text \<open>
  The goroutine that starts the HTTP server, with the state the server starts from. Sessions
  and registration are only there on a primary.
\<close>

definition server_API :: "'r surroundings \<Rightarrow> apiCommand \<Rightarrow> server API \<Rightarrow> server API" where
  "server_API su c httpAPI =
     (let api = store_API (datastore_API (su_sql su) (su_wg su) (su_now su) (ac_logURL c));
          httpAPI = API_Add (Model_API (Model (su_wg su)) (su_ord su) api apiURLBase) httpAPI
      in API_Add (LogSource_BuildAPI (store_source (su_sql su) (su_wg su) (su_ord su)) (Model (su_wg su)) (su_ops su)) httpAPI)"

definition primary_API :: "'r surroundings \<Rightarrow> server API \<Rightarrow> server API" where
  "primary_API su httpAPI =
     (let httpAPI = API_Add (Sessions_BuildAPI (su_sql su) (su_now su) get_sessions put_sessions) httpAPI
      in API_Add (Registration_BuildAPI (su_sql su) (su_ranger su) (su_now su) server_tables) httpAPI)"

definition start_http :: "'r surroundings \<Rightarrow> apiCommand \<Rightarrow> server \<Rightarrow> (server http_Server \<times> server) result" where
  "start_http su c s =
     (case TLSServerConfig (su_tls su) (ac_tls c) of
        Inl e \<Rightarrow> Inl e
      | Inr tlsConf \<Rightarrow>
          (case apiCommand_api (ac_authType c) (ac_authTLSRoleSpec c) (su_sql su) server_tables of
             Inl e \<Rightarrow> Inl e
           | Inr httpAPI \<Rightarrow>
               (let httpAPI = server_API su c httpAPI
                in if ac_logURL c = [] then
                     (case NewSessionFinder (su_sql su) (su_missing su) (su_geo su) (server_tables s) of
                        Inl e \<Rightarrow> Inl e
                      | Inr sf \<Rightarrow>
                          Inr (makeHTTPServer (mux_ServeHTTP (api_mux (primary_API su httpAPI))) (ac_addr c) tlsConf,
                            (fst s, sf)))
                   else
                     Inr (makeHTTPServer (mux_ServeHTTP (api_mux httpAPI)) (ac_addr c) tlsConf, s))))"

section \<open>Every route asks for a permission\<close>

text \<open>The routes of the server: the target that is asked for and the handler behind it.\<close>

definition type_routes :: "'r surroundings \<Rightarrow> apiCommand \<Rightarrow> (string \<times> server handler) set" where
  "type_routes su c =
     (\<Union>n\<in>set (su_ord su).
        let t = the (map_of (byName (Model (su_wg su))) n);
            api = store_API (datastore_API (su_sql su) (su_wg su) (su_now su) (ac_logURL c))
        in {(''write-'' @ ad_typename t, handleCreate t api), (''write-'' @ ad_typename t, handleUpdate t api),
            (''write-'' @ ad_typename t, handleDelete t api), (''read-'' @ ad_typename t, handleFind t api)})"

definition log_routes :: "'r surroundings \<Rightarrow> (string \<times> server handler) set" where
  "log_routes su =
     (let src = store_source (su_sql su) (su_wg su) (su_ord su)
      in {(''read-log'', handleSubscribe src (Model (su_wg su)) (su_ops su)), (''read-log'', handleSnapshot src)})"

definition primary_routes :: "'r surroundings \<Rightarrow> (string \<times> server handler) set" where
  "primary_routes su =
     {(''write-sessions'', on_part get_sessions put_sessions (handleReceive (su_sql su) (su_now su))),
      (''read-sessions'', on_part get_sessions put_sessions (handleGetSessions (su_sql su))),
      (''register-peer'', handleRegisterPeer (su_sql su) (su_ranger su) (su_now su) server_tables)}"

definition routes :: "'r surroundings \<Rightarrow> apiCommand \<Rightarrow> (string \<times> server handler) set" where
  "routes su c = type_routes su c \<union> log_routes su \<union> (if ac_logURL c = [] then primary_routes su else {})"

text \<open>A handler that answers 404 or asks for the target of one of the routes \<open>R\<close>.\<close>

definition guarded :: "'s API \<Rightarrow> (string \<times> 's handler) set \<Rightarrow> 's handler \<Rightarrow> bool" where
  "guarded a R h \<longleftrightarrow>
     (\<forall>req w s. h req w s = (Returns (), (http_Error ''404 page not found'' 404 w, s)) \<or>
        (\<exists>(target, g)\<in>R. h req w s = WithAuth a target g req w s))"

lemma guarded_mono: "guarded a R h \<Longrightarrow> R \<subseteq> R' \<Longrightarrow> guarded a R' h"
  unfolding guarded_def by (meson subsetD)

lemma guarded_cases:
  assumes "guarded a R h"
  obtains "h req w s = (Returns (), (http_Error ''404 page not found'' 404 w, s))"
    | target g where "(target, g) \<in> R" "h req w s = WithAuth a target g req w s"
  using assms unfolding guarded_def by blast

lemma guarded_WithAuth: "(target, g) \<in> R \<Longrightarrow> guarded a R (WithAuth a target g)"
  unfolding guarded_def by blast

lemma guarded_mux:
  assumes "\<And>pat h. (pat, h) \<in> set m \<Longrightarrow> guarded a R h"
  shows "guarded a R (mux_ServeHTTP m)"
  unfolding guarded_def
proof (intro allI)
  fix req w s
  show "mux_ServeHTTP m req w s = (Returns (), (http_Error ''404 page not found'' 404 w, s)) \<or>
        (\<exists>(target, g)\<in>R. mux_ServeHTTP m req w s = WithAuth a target g req w s)"
  proof (cases "mux_find (rq_url req) m")
    case None
    then show ?thesis by (simp add: mux_ServeHTTP_def)
  next
    case (Some ph)
    then obtain pat h where "mux_find (rq_url req) m = Some (pat, h)" by (cases ph) auto
    moreover have "guarded a R h" using assms mux_find_mem [OF calculation] by blast
    ultimately show ?thesis by (simp add: mux_ServeHTTP_def guarded_def)
  qed
qed

lemma WithAuth_cong:
  "api_authn a = api_authn b \<Longrightarrow> api_authz a = api_authz b \<Longrightarrow> WithAuth a = WithAuth b"
  by (intro ext) (simp add: WithAuth_def split: sum.split)

lemma API_Handle_sel [simp]:
  "api_authn (API_Handle p h a) = api_authn a" "api_authz (API_Handle p h a) = api_authz a"
  "api_mux (API_Handle p h a) = api_mux a @ [(p, h)]"
  by (simp_all add: API_Handle_def)

lemma Model_API_sel:
  assumes "map_order (Model wg) ord"
  shows "api_authn (Model_API (Model wg) ord api pfx hapi) = api_authn hapi"
    "api_authz (Model_API (Model wg) ord api pfx hapi) = api_authz hapi"
proof -
  have "set ord = {''peer'', ''interface'', ''token''}"
    using assms by (simp add: map_order_def byName_Model_keys)
  then have "Model_API (Model wg) ord api pfx hapi = hapi\<lparr>api_mux := api_mux hapi @
      map (\<lambda>n. let t = the (map_of (byName (Model wg)) n)
        in (JoinURL [pfx, ad_typename t] @ ''/'', newTypeHTTPHandler t api (JoinURL [pfx, ad_typename t] @ ''/'') hapi)) ord\<rparr>"
    using registry_each_handle [of ord "Model wg" "\<lambda>t. JoinURL [pfx, ad_typename t] @ ''/''"
        "\<lambda>t. newTypeHTTPHandler t api (JoinURL [pfx, ad_typename t] @ ''/'') hapi" hapi]
    by (simp add: Model_API_def Let_def byName_Model_keys)
  then show "api_authn (Model_API (Model wg) ord api pfx hapi) = api_authn hapi"
    "api_authz (Model_API (Model wg) ord api pfx hapi) = api_authz hapi" by simp_all
qed

lemma newTypeHTTPHandler_guarded:
  "guarded hapi {(''write-'' @ ad_typename t, handleCreate t api), (''write-'' @ ad_typename t, handleUpdate t api),
     (''write-'' @ ad_typename t, handleDelete t api), (''read-'' @ ad_typename t, handleFind t api)}
   (newTypeHTTPHandler t api pfx hapi)"
  unfolding newTypeHTTPHandler_def by (rule guarded_mux) (auto intro: guarded_WithAuth)

lemma server_guarded:
  assumes ord: "map_order (Model (su_wg su)) (su_ord su)" and a: "api_mux a = []"
  shows "guarded a (routes su c) (mux_ServeHTTP (api_mux (server_API su c a)))"
    "ac_logURL c = [] \<Longrightarrow> guarded a (routes su c) (mux_ServeHTTP (api_mux (primary_API su (server_API su c a))))"
proof -
  let ?api = "store_API (datastore_API (su_sql su) (su_wg su) (su_now su) (ac_logURL c))"
  let ?m = "Model_API (Model (su_wg su)) (su_ord su) ?api apiURLBase a"
  have wa: "WithAuth ?m = WithAuth a" "WithAuth (API_Handle p h ?m) = WithAuth a"
    "WithAuth (API_Handle p h (API_Handle p' h' ?m)) = WithAuth a"
    "WithAuth (API_Handle p'' h'' (API_Handle p h (API_Handle p' h' ?m))) = WithAuth a"
    "WithAuth (API_Handle p3 h3 (API_Handle p'' h'' (API_Handle p h (API_Handle p' h' ?m)))) = WithAuth a"
    for p h p' h' p'' h'' p3 h3
    by (rule WithAuth_cong; simp add: Model_API_sel [OF ord])+
  have types: "guarded a (routes su c) h" if mem: "(pat, h) \<in> set (api_mux ?m)" for pat h
  proof -
    obtain n where n: "n \<in> set (su_ord su)"
      "h = newTypeHTTPHandler (the (map_of (byName (Model (su_wg su))) n)) ?api (''/api/v1/'' @ n @ ''/'') a"
      using mem a by (auto simp: Model_API_mux [OF ord] apiURLBase_def)
    show ?thesis
      unfolding n(2)
      by (rule guarded_mono [OF newTypeHTTPHandler_guarded]) (use n(1) in \<open>auto simp: routes_def type_routes_def Let_def\<close>)
  qed
  have log: "guarded a (routes su c) h" if "(pat, h) \<in> set (api_mux (server_API su c a))" for pat h
    using that types
    by (auto simp: server_API_def API_Add_def LogSource_BuildAPI_def Let_def wa routes_def log_routes_def
        intro!: guarded_WithAuth)
  then show "guarded a (routes su c) (mux_ServeHTTP (api_mux (server_API su c a)))" by (rule guarded_mux)
  assume prim: "ac_logURL c = []"
  have wa': "WithAuth (server_API su c a) = WithAuth a" "WithAuth (API_Handle p h (server_API su c a)) = WithAuth a"
     "WithAuth (API_Handle p' h' (API_Handle p h (server_API su c a))) = WithAuth a" for p h p' h'
    by (rule WithAuth_cong; simp add: server_API_def API_Add_def LogSource_BuildAPI_def Let_def Model_API_sel [OF ord])+
  show "guarded a (routes su c) (mux_ServeHTTP (api_mux (primary_API su (server_API su c a))))"
    by (rule guarded_mux)
      (use log prim in \<open>auto simp: primary_API_def API_Add_def Sessions_BuildAPI_def Registration_BuildAPI_def Let_def
        wa' routes_def primary_routes_def intro!: guarded_WithAuth\<close>)
qed

text \<open>The routes of the types are not shadowed by the others.\<close>

lemma mux_find_append:
  assumes "\<forall>pat\<in>fst ` set m'. \<not> mux_matches path pat"
  shows "mux_find path (m @ m') = mux_find path m"
proof (induction m)
  case Nil
  show ?case using assms by (induction m') auto
qed auto

lemma start_http_type:
  assumes ord: "map_order (Model (su_wg su)) (su_ord su)" and run: "start_http su c s0 = Inr (server, s1)"
    and api: "apiCommand_api (ac_authType c) (ac_authTLSRoleSpec c) (su_sql su) server_tables = Inr a"
    and ob: "storable ob" "verb \<in> verbs" and url: "rq_url req = (''/api/v1/'' @ type_name ob) @ ''/'' @ verb"
  shows "hs_Handler server req w s =
    newTypeHTTPHandler (adapter_of (su_wg su) ob)
      (store_API (datastore_API (su_sql su) (su_wg su) (su_now su) (ac_logURL c)))
      ((''/api/v1/'' @ type_name ob) @ ''/'') a req w s"
proof -
  let ?m = "Model_API (Model (su_wg su)) (su_ord su)
    (store_API (datastore_API (su_sql su) (su_wg su) (su_now su) (ac_logURL c))) ''/api/v1'' a"
  have a: "api_mux a = []" using api by (auto simp: apiCommand_api_def API_New_def split: if_splits sum.splits)
  have other: "\<not> mux_matches (rq_url req) pat"
    if "pat \<in> {apiURLSnapshot, apiURLSubscribe, apiURLReceive, apiURLGetSessions, apiURLRegisterPeer}" for pat
    using that ob(1)
    by (cases ob) (auto simp: url mux_matches_def strings_HasSuffix_def strings_HasPrefix_def apiURLSnapshot_def apiURLSubscribe_def apiURLReceive_def
        apiURLGetSessions_def apiURLRegisterPeer_def)
  obtain m' where m': "hs_Handler server = mux_ServeHTTP (api_mux ?m @ m')"
    "fst ` set m' \<subseteq> {apiURLSnapshot, apiURLSubscribe, apiURLReceive, apiURLGetSessions, apiURLRegisterPeer}"
    using run api
    by (auto simp: start_http_def makeHTTPServer_def server_API_def primary_API_def API_Add_def LogSource_BuildAPI_def
        Sessions_BuildAPI_def Registration_BuildAPI_def apiURLBase_def Let_def split: sum.splits if_splits)
  have "mux_find (rq_url req) (api_mux ?m @ m') = mux_find (rq_url req) (api_mux ?m)"
    using m'(2) other by (intro mux_find_append) blast
  with route_type [OF ord a ob, of "store_API (datastore_API (su_sql su) (su_wg su) (su_now su) (ac_logURL c))"] m'(1) show ?thesis
    by (simp add: url mux_ServeHTTP_def)
qed

section \<open>What the handlers leave alone\<close>

definition preserves :: "('s \<Rightarrow> bool) \<Rightarrow> 's handler \<Rightarrow> bool" where
  "preserves I h \<longleftrightarrow> (\<forall>req w s r w' s'. I s \<longrightarrow> h req w s = (r, (w', s')) \<longrightarrow> I s')"

definition keeps :: "('s \<Rightarrow> 'v) \<Rightarrow> 's handler \<Rightarrow> bool" where
  "keeps v h \<longleftrightarrow> (\<forall>x. preserves (\<lambda>s. v s = x) h)"

lemma preservesI: "(\<And>req w s r w' s'. I s \<Longrightarrow> h req w s = (r, (w', s')) \<Longrightarrow> I s') \<Longrightarrow> preserves I h"
  unfolding preserves_def by blast

lemma preservesD: "preserves I h \<Longrightarrow> h req w s = (r, (w', s')) \<Longrightarrow> I s \<Longrightarrow> I s'"
  unfolding preserves_def by blast

lemma keepsI: "(\<And>req w s r w' s'. h req w s = (r, (w', s')) \<Longrightarrow> v s' = v s) \<Longrightarrow> keeps v h"
  by (auto simp: keeps_def intro!: preservesI)

lemma keepsD: "keeps v h \<Longrightarrow> h req w s = (r, (w', s')) \<Longrightarrow> v s' = v s"
  unfolding keeps_def preserves_def by metis

lemma keeps_preserves: "keeps v h \<Longrightarrow> preserves (\<lambda>s. I (v s)) h"
  by (auto intro!: preservesI dest!: keepsD)

lemma ServeJSON_preserves:
  "(\<And>x s r s'. f x s = (r, s') \<Longrightarrow> I s \<Longrightarrow> I s') \<Longrightarrow> preserves I (ServeJSON reg dec f)"
  by (rule preservesI) (fastforce simp: ServeJSON_def split: call_splits option.splits)

lemma ServeJSON_keeps:
  "(\<And>x s r s'. f x s = (r, s') \<Longrightarrow> v s' = v s) \<Longrightarrow> keeps v (ServeJSON reg dec f)"
  unfolding keeps_def by (auto intro!: ServeJSON_preserves)

lemma WithAuth_preserves: "preserves I h \<Longrightarrow> preserves I (WithAuth a target h)"
  by (rule preservesI) (auto simp: WithAuth_def dest: preservesD split: sum.splits outcome.splits bool.splits)

lemma guarded_preserves:
  assumes "guarded a R h" "\<And>target g. (target, g) \<in> R \<Longrightarrow> preserves I g"
  shows "preserves I h"
proof (rule preservesI)
  fix req w s r w' s'
  assume I: "I s" and run: "h req w s = (r, (w', s'))"
  from assms(1) show "I s'"
  proof (cases rule: guarded_cases [where req = req and w = w and s = s])
    case (2 target g)
    with run I preservesD [OF WithAuth_preserves [OF assms(2) [OF 2(1)]]] show ?thesis by metis
  qed (use run I in simp)
qed

lemma guarded_keeps:
  "guarded a R h \<Longrightarrow> (\<And>target g. (target, g) \<in> R \<Longrightarrow> keeps v g) \<Longrightarrow> keeps v h"
  unfolding keeps_def by (auto intro: guarded_preserves)

lemma Subscribe_db: "Subscribe env enc start s = (r, s') \<Longrightarrow> fst s' = fst s"
  by (cases s) (auto simp: Subscribe_def WithTransaction_def WithTx_def Let_def make_chan_def
      split: call_splits option.splits if_splits)

lemma sql_Find_db: "sql_Find env wg typ query f s = (r, s') \<Longrightarrow> fst (fst s') = fst (fst s)"
  by (cases s) (auto simp: sql_Find_def SQLReader_Find_def WithTx_def
      split: call_splits option.splits)

lemma log_routes_keep: "(target, g) \<in> log_routes su \<Longrightarrow> keeps (\<lambda>s. fst (fst s)) g"
  by (rule keepsI)
    (auto simp: log_routes_def store_source_def handleSubscribe_def handleSnapshot_def put_store_def Let_def
      dest!: Subscribe_db split: call_splits option.splits)

lemma find_keeps:
  "keeps (\<lambda>s. fst (fst s)) (handleFind t (store_API (datastore_API env wg now logURL)))"
  by (rule keepsI)
    (auto simp: handleFind_def store_API_def datastore_API_def put_store_def dest!: sql_Find_db
      split: call_splits if_splits)

lemma register_keeps: "keeps (\<lambda>s. fst (fst s)) (handleRegisterPeer env lib now server_tables)"
  unfolding handleRegisterPeer_def
  by (rule ServeJSON_keeps) (auto split: outcome.splits prod.splits option.splits)

lemma read_only_writes:
  "logURL \<noteq> [] \<Longrightarrow> ca_Create (datastore_API env wg now logURL) ob s = (r, s') \<Longrightarrow> s' = s"
  "logURL \<noteq> [] \<Longrightarrow> ca_Update (datastore_API env wg now logURL) ob s = (r, s') \<Longrightarrow> s' = s"
  "logURL \<noteq> [] \<Longrightarrow> ca_Delete (datastore_API env wg now logURL) ob s = (r, s') \<Longrightarrow> s' = s"
  by (auto simp: datastore_API_def ro_write_def roWriter_Create_def roWriter_Update_def roWriter_Delete_def split: prod.splits option.splits)

lemma follower_write_keeps:
  assumes "logURL \<noteq> []"
  shows "keeps (\<lambda>s. fst (fst s)) (handleCreate t (store_API (datastore_API env wg now logURL)))"
    "keeps (\<lambda>s. fst (fst s)) (handleUpdate t (store_API (datastore_API env wg now logURL)))"
    "keeps (\<lambda>s. fst (fst s)) (handleDelete t (store_API (datastore_API env wg now logURL)))"
  unfolding handleCreate_def handleUpdate_def handleDelete_def
  by (rule ServeJSON_keeps; auto simp: store_API_def no_content_def put_store_def
      dest: read_only_writes [OF assms] split: call_splits)+

section \<open>The server as a whole\<close>

lemma start_http_guarded:
  assumes ord: "map_order (Model (su_wg su)) (su_ord su)" and run: "start_http su c s0 = Inr (server, s1)"
  obtains a where "apiCommand_api (ac_authType c) (ac_authTLSRoleSpec c) (su_sql su) server_tables = Inr a"
    "guarded a (routes su c) (hs_Handler server)"
proof -
  obtain a where a: "apiCommand_api (ac_authType c) (ac_authTLSRoleSpec c) (su_sql su) server_tables = Inr a"
    using run by (auto simp: start_http_def split: sum.splits)
  then have "api_mux a = []" by (auto simp: apiCommand_api_def API_New_def split: if_splits sum.splits)
  from server_guarded [OF ord this, of c] a run have "guarded a (routes su c) (hs_Handler server)"
    by (auto simp: start_http_def makeHTTPServer_def Let_def split: sum.splits if_splits)
  with a that show thesis by blast
qed

lemma type_routes_target:
  assumes "map_order (Model (su_wg su)) (su_ord su)" "(target, g) \<in> type_routes su c"
  shows "target \<noteq> ''read-log''" "target \<noteq> ''register-peer''"
proof -
  have "set (su_ord su) = {''peer'', ''interface'', ''token''}"
    using assms(1) by (simp add: map_order_def byName_Model_keys)
  with assms(2) show "target \<noteq> ''read-log''" "target \<noteq> ''register-peer''"
    by (auto simp: type_routes_def Let_def byName_Model)
qed

lemma open_routes_keep:
  assumes "map_order (Model (su_wg su)) (su_ord su)" "(target, h) \<in> routes su c"
    and "target = ''read-log'' \<or> target = ''register-peer''"
  shows "keeps (\<lambda>s. fst (fst s)) h"
proof -
  have "(target, h) \<notin> type_routes su c" using type_routes_target [OF assms(1)] assms(3) by blast
  then have "(target, h) \<in> log_routes su \<or> (target, h) \<in> primary_routes su"
    using assms(2) by (auto simp: routes_def split: if_splits)
  then show ?thesis
  proof
    assume "(target, h) \<in> primary_routes su"
    with assms(3) have "h = handleRegisterPeer (su_sql su) (su_ranger su) (su_now su) server_tables"
      by (auto simp: primary_routes_def)
    then show ?thesis using register_keeps by simp
  qed (rule log_routes_keep)
qed

lemma bearer_Some: "bearer_Credentials env tabs_of req s = Inr creds \<Longrightarrow> creds \<noteq> None"
  by (auto simp: bearer_Credentials_def split: call_splits option.splits if_splits)

text \<open>
  C6: on a server with token authentication, only an administrator changes what is stored.
  Whatever a request asks for, on whatever path, if the tables are different afterwards then
  it came with the name and the secret of a token that has the role \<^verbatim>\<open>admin\<close>.
\<close>

theorem only_admin_changes_tables:
  assumes "map_order (Model (su_wg su)) (su_ord su)" "start_http su c s0 = Inr (server, s1)"
    and "ac_authType c = ''bearer''"
    and "runHTTPServerWithContext server req w s = (r, (w', s'))" "server_tables s' \<noteq> server_tables s"
  shows "\<exists>creds. bearer_Credentials (su_sql su) server_tables req s = Inr (Some creds) \<and>
    ''admin'' \<in> set (cred_Roles creds)"
proof -
  let ?req = "req\<lparr>rq_certs := None\<rparr>"
  obtain a where api: "apiCommand_api (ac_authType c) (ac_authTLSRoleSpec c) (su_sql su) server_tables = Inr a"
    and g: "guarded a (routes su c) (hs_Handler server)"
    using start_http_guarded [OF assms(1,2)] by blast
  have a: "a = API_New (bearer_Credentials (su_sql su) server_tables) (rbac_HasPermission rbacRules)"
    using api assms(3) by (simp add: apiCommand_api_def)
  have run: "hs_Handler server ?req w s = (r, (w', s'))"
    using assms(4) by (simp add: runHTTPServerWithContext_def ListenAndServe_def)
  have "hs_Handler server ?req w s \<noteq> (Returns (), (http_Error ''404 page not found'' 404 w, s))"
    using run assms(5) by auto
  then obtain target h where route: "(target, h) \<in> routes su c" "WithAuth a target h ?req w s = (r, (w', s'))"
    using guarded_cases [OF g, of ?req w s] run by metis
  then have adm: "admits a target ?req s" and h: "h ?req w s = (r, (w', s'))"
    using WithAuth_refused WithAuth_admits assms(5) by metis+
  then obtain creds where creds: "bearer_Credentials (su_sql su) server_tables ?req s = Inr (Some creds)"
    "rbac_HasPermission rbacRules (Some creds) target = Returns True"
    using bearer_Some by (fastforce simp: admits_def a API_New_def split: sum.splits)
  have "\<not> keeps (\<lambda>s. fst (fst s)) h"
    using keepsD [of "\<lambda>s. fst (fst s)" h, OF _ h] assms(5) by (auto simp: server_tables_def)
  then have "target \<noteq> ''read-log''" "target \<noteq> ''register-peer''"
    using open_routes_keep [OF assms(1) route(1)] by auto
  then have "''admin'' \<in> set (cred_Roles creds)" using only_admin [OF creds(2)] by blast
  moreover have "bearer_Credentials (su_sql su) server_tables ?req s = bearer_Credentials (su_sql su) server_tables req s"
    by (simp add: bearer_Credentials_def)
  ultimately show ?thesis using creds(1) by metis
qed


text \<open>
  C16: a follower is read-only. No request to a server that follows another changes anything in
  its database: neither the tables nor the log nor the sequence number, whoever asks.
\<close>

theorem follower_is_read_only:
  assumes "map_order (Model (su_wg su)) (su_ord su)" "start_http su c s0 = Inr (server, s1)" "ac_logURL c \<noteq> []"
    and "runHTTPServerWithContext server req w ((d, p), sf) = (r, (w', ((d', p'), sf')))"
  shows "d' = d"
proof -
  obtain a where "guarded a (routes su c) (hs_Handler server)"
    using start_http_guarded [OF assms(1,2)] by blast
  moreover have "keeps (\<lambda>s. fst (fst s)) g" if "(target, g) \<in> routes su c" for target g
    using that assms(3) log_routes_keep follower_write_keeps [OF assms(3)] find_keeps
    by (auto simp: routes_def type_routes_def Let_def)
  ultimately have "keeps (\<lambda>s. fst (fst s)) (hs_Handler server)" by (rule guarded_keeps)
  from keepsD [OF this, of _ w "((d, p), sf)"] assms(4) show ?thesis
    by (auto simp: runHTTPServerWithContext_def ListenAndServe_def)
qed

text \<open>A server of its own: no TLS files, no GeoIP databases, an engine that never fails.\<close>

definition sample_surroundings :: "IPNet list surroundings" where
  "sample_surroundings =
     \<lparr>su_sql = sql_ok, su_wg = sample_wg, su_ord = [''peer'', ''interface'', ''token''], su_ops = sub_preload,
      su_ranger = list_ranger,
      su_tls = \<lparr>tl_ReadFile = (\<lambda>_. Inl ErrUnmarshal), tl_AppendCertsFromPEM = (\<lambda>_. None),
        tl_LoadX509KeyPair = (\<lambda>_ _. Inl ErrUnmarshal)\<rparr>,
      su_missing = (\<lambda>_. True), su_geo = (\<lambda>_. Inl ErrUnmarshal), su_now = 5\<rparr>"

definition sample_command :: "string \<Rightarrow> string \<Rightarrow> apiCommand" where
  "sample_command auth logURL =
     \<lparr>ac_tls = \<lparr>tf_cert = [], tf_key = [], tf_ca = []\<rparr>, ac_addr = '':5005'', ac_dburi = ''wig.db'', ac_logURL = logURL,
      ac_authType = auth, ac_authTLSRoleSpec = ''gw1=follower''\<rparr>"

definition sample_server :: server where
  "sample_server = ((empty_db, newPubSub), \<lparr>sf_refiner = [], sf_activeSessions = None, sf_lastHandshake = None\<rparr>)"

lemma sample_order: "map_order (Model (su_wg sample_surroundings)) (su_ord sample_surroundings)"
  by (simp add: sample_surroundings_def map_order_def byName_Model_keys)

lemma sample_starts:
  "\<exists>server s1. start_http sample_surroundings (sample_command ''bearer'' []) s0 = Inr (server, s1)"
  "\<exists>server s1. start_http sample_surroundings (sample_command ''mtls'' []) s0 = Inr (server, s1)"
  "\<exists>server s1. start_http sample_surroundings (sample_command ''none'' ''http://primary'') s0 = Inr (server, s1)"
  by (simp_all add: start_http_def sample_surroundings_def sample_command_def TLSServerConfig_def apiCommand_api_def
      NewSessionFinder_def newIPRefiner_def defaultGeoIPPaths_def WithTx_def NewTLSAuthn_def strings_SplitN2_def Let_def)


theorem follower_is_read_only_witness:
  "\<exists>server s1 r w' d' p' sf'.
     start_http sample_surroundings (sample_command ''none'' ''http://primary'') sample_server = Inr (server, s1) \<and>
     runHTTPServerWithContext server sample_request new_rw ((empty_db, newPubSub), snd sample_server) = (r, (w', ((d', p'), sf'))) \<and>
     d' = empty_db"
proof -
  obtain server s1 where st: "start_http sample_surroundings (sample_command ''none'' ''http://primary'') sample_server = Inr (server, s1)"
    using sample_starts(3) by blast
  obtain r w' d' p' sf' where run: "runHTTPServerWithContext server sample_request new_rw ((empty_db, newPubSub), snd sample_server) =
      (r, (w', ((d', p'), sf')))"
    by (metis prod.exhaust)
  from follower_is_read_only [OF sample_order st _ run] st run show ?thesis
    by (auto simp: sample_command_def)
qed

text \<open>A database with one token, created through the log, and a request by its holder.\<close>

definition root_token :: Token where
  "root_token = \<lparr>tok_ID = ''root'', tok_Secret = ''toor'', tok_Roles = [''admin'']\<rparr>"

definition create_request :: http_request where
  "create_request =
     \<lparr>rq_method = ''POST'', rq_url = ''/api/v1/interface/create'', rq_query = [], rq_basic = Some (''root'', ''toor''),
      rq_certs = None, rq_body = [CJson (obj_MarshalJSON (OInterface sample_interface))]\<rparr>"

lemma newPubSub_none: "ps_subscribers newPubSub = []"
  by (simp add: newPubSub_def)

lemma root_store:
  obtains d o' where "represents sample_wg [o'] d" "db_tables d = (\<lambda>_. [])(''tokens'' := [db_fields (OToken root_token)])"
proof -
  let ?o = "WithSequence 1 (newOp 4 OpCreate (OToken root_token))"
  have tabs: "ApplyOp sql_ok (Model sample_wg) ?o (\<lambda>_. []) = Inr ((\<lambda>_. [])(''tokens'' := [db_fields (OToken root_token)]))"
    by (simp add: ApplyOp_def WithSequence_def newOp_def OpType_defs Create_effect has_key_def)
  have wf: "obj_wf (op_value ?o)" by (simp add: WithSequence_def newOp_def root_token_def)
  obtain d where d: "represents sample_wg ([] @ [untimed ?o]) d"
    using Apply_replicated [OF represents_empty _ _ wf, of sample_wg _ newPubSub] tabs pubsub_inv_new newPubSub_none
    by (auto simp: WithSequence_def empty_db_def)
  then have "db_tables d = (\<lambda>_. [])(''tokens'' := [db_fields (OToken root_token)])"
    using tabs by (simp add: represents_def)
  with d that show thesis by simp
qed

lemma create_request_runs:
  assumes "start_http sample_surroundings (sample_command ''bearer'' []) s0 = Inr (server, s1)"
    and d: "represents sample_wg [o'] d" "db_tables d = (\<lambda>_. [])(''tokens'' := [db_fields (OToken root_token)])"
  shows "\<exists>w' d' p'. runHTTPServerWithContext server create_request new_rw ((d, newPubSub), sf) =
      (Returns (), (w', ((d', p'), sf))) \<and> db_tables d' ''interfaces'' \<noteq> []"
proof -
  let ?s = "((d, newPubSub), sf)" and ?ob = "OInterface sample_interface"
  let ?api = "datastore_API sql_ok sample_wg 5 [] :: (db \<times> pubsub, rw \<times> nat) crud_API"
  obtain a where a: "apiCommand_api ''bearer'' ''gw1=follower'' sql_ok server_tables = Inr a"
    by (simp add: apiCommand_api_def)
  have st: "storable ?ob" by simp
  have "bearer_Credentials sql_ok server_tables create_request ?s = Inr (Some \<lparr>cred_Identity = ''root'', cred_Roles = [''admin'']\<rparr>)"
    using bearer_known [of server_tables ?s root_token create_request "''toor''"] d(2)
    by (simp add: server_tables_def tables_inv_def table_ok_def fk_inv_def cols_defs root_token_def create_request_def)
  then have adm: "admits a ''write-interface'' create_request ?s"
    using a by (auto simp: admits_def apiCommand_api_def API_New_def rbac_HasPermission_def permitted_iff targetsForRole_def rbacRules_def)
  have tabs: "ApplyOp sql_ok (Model sample_wg) (newOp 5 OpCreate ?ob) (db_tables d) =
      Inr ((db_tables d)(''interfaces'' := [db_fields ?ob]))"
    using d(2) by (simp add: ApplyOp_def newOp_def OpType_defs Create_effect has_key_def)
  obtain d' p' where ap: "ca_Create ?api ?ob (d, newPubSub) = (Returns (Inr ()), (d', p'))"
    "db_tables d' = (db_tables d)(''interfaces'' := [db_fields ?ob])"
    using Apply_new [OF d(1) _ tabs pubsub_inv_new] by (auto simp: datastore_API_def writer_Create_def)
  have "runHTTPServerWithContext server create_request new_rw ?s =
      newTypeHTTPHandler (adapter_of sample_wg ?ob) (store_API ?api) ((''/api/v1/'' @ type_name ?ob) @ ''/'') a create_request new_rw ?s"
    using start_http_type [OF sample_order assms(1) _ st verbs_mem(1), of a create_request] a
    by (simp add: runHTTPServerWithContext_def ListenAndServe_def sample_surroundings_def sample_command_def create_request_def)
  also have "\<dots> = handleCreate (adapter_of sample_wg ?ob) (store_API ?api) create_request new_rw ?s"
    using adm by (subst newTypeHTTPHandler_verbs(1))
      (simp_all add: create_request_def WithAuth_admits adapter_of_simps [OF st])
  also have "\<dots> = (Returns (), (WriteHeader 200 new_rw, ((d', p'), sf)))"
    using ap(1) dec_instance_Marshal [OF obj_wf_sample adapter_of_simps(2) [OF st]]
    by (simp add: handleCreate_def ServeJSON_def create_request_def store_API_def no_content_def put_store_def)
  finally show ?thesis using ap(2) by simp
qed

theorem only_admin_changes_tables_witness:
  "\<exists>server s1 r w' s s' creds. start_http sample_surroundings (sample_command ''bearer'' []) sample_server = Inr (server, s1) \<and>
     runHTTPServerWithContext server create_request new_rw s = (r, (w', s')) \<and> server_tables s' \<noteq> server_tables s \<and>
     bearer_Credentials sql_ok server_tables create_request s = Inr (Some creds) \<and> ''admin'' \<in> set (cred_Roles creds)"
proof -
  obtain server s1 where st: "start_http sample_surroundings (sample_command ''bearer'' []) sample_server = Inr (server, s1)"
    using sample_starts(1) by blast
  obtain d o' where d: "represents sample_wg [o'] d" "db_tables d = (\<lambda>_. [])(''tokens'' := [db_fields (OToken root_token)])"
    by (rule root_store)
  let ?s = "((d, newPubSub), snd sample_server)"
  obtain w' d' p' where run: "runHTTPServerWithContext server create_request new_rw ?s =
      (Returns (), (w', ((d', p'), snd sample_server)))" and ne: "db_tables d' ''interfaces'' \<noteq> []"
    using create_request_runs [OF st d] by blast
  have df: "server_tables ((d', p'), snd sample_server) \<noteq> server_tables ?s"
    using ne d(2) by (auto simp: server_tables_def)
  have "\<exists>creds. bearer_Credentials sql_ok server_tables create_request ?s = Inr (Some creds) \<and> ''admin'' \<in> set (cred_Roles creds)"
    using only_admin_changes_tables [OF sample_order st _ run df] by (simp add: sample_command_def sample_surroundings_def)
  with st run df show ?thesis by blast
qed

end
