(* ===== verification/Process.thy ===== *)
theory Process
  imports Server
begin

text \<open>
  The processes over time: what the API server does besides answering requests, and the
  invariant that survives all of it; the gateway process; \<^verbatim>\<open>main\<close>.
\<close>

section \<open>Starting the API server\<close>

definition server_sink :: "'r surroundings \<Rightarrow> nat \<Rightarrow> (nat \<Rightarrow> string list) \<Rightarrow> (db \<times> pubsub) LogSink" where
  "server_sink su depth ords =
     \<lparr>snk_Apply = Apply (su_sql su) (Model (su_wg su)),
      snk_LatestSequence = LatestSequence (su_sql su),
      snk_LoadSnapshot = LoadSnapshot depth ords (su_sql su) (Model (su_wg su))\<rparr>"

text \<open>
  The client flags of a command: certificate files, token and secret. A running server is the
  HTTP server, the state it starts from and, on a follower, the log it follows. \<open>ctx\<close> tells
  whether the context is done.
\<close>

record ClientCommand =
  cc_tls :: TLSFlags
  cc_authToken :: string
  cc_authSecret :: string

type_synonym 'w running = "server http_Server \<times> server \<times> ('w, chunk list) LogSource option"

definition apiCommand_run :: "'r surroundings \<Rightarrow> (string \<Rightarrow> (int \<times> catalog) result) \<Rightarrow>
    (tls_Config option \<Rightarrow> 'w network) \<Rightarrow> ('w \<Rightarrow> error option) \<Rightarrow> apiCommand \<Rightarrow> ClientCommand \<Rightarrow> server \<Rightarrow>
    'w running result outcome" where
  "apiCommand_run su sqlx_Open net ctx c cc s =
     (case OpenDB (su_sql su) sqlx_Open exec_ddl (ac_dburi c) Migrations of
        Blocks \<Rightarrow> Blocks
      | Panics m \<Rightarrow> Panics m
      | Returns (Inl e) \<Rightarrow> Returns (Inl e)
      | Returns (Inr _) \<Rightarrow>
          Returns
            (case (if ac_logURL c \<noteq> [] then
                     (case HTTPClient (su_tls su) net (cc_tls cc) (cc_authToken cc) (cc_authSecret cc) of
                        Inl e \<Rightarrow> Inl e
                      | Inr client \<Rightarrow> Inr (Some (NewRemoteLogSource ctx client (ac_logURL c))))
                   else Inr None) of
               Inl e \<Rightarrow> Inl e
             | Inr rlog \<Rightarrow>
                 (case start_http su c s of
                    Inl e \<Rightarrow> Inl e
                  | Inr (server, s') \<Rightarrow> Inr (server, s', rlog))))"

text \<open>The command ends with a status, or the server is running.\<close>

definition apiCommand_Execute :: "'r surroundings \<Rightarrow> (string \<Rightarrow> (int \<times> catalog) result) \<Rightarrow>
    (tls_Config option \<Rightarrow> 'w network) \<Rightarrow> ('w \<Rightarrow> error option) \<Rightarrow> apiCommand \<Rightarrow> ClientCommand \<Rightarrow> server \<Rightarrow>
    (ExitStatus + 'w running) outcome" where
  "apiCommand_Execute su sqlx_Open net ctx c cc s =
     (if ac_dburi c = [] then Returns (Inl (syntaxErr ''must specify a database path''))
      else
        (case apiCommand_run su sqlx_Open net ctx c cc s of
           Returns (Inl e) \<Rightarrow> Returns (Inl (fatalErr (Some e)))
         | Returns (Inr run) \<Rightarrow> Returns (Inr run)
         | Blocks \<Rightarrow> Blocks
         | Panics m \<Rightarrow> Panics m))"

section \<open>The API server over time\<close>

text \<open>
  A step is one request, at whatever time it comes; on a primary also a tick of the expiration
  or of the dump of the sessions; on a follower a round of following \<open>src\<close>. The second part of
  the state belongs to the source.
\<close>

inductive api_step :: "'r surroundings \<Rightarrow> apiCommand \<Rightarrow> ('w, 'sub) LogSource \<Rightarrow> server \<times> 'w \<Rightarrow> server \<times> 'w \<Rightarrow> bool"
  for su c src where
  request: "start_http (su\<lparr>su_now := now\<rparr>) c s0 = Inr (server, s1) \<Longrightarrow>
    runHTTPServerWithContext server req new_rw s = (r, (w, s')) \<Longrightarrow> api_step su c src (s, x) (s', x)"
| expiration: "ac_logURL c = [] \<Longrightarrow>
    expire (su_sql su) server_tables (store_API (datastore_API (su_sql su) (su_wg su) now []) :: (server, unit) crud_API)
      now s = (r, s') \<Longrightarrow>
    api_step su c src (s, x) (s', x)"
| dump: "ac_logURL c = [] \<Longrightarrow>
    api_step su c src (s, x) (put_sessions (dumper_tick (su_sql su) ord (get_sessions s)) s, x)"
| following: "ac_logURL c \<noteq> [] \<Longrightarrow>
    doFollow src (server_sink su depth ords) events (x, fst s) = (r, (x', p)) \<Longrightarrow>
    api_step su c src (s, x) (put_store p s, x')"

section \<open>Following keeps what the sink keeps\<close>

text \<open>The contract of a sink with an invariant: neither operations nor snapshots break it.\<close>

locale sink_invariant =
  fixes dst :: "'t LogSink" and I :: "'t \<Rightarrow> bool"
  assumes apply_inv: "I t \<Longrightarrow> snk_Apply dst o' True t = (r, t') \<Longrightarrow> I t'"
    and load_inv: "I t \<Longrightarrow> snk_LoadSnapshot dst snap t = (r, t') \<Longrightarrow> I t'"
begin

lemma loop_inv: "I t \<Longrightarrow> follow_loop dst evs t = (r, t') \<Longrightarrow> I t'"
proof (induction evs arbitrary: t)
  case (Cons ev evs)
  show ?case
  proof (cases ev)
    case (Received o')
    with Cons show ?thesis
      by (cases "snk_Apply dst o' True t") (auto dest: apply_inv split: outcome.splits sum.splits)
  qed (use Cons.prems in auto)
qed simp

lemma connect_once_inv:
  assumes "I t" "follow_connect src dst False start (w, t) = (r, (w', t'))"
  shows "I t'"
  using assms by (subst (asm) follow_connect.simps) (auto split: call_splits simp del: follow_connect.simps)

lemma connect_inv:
  assumes "I t" "follow_connect src dst restart start (w, t) = (r, (w', t'))"
  shows "I t'"
  using assms
  by (subst (asm) follow_connect.simps) (auto dest: load_inv connect_once_inv split: call_splits option.splits if_splits
      simp del: follow_connect.simps)

lemma round_inv: "I t \<Longrightarrow> doFollow src dst events (w, t) = (r, (w', t')) \<Longrightarrow> I t'"
  by (auto simp: doFollow_def simp del: follow_connect.simps dest: connect_inv loop_inv
      split: call_splits)

end

section \<open>The database stays consistent\<close>

text \<open>The tables have the integrity of the schema, and no number occurs twice in the log.\<close>

definition db_inv :: "db \<Rightarrow> bool" where
  "db_inv d \<longleftrightarrow> tables_inv (db_tables d) \<and> distinct (map ops_Seq (db_log d))"

lemma AppendToLog_inv [op_invs]: "AppendToLog env enc o' d = Inr d' \<Longrightarrow> db_inv d \<Longrightarrow> db_inv d'"
  by (auto simp: db_inv_def AppendToLog_def run_stmt_def split: sum.splits option.splits if_splits)

lemma SetSequence_inv [op_invs]: "SetSequence env q d = Inr d' \<Longrightarrow> db_inv d \<Longrightarrow> db_inv d'"
  by (auto simp: db_inv_def SetSequence_def run_stmt_def split: sum.splits option.splits)

lemma db_inv_tables: "db_inv d \<Longrightarrow> tables_inv tabs \<Longrightarrow> db_inv (d\<lparr>db_tables := tabs\<rparr>)"
  by (simp add: db_inv_def)

lemma db_invD: "db_inv d \<Longrightarrow> tables_inv (db_tables d)"
  by (simp add: db_inv_def)

lemma WithTx_inv:
  assumes "I (fst s)" "WithTx env f s = (r, s')" "\<And>a s1. f s = (Returns (Inr a), s1) \<Longrightarrow> I (fst s1)"
  shows "I (fst s')"
proof (cases "\<exists>a. r = Returns (Inr a)")
  case True
  with assms(2,3) WithTx_success show ?thesis by metis
next
  case False
  with WithTx_rollback [OF assms(2)] assms(1) show ?thesis by simp
qed

lemma Apply_body_inv [op_invs]:
  assumes "db_inv (fst s)" "Apply_body env (Model wg) o' s = (Returns (Inr a), s')"
  shows "db_inv (fst s')"
proof -
  obtain d p d' p' where s: "s = (d, p)" "s' = (d', p')" by (cases s, cases s')
  then obtain tabs d2 where "ApplyOp env (Model wg) o' (db_tables d) = Inr tabs"
    "AppendToLog env (Model wg) o' (d\<lparr>db_tables := tabs\<rparr>) = Inr d2" "SetSequence env (op_seq o') d2 = Inr d'"
    using assms(2) by (auto simp: Apply_body_def Let_def split: call_splits)
  moreover have "db_inv (d\<lparr>db_tables := tabs\<rparr>)"
    using assms(1) s calculation(1) by (simp add: db_inv_tables ApplyOp_inv db_invD)
  ultimately show ?thesis using s AppendToLog_inv SetSequence_inv by fastforce
qed

lemma Apply_inv [op_invs]:
  assumes "db_inv (fst s)" "Apply env (Model wg) o' fromLog s = (r, s')"
  shows "db_inv (fst s')"
  using assms(2) unfolding Apply_def WithTransaction_def
  by (rule WithTx_inv [of db_inv, OF assms(1)])
    (use assms(1) in \<open>cases s, auto dest: Apply_body_inv [rotated]\<close>)

lemma DeleteAll_same: "dispatcher_DeleteAll depth r ords tabs = Some (e, tabs') \<Longrightarrow> tabs' = tabs"
proof (induction depth arbitrary: tabs tabs' e)
  case (Suc depth)
  have "registry_each r (\<lambda>m. dispatcher_DeleteAll depth r ords) ns tabs = Some (e, tabs') \<Longrightarrow> tabs' = tabs" for ns tabs
    by (induction ns arbitrary: tabs) (auto dest: Suc.IH split: option.splits)
  with Suc.prems show ?case by simp
qed simp

lemma create_into_inv [op_invs]:
  "memSnapshot_Each (create_into env (Model wg)) obs tabs = (e, tabs') \<Longrightarrow> tables_inv tabs \<Longrightarrow> tables_inv tabs'"
proof (induction obs arbitrary: tabs)
  case (Cons ob obs)
  then show ?case
    by (cases "dispatcher_Create env (Model wg) ob tabs") (auto simp: create_into_def dest: Create_inv)
qed simp

lemma load_items_inv [op_invs]:
  assumes "memSnapshot_Each (create_into env (Model wg)) obs (db_tables d) = (None, tabs)"
    and "SetSequence env q (d\<lparr>db_tables := tabs\<rparr>) = Inr d'" "db_inv d"
  shows "db_inv d'"
  using assms SetSequence_inv db_inv_tables create_into_inv db_invD by metis

lemma LoadSnapshot_inv [op_invs]:
  assumes "db_inv (fst s)" "LoadSnapshot depth ords env (Model wg) snap s = (r, s')"
  shows "db_inv (fst s')"
  using assms(2) unfolding LoadSnapshot_def WithTransaction_def
  by (rule WithTx_inv [of db_inv, OF assms(1)])
    (use assms(1) in \<open>auto dest!: DeleteAll_same dest: load_items_inv split: option.splits prod.splits sum.splits\<close>)

interpretation ss: sink_invariant "server_sink su depth ords" "\<lambda>s. db_inv (fst s)"
  by unfold_locales (auto simp: server_sink_def intro: op_invs)

text \<open>Sessions are kept in tables of their own.\<close>

definition same_model :: "tables \<Rightarrow> tables \<Rightarrow> bool" where
  "same_model tabs tabs' \<longleftrightarrow> (\<forall>t\<in>{''peers'', ''interfaces'', ''tokens''}. tabs' t = tabs t)"

lemma same_model_inv: "same_model tabs tabs' \<Longrightarrow> tables_inv tabs \<Longrightarrow> tables_inv tabs'"
  by (simp add: same_model_def tables_inv_def)

lemma same_model_refl [simp]: "same_model tabs tabs"
  by (simp add: same_model_def)

lemma same_model_trans: "same_model a b \<Longrightarrow> same_model b c \<Longrightarrow> same_model a c"
  by (simp add: same_model_def)

lemma insert_same_model:
  assumes "NamedExec env cat (InsertStmt t cols labels) fs tabs = Inr tabs'" "t \<notin> {''peers'', ''interfaces'', ''tokens''}"
  shows "same_model tabs tabs'"
  using assms by (auto simp: same_model_def sql_insert_def run_stmt_def Let_def split: sum.splits option.splits if_splits)

lemma receive_loop_same:
  "receive_loop env now dump s = (r, s') \<Longrightarrow> same_model (fst s) (fst s')"
proof (induction env now dump s arbitrary: s' rule: receive_loop.induct)
  case (2 env now d dump tabs f)
  obtain ra f' where an: "Analyze now d f = (ra, f')" by (cases "Analyze now d f")
  show ?case
  proof (cases "\<exists>sess tabs1. ra = Returns (Some sess) \<and> WriteCompletedSession env sess tabs = Inr tabs1")
    case True
    then obtain sess tabs1 where w: "ra = Returns (Some sess)" "WriteCompletedSession env sess tabs = Inr tabs1" by blast
    then have "same_model tabs tabs1"
      unfolding WriteCompletedSession_def by (elim insert_same_model) simp
    moreover have "same_model tabs1 (fst s')" using 2(2) [OF an [symmetric] w(1) _ w(2)] "2.prems" an w by auto
    ultimately show ?thesis using same_model_trans by auto
  next
    case False
    with an "2.prems" "2.IH"(1) [OF an [symmetric]] show ?thesis
      by (auto split: outcome.splits option.splits sum.splits)
  qed
qed simp

lemma insert_sessions_same: "insert_sessions env ss tabs = Inr tabs' \<Longrightarrow> same_model tabs tabs'"
proof (induction ss arbitrary: tabs)
  case (Cons x ss)
  then obtain t1 where t1: "NamedExec env wig_catalog (InsertStmt ''active_sessions'' active_cols active_cols) (Session_fields x) tabs = Inr t1"
    "insert_sessions env ss t1 = Inr tabs'"
    by (auto simp del: NamedExec.simps split: sum.splits)
  from insert_same_model [OF t1(1)] Cons.IH [OF t1(2)] show ?case using same_model_trans by auto
qed simp

lemma Dump_same:
  assumes "DumpActiveSessions env ss tabs = Inr tabs'"
  shows "same_model tabs tabs'"
proof -
  obtain t1 where t1: "sql_delete_all wig_catalog ''active_sessions'' tabs = Inr t1"
    "t1 = tabs' \<or> insert_sessions env ss t1 = Inr tabs'"
    using assms by (auto simp: DumpActiveSessions_def run_stmt_def split: sum.splits option.splits if_splits)
  have "same_model tabs t1"
    using t1(1) by (auto simp: sql_delete_all_def sessions_lookup cascade_wig same_model_def refers_def)
  with t1(2) insert_sessions_same same_model_trans show ?thesis by blast
qed

lemma put_sessions_inv:
  "same_model (server_tables s) (fst ts) \<Longrightarrow> db_inv (fst (fst s)) \<Longrightarrow> db_inv (fst (fst (put_sessions ts s)))"
  by (auto simp: put_sessions_def server_tables_def db_inv_def intro: same_model_inv)

lemma ReceivePeerStats_same: "ReceivePeerStats env now dump s = (r, s') \<Longrightarrow> same_model (fst s) (fst s')"
  unfolding ReceivePeerStats_def
  by (rule WithTx_inv [of "same_model (fst s)"]) (auto dest: receive_loop_same)

lemma handleReceive_same: "handleReceive env now req w s = (r, (w', s')) \<Longrightarrow> same_model (fst s) (fst s')"
  by (auto simp: handleReceive_def ServeJSON_def dest!: ReceivePeerStats_same
      split: call_splits option.splits)

lemma handleGetSessions_same: "handleGetSessions env req w s = (r, (w', s')) \<Longrightarrow> s' = s"
  by (auto simp: handleGetSessions_def ServeJSON_def Let_def split: call_splits option.splits if_splits)

lemma on_sessions_inv:
  assumes "\<And>req w s r w' s'. h req w s = (r, (w', s')) \<Longrightarrow> same_model (fst s) (fst s')"
  shows "preserves (\<lambda>s. db_inv (fst (fst s))) (on_part get_sessions put_sessions h)"
proof (rule preservesI)
  fix req w s r w' s'
  assume inv: "db_inv (fst (fst s))" and run: "on_part get_sessions put_sessions h req w s = (r, (w', s'))"
  obtain ts where ts: "h req w (get_sessions s) = (r, (w', ts))" "s' = put_sessions ts s"
    using run by (auto simp: on_part_def split: prod.splits)
  show "db_inv (fst (fst s'))"
    using assms [OF ts(1)] inv unfolding ts(2) by (intro put_sessions_inv) (simp_all add: get_sessions_def)
qed

lemma primary_routes_inv:
  assumes "(target, g) \<in> primary_routes su"
  shows "preserves (\<lambda>s. db_inv (fst (fst s))) g"
proof -
  have "preserves (\<lambda>s. db_inv (fst (fst s))) (on_part get_sessions put_sessions (handleReceive env now))" for env now
    by (rule on_sessions_inv) (rule handleReceive_same)
  moreover have "preserves (\<lambda>s. db_inv (fst (fst s))) (on_part get_sessions put_sessions (handleGetSessions env))" for env
    by (rule on_sessions_inv) (auto dest: handleGetSessions_same)
  ultimately show ?thesis
    using assms keeps_preserves [where I = db_inv, OF register_keeps] by (auto simp: primary_routes_def)
qed

lemma store_write_inv:
  assumes "\<And>ob s r s'. f ob s = (r, s') \<Longrightarrow> db_inv (fst s) \<Longrightarrow> db_inv (fst s')"
  shows "preserves (\<lambda>s. db_inv (fst (fst s)))
    (ServeJSON reg dec (\<lambda>ob s. no_content (case f ob (fst s) of (r, p) \<Rightarrow> (r, put_store p s))))"
  by (rule ServeJSON_preserves)
    (auto simp: no_content_def put_store_def dest: assms split: call_splits)

lemma datastore_writes_inv:
  assumes "f \<in> {ca_Create, ca_Update, ca_Delete}" "f (datastore_API env wg now logURL) ob s = (r, s')" "db_inv (fst s)"
  shows "db_inv (fst s')"
  using assms
  by (auto simp: datastore_API_def writer_Create_def writer_Update_def writer_Delete_def ro_write_def
      roWriter_Create_def roWriter_Update_def roWriter_Delete_def dest: Apply_inv [rotated] split: if_splits prod.splits option.splits)

lemma datastore_handler_inv:
  assumes "f \<in> {ca_Create, ca_Update, ca_Delete}"
  shows "preserves (\<lambda>s. db_inv (fst (fst s))) (ServeJSON reg dec
    (\<lambda>ob s. no_content (case f (datastore_API env wg now logURL) ob (fst s) of (r, p) \<Rightarrow> (r, put_store p s))))"
  using assms by (intro store_write_inv) (rule datastore_writes_inv)

lemma routes_inv:
  assumes "(target, g) \<in> routes su c"
  shows "preserves (\<lambda>s. db_inv (fst (fst s))) g"
proof -
  have "preserves (\<lambda>s. db_inv (fst (fst s))) (handleCreate t (store_API (datastore_API env wg now logURL)))"
    "preserves (\<lambda>s. db_inv (fst (fst s))) (handleUpdate t (store_API (datastore_API env wg now logURL)))"
    "preserves (\<lambda>s. db_inv (fst (fst s))) (handleDelete t (store_API (datastore_API env wg now logURL)))"
    for t env wg now logURL
    by (auto simp: handleCreate_def handleUpdate_def handleDelete_def store_API_def intro!: datastore_handler_inv)
  then have "(target, g) \<in> type_routes su c \<Longrightarrow> ?thesis"
    using keeps_preserves [where I = db_inv, OF find_keeps] by (auto simp: type_routes_def Let_def)
  then show ?thesis
    using assms primary_routes_inv keeps_preserves [where I = db_inv, OF log_routes_keep] by (auto simp: routes_def split: if_splits)
qed

lemma expire_step: "expire env tabs_of api now s = (r, s') \<Longrightarrow> s' = s"
  by (simp add: expire_nothing)

lemma dumper_tick_same: "same_model (fst s) (fst (dumper_tick env ord s))"
proof -
  let ?f = "\<lambda>(tabs, f). case DumpActiveSessions env (ActiveSessions ord f) tabs of
      Inl e \<Rightarrow> (Returns (Inl e :: unit result), (tabs, f)) | Inr tabs' \<Rightarrow> (Returns (Inr ()), (tabs', f))"
  have "same_model (fst s) (fst (snd (WithTx env ?f s)))"
    by (rule WithTx_inv [of "same_model (fst s)" s env ?f "fst (WithTx env ?f s)"])
      (auto dest: Dump_same split: prod.splits sum.splits)
  then show ?thesis by (simp only: dumper_tick_def)
qed

lemma api_step_inv:
  assumes "api_step su c src (s, x) (s', x')" "map_order (Model (su_wg su)) (su_ord su)" "db_inv (fst (fst s))"
  shows "db_inv (fst (fst s'))"
  using assms(1)
proof cases
  case (request now s0 server s1 req r w)
  have "map_order (Model (su_wg (su\<lparr>su_now := now\<rparr>))) (su_ord (su\<lparr>su_now := now\<rparr>))" using assms(2) by simp
  from start_http_guarded [OF this request(2)] obtain a where "guarded a (routes (su\<lparr>su_now := now\<rparr>) c) (hs_Handler server)"
    by blast
  then have "preserves (\<lambda>s. db_inv (fst (fst s))) (hs_Handler server)" by (rule guarded_preserves) (rule routes_inv)
  from preservesD [OF this] request(3) assms(3) show ?thesis
    by (auto simp: runHTTPServerWithContext_def ListenAndServe_def)
next
  case expiration
  then show ?thesis using assms(3) by (auto dest!: expire_step)
next
  case dump
  then show ?thesis using assms(3) dumper_tick_same [of "get_sessions s"] by (auto simp: get_sessions_def intro!: put_sessions_inv)
next
  case (following depth ords events r p)
  then show ?thesis using ss.round_inv [OF assms(3) following(3)] by (auto simp: put_store_def)
qed

text \<open>
  C4: the database of a server stays consistent for as long as the server runs. Whatever is
  requested, by whomever and in whatever order, whatever a followed log delivers, and with any
  failure of the database engine: keys stay unique, rows keep their columns, every peer has its
  interface, and no number is used twice in the log.
\<close>

theorem server_stays_consistent:
  assumes "(api_step su c src)\<^sup>*\<^sup>* (s, x) (s', x')" "map_order (Model (su_wg su)) (su_ord su)" "db_inv (fst (fst s))"
  shows "db_inv (fst (fst s'))"
proof -
  have "db_inv (fst (fst (fst q)))" if "(api_step su c src)\<^sup>*\<^sup>* (s, x) q" for q
    using that
  proof (induction rule: rtranclp_induct)
    case base
    show ?case using assms(3) by simp
  next
    case (step q q')
    obtain s1 x1 s2 x2 where q: "q = (s1, x1)" "q' = (s2, x2)" by (cases q, cases q')
    show ?case using api_step_inv [OF step(2) [unfolded q] assms(2)] step(3) by (simp add: q)
  qed
  from this [OF assms(1)] show ?thesis by simp
qed

lemma scanOps_length: "scanOps enc ss = Inr os \<Longrightarrow> length os = length ss"
  by (induction ss arbitrary: os) (auto split: sum.splits)

theorem server_stays_consistent_witness:
  "\<exists>s s'. (api_step sample_surroundings (sample_command ''bearer'' []) (datastore_source [] sample_wg))\<^sup>*\<^sup>*
       (s, (empty_db, newPubSub)) (s', (empty_db, newPubSub)) \<and>
     server_tables s ''interfaces'' = [] \<and> server_tables s' ''interfaces'' \<noteq> [] \<and> db_inv (fst (fst s'))"
proof -
  obtain server s1 where st: "start_http sample_surroundings (sample_command ''bearer'' []) sample_server = Inr (server, s1)"
    using sample_starts(1) by blast
  obtain d o' where d: "represents sample_wg [o'] d" "db_tables d = (\<lambda>_. [])(''tokens'' := [db_fields (OToken root_token)])"
    by (rule root_store)
  let ?s = "((d, newPubSub), snd sample_server)"
  obtain w' d' p' where run: "runHTTPServerWithContext server create_request new_rw ?s =
      (Returns (), (w', ((d', p'), snd sample_server)))" and ne: "db_tables d' ''interfaces'' \<noteq> []"
    using create_request_runs [OF st d] by blast
  have now: "sample_surroundings\<lparr>su_now := 5\<rparr> = sample_surroundings" by (simp add: sample_surroundings_def)
  have step: "(api_step sample_surroundings (sample_command ''bearer'' []) (datastore_source [] sample_wg))\<^sup>*\<^sup>*
      (?s, (empty_db, newPubSub)) (((d', p'), snd sample_server), (empty_db, newPubSub))"
    by (rule r_into_rtranclp) (rule api_step.request [where su = sample_surroundings and now = 5, unfolded now, OF st run])
  have "length (db_log d) = 1"
    using d(1) scanOps_length [of "Model sample_wg" "db_log d" "[o']"] by (simp add: represents_def)
  then have "distinct (map ops_Seq (db_log d))" by (cases "db_log d") auto
  then have inv: "db_inv d"
    using d(2) by (simp add: db_inv_def tables_inv_def table_ok_def fk_inv_def cols_defs root_token_def)
  from server_stays_consistent [OF step sample_order] inv step d(2) ne show ?thesis
    by (intro exI [of _ ?s] exI [of _ "((d', p'), snd sample_server)"]) (simp add: server_tables_def)
qed

section \<open>Requests are typed\<close>

text \<open>The tables that operations on objects of a type may change: deleting an interface deletes its peers.\<close>

fun type_tables :: "gotype \<Rightarrow> string set" where
  "type_tables TPeer = {''peers''}"
| "type_tables TInterface = {''interfaces'', ''peers''}"
| "type_tables TToken = {''tokens''}"
| "type_tables TOther = {}"

definition frame :: "gotype \<Rightarrow> db \<Rightarrow> db \<Rightarrow> bool" where
  "frame T d d' \<longleftrightarrow> (\<forall>tab. tab \<notin> type_tables T \<longrightarrow> db_tables d' tab = db_tables d tab)"

lemma ApplyOp_frame:
  assumes "ApplyOp env (Model wg) o' tabs = Inr tabs'" "tables_inv tabs" "tab \<notin> type_tables (obj_type (op_value o'))"
  shows "tabs' tab = tabs tab"
proof -
  let ?ob = "op_value o'"
  have st: "storable ?ob" using assms(1) by (auto simp: ApplyOp_def intro: dispatch_storable split: if_splits)
  then have tab: "tab \<noteq> table_of ?ob" "\<And>i. ?ob = OInterface i \<Longrightarrow> tab \<noteq> ''peers''"
    using assms(3) by (cases ?ob; simp)+
  have shape: "\<forall>r\<in>set (tabs (table_of ?ob)). row_shape ?ob r"
    using table_ok_shape [OF assms(2) st] by (simp add: table_ok_def row_shape_def)
  consider "dispatcher_Create env (Model wg) ?ob tabs = Inr tabs'" | "dispatcher_Update env (Model wg) ?ob tabs = Inr tabs'"
    | "dispatcher_Delete env (Model wg) ?ob tabs = Inr tabs'"
    using assms(1) by (auto simp: ApplyOp_def split: if_splits)
  then show ?thesis
  proof cases
    case 1
    then show ?thesis using Create_env [OF 1] tab by (auto simp: Create_effect [OF st] split: if_splits)
  next
    case 2
    then show ?thesis using Update_env [OF 2] tab by (auto simp: Update_effect [of ?ob tabs, OF st shape] split: if_splits)
  next
    case 3
    then show ?thesis using Delete_env [OF 3] tab
      by (auto simp: Delete_effect [OF st] delete_rows_def Let_def split: obj.splits if_splits)
  qed
qed

lemma Apply_frame:
  assumes "Apply env (Model wg) o' fromLog s = (r, s')" "tables_inv (db_tables (fst s))"
  shows "frame (obj_type (op_value o')) (fst s) (fst s')"
  using assms(1) unfolding Apply_def WithTransaction_def
proof (rule WithTx_inv [of "frame (obj_type (op_value o')) (fst s)", rotated])
  show "frame (obj_type (op_value o')) (fst s) (fst s)" by (simp add: frame_def)
next
  fix a s1
  assume run: "(case s of (d, p) \<Rightarrow> Apply_body env (Model wg)
      (if \<not> fromLog then WithSequence (GetNextSequence env d) o' else o') (d, p)) = (Returns (Inr a), s1)"
  obtain d p d1 p1 where s: "s = (d, p)" "s1 = (d1, p1)" by (cases s, cases s1)
  let ?o = "if \<not> fromLog then WithSequence (GetNextSequence env d) o' else o'"
  have val: "op_value ?o = op_value o'" by (simp add: WithSequence_def)
  obtain tabs where tabs: "ApplyOp env (Model wg) ?o (db_tables d) = Inr tabs" "db_tables d1 = tabs"
    using run s
    by (auto simp: Apply_body_def AppendToLog_def SetSequence_def run_stmt_def Let_def
        split: call_splits option.splits if_splits)
  show "frame (obj_type (op_value o')) (fst s) (fst s1)"
    using ApplyOp_frame [OF tabs(1)] assms(2) by (auto simp: frame_def s tabs(2) val)
qed

lemma datastore_writes_frame:
  assumes "f \<in> {ca_Create, ca_Update, ca_Delete}" "f (datastore_API env wg now logURL) ob s = (r, s')" "tables_inv (db_tables (fst s))"
  shows "frame (obj_type ob) (fst s) (fst s')"
  using assms
  by (auto simp: datastore_API_def writer_Create_def writer_Update_def writer_Delete_def ro_write_def newOp_def frame_def
      roWriter_Create_def roWriter_Update_def roWriter_Delete_def dest!: Apply_frame split: if_splits prod.splits option.splits)

lemma dec_instance_type: "dec_instance t body = Inr ob \<Longrightarrow> ad_newFn t \<noteq> TOther \<Longrightarrow> obj_type ob = ad_newFn t"
  by (cases "ad_newFn t") (auto simp: dec_instance_def put_field_def split: sum.splits)

lemma write_handler_frame:
  assumes run: "ServeJSON reg (dec_instance t)
      (\<lambda>ob s. no_content (case f (datastore_API env wg now logURL) ob (fst s) of (r, p) \<Rightarrow> (r, put_store p s))) req w s =
      (r, (w', s'))"
    and f: "f \<in> {ca_Create, ca_Update, ca_Delete}" and t: "ad_newFn t \<noteq> TOther" and inv: "tables_inv (server_tables s)"
  shows "frame (ad_newFn t) (fst (fst s)) (fst (fst s'))"
proof (cases "dec_instance t (rq_body req)")
  case (Inl e)
  with run show ?thesis by (auto simp: ServeJSON_def frame_def)
next
  case (Inr ob)
  obtain r1 p where fp: "f (datastore_API env wg now logURL) ob (fst s) = (r1, p)"
    by (cases "f (datastore_API env wg now logURL) ob (fst s)")
  have "fst s' = p"
    using run Inr fp by (auto simp: ServeJSON_def no_content_def put_store_def split: call_splits option.splits)
  with datastore_writes_frame [OF f fp] inv dec_instance_type [OF Inr t] show ?thesis by (simp add: server_tables_def)
qed

lemma type_handler_frame:
  assumes "newTypeHTTPHandler t (store_API (datastore_API env wg now logURL)) pfx a req w s = (r, (w', s'))"
    and t: "ad_newFn t \<noteq> TOther" and inv: "tables_inv (server_tables s)"
  shows "frame (ad_newFn t) (fst (fst s)) (fst (fst s'))"
proof -
  let ?api = "store_API (datastore_API env wg now logURL)"
  have same: "frame (ad_newFn t) (fst (fst s)) (fst (fst s'))" if "fst (fst s') = fst (fst s)"
    using that by (simp add: frame_def)
  show ?thesis
  proof (cases rule: guarded_cases [OF newTypeHTTPHandler_guarded, of t ?api pfx a req w s])
    case 1
    with assms(1) same show ?thesis by auto
  next
    case (2 target g)
    then consider "s' = s" | "g req w s = (r, (w', s'))"
      using assms(1) WithAuth_refused WithAuth_admits by metis
    then show ?thesis
    proof cases
      case 2
      have "g = handleFind t ?api \<or> (\<exists>f\<in>{ca_Create, ca_Update, ca_Delete}. g = ServeJSON errorRegistry (dec_instance t)
          (\<lambda>ob s. no_content (case f (datastore_API env wg now logURL :: (db \<times> pubsub, rw \<times> nat) crud_API) ob (fst s) of
            (r, p) \<Rightarrow> (r, put_store p s))))"
        using \<open>(target, g) \<in> _\<close> by (auto simp: handleCreate_def handleUpdate_def handleDelete_def store_API_def)
      then show ?thesis
        using 2 keepsD [OF find_keeps, of t env wg now logURL req w s r w' s'] same write_handler_frame [OF _ _ t inv] by blast
    qed (use same in simp)
  qed
qed

text \<open>
  C17: a request changes only what its type is about. Whatever a request to the paths of a type
  does, and whatever its body holds, the tables of the other types stay as they are; only with an
  interface its peers may go as well.
\<close>

theorem requests_are_typed:
  assumes "map_order (Model (su_wg su)) (su_ord su)" "start_http su c s0 = Inr (server, s1)"
    and "storable ob" "verb \<in> verbs" "rq_url req = (''/api/v1/'' @ type_name ob) @ ''/'' @ verb"
    and "runHTTPServerWithContext server req w s = (r, (w', s'))"
    and "tables_inv (server_tables s)" "tab \<notin> type_tables (obj_type ob)"
  shows "server_tables s' tab = server_tables s tab"
proof -
  obtain a where a: "apiCommand_api (ac_authType c) (ac_authTLSRoleSpec c) (su_sql su) server_tables = Inr a"
    using start_http_guarded [OF assms(1,2)] by blast
  have "rq_url (req\<lparr>rq_certs := None\<rparr>) = (''/api/v1/'' @ type_name ob) @ ''/'' @ verb" using assms(5) by simp
  from start_http_type [OF assms(1,2) a assms(3,4) this, of w s]
  have "newTypeHTTPHandler (adapter_of (su_wg su) ob)
      (store_API (datastore_API (su_sql su) (su_wg su) (su_now su) (ac_logURL c)))
      ((''/api/v1/'' @ type_name ob) @ ''/'') a (req\<lparr>rq_certs := None\<rparr>) w s = (r, (w', s'))"
    using assms(6) by (simp add: runHTTPServerWithContext_def ListenAndServe_def)
  moreover have "ad_newFn (adapter_of (su_wg su) ob) = obj_type ob" "obj_type ob \<noteq> TOther"
    using assms(3) adapter_of_simps(2) by (cases ob; simp)+
  ultimately show ?thesis
    using type_handler_frame [OF _ _ assms(7)] assms(8) by (auto simp: frame_def server_tables_def)
qed

theorem requests_are_typed_witness:
  "\<exists>server s1 w' d' p' sf d. start_http sample_surroundings (sample_command ''bearer'' []) sample_server = Inr (server, s1) \<and>
     runHTTPServerWithContext server create_request new_rw ((d, newPubSub), sf) = (Returns (), (w', ((d', p'), sf))) \<and>
     db_tables d' ''interfaces'' \<noteq> [] \<and> db_tables d' ''tokens'' = db_tables d ''tokens''"
proof -
  obtain server s1 where st: "start_http sample_surroundings (sample_command ''bearer'' []) sample_server = Inr (server, s1)"
    using sample_starts(1) by blast
  obtain d o' where d: "represents sample_wg [o'] d" "db_tables d = (\<lambda>_. [])(''tokens'' := [db_fields (OToken root_token)])"
    by (rule root_store)
  let ?s = "((d, newPubSub), snd sample_server)"
  obtain w' d' p' where run: "runHTTPServerWithContext server create_request new_rw ?s =
      (Returns (), (w', ((d', p'), snd sample_server)))" and ne: "db_tables d' ''interfaces'' \<noteq> []"
    using create_request_runs [OF st d] by blast
  have "tables_inv (server_tables ?s)"
    using d(2) by (simp add: server_tables_def tables_inv_def table_ok_def fk_inv_def cols_defs root_token_def)
  then have "server_tables ((d', p'), snd sample_server) ''tokens'' = server_tables ?s ''tokens''"
    using requests_are_typed [OF sample_order st, of "OInterface sample_interface" "''create''" create_request new_rw ?s] run
    by (simp add: create_request_def verbs_mem)
  then have "db_tables d' ''tokens'' = db_tables d ''tokens''" by (simp add: server_tables_def)
  with st run ne show ?thesis by blast
qed

section \<open>The gateway process\<close>

record gwCommand =
  gc_logURL :: string
  gc_statusURL :: string
  gc_httpAddr :: string

definition gwCommand_SetFlags :: "(string, string) gomap \<Rightarrow> FlagSet \<Rightarrow> FlagSet outcome" where
  "gwCommand_SetFlags conf f =
     (case define_flags [(''log-url'', []), (''status-url'', []), (''metrics-addr'', '':4007'')] f of
        Returns f \<Rightarrow> ClientCommand_SetFlags conf f
      | Blocks \<Rightarrow> Blocks
      | Panics m \<Rightarrow> Panics m)"

text \<open>
  The process follows the log into the kernel until it fails, then takes its interfaces down;
  \<open>ord\<close> is the order in which the map of interfaces is iterated. A panic in the goroutine that
  follows ends the process on the spot. The world of the source is \<open>'w\<close>, the kernel \<open>'k\<close>;
  \<open>wgctrl_New\<close> is the outcome of opening the control socket.
\<close>

definition gwCommand_run :: "tlslib \<Rightarrow> (tls_Config option \<Rightarrow> 'w network) \<Rightarrow> ('w \<Rightarrow> error option) \<Rightarrow> wgkeys \<Rightarrow> 'k kernel \<Rightarrow>
    error option \<Rightarrow> string list \<Rightarrow> (chunk list \<Rightarrow> follow_event list) list \<Rightarrow> gwCommand \<Rightarrow> ClientCommand \<Rightarrow>
    'w \<times> 'k \<Rightarrow> error option outcome \<times> ('w \<times> 'k)" where
  "gwCommand_run lib net ctx wg kn wgctrl_New ord rounds c cc s =
     (case HTTPClient lib net (cc_tls cc) (cc_authToken cc) (cc_authSecret cc) of
        Inl e \<Rightarrow> (Returns (Some e), s)
      | Inr client \<Rightarrow>
          (case wgctrl_New of
             Some e \<Rightarrow> (Returns (Some e), s)
           | None \<Rightarrow>
               (case Follow (NewRemoteLogSource ctx client (gc_logURL c)) (gateway_sink wg kn ord) rounds
                       (fst s, (gateway_New, snd s)) of
                  (Returns err, (w, (gw, k))) \<Rightarrow> (Returns err, (w, gateway_Close kn ord (gw, k)))
                | (Blocks, (w, (gw, k))) \<Rightarrow> (Blocks, (w, k))
                | (Panics m, (w, (gw, k))) \<Rightarrow> (Panics m, (w, k)))))"

definition gwCommand_Execute :: "tlslib \<Rightarrow> (tls_Config option \<Rightarrow> 'w network) \<Rightarrow> ('w \<Rightarrow> error option) \<Rightarrow> wgkeys \<Rightarrow> 'k kernel \<Rightarrow>
    error option \<Rightarrow> string list \<Rightarrow> (chunk list \<Rightarrow> follow_event list) list \<Rightarrow> gwCommand \<Rightarrow> ClientCommand \<Rightarrow>
    'w \<times> 'k \<Rightarrow> ExitStatus outcome \<times> ('w \<times> 'k)" where
  "gwCommand_Execute lib net ctx wg kn wgctrl_New ord rounds c cc s =
     (if gc_logURL c = [] then (Returns (syntaxErr ''must specify --log-url''), s)
      else
        (let c = (if gc_statusURL c = [] then c\<lparr>gc_statusURL := gc_logURL c\<rparr> else c)
         in case gwCommand_run lib net ctx wg kn wgctrl_New ord rounds c cc s of
              (Returns err, s') \<Rightarrow> (Returns (fatalErr err), s')
            | (Blocks, s') \<Rightarrow> (Blocks, s')
            | (Panics m, s') \<Rightarrow> (Panics m, s')))"

section \<open>The main program\<close>

text \<open>
  \<^verbatim>\<open>main\<close> reads the configuration, which gives the defaults of the flags, and runs the
  subcommand; \<open>Execute\<close> is the subcommand that the arguments select. A configuration that
  cannot be read ends the program with status 1.
\<close>

fun exit_code :: "ExitStatus \<Rightarrow> nat" where
  "exit_code ExitSuccess = 0"
| "exit_code ExitFailure = 1"
| "exit_code ExitUsageError = 2"

definition main :: "filesystem \<Rightarrow> string \<Rightarrow> string \<Rightarrow> ((string, string) gomap \<Rightarrow> 'w \<Rightarrow> ExitStatus outcome \<times> 'w) \<Rightarrow> 'w \<Rightarrow>
    nat outcome \<times> 'w" where
  "main fs home configFilePath Execute s =
     (case LoadFlagsFromConfig fs home configFilePath [] of
        Inl e \<Rightarrow> (Returns 1, s)
      | Inr conf \<Rightarrow>
          (case Execute conf s of
             (Returns st, s') \<Rightarrow> (Returns (exit_code st), s')
           | (Blocks, s') \<Rightarrow> (Blocks, s')
           | (Panics m, s') \<Rightarrow> (Panics m, s')))"

end
