(* ===== verification/Spec2Isabelle.thy ===== *)
theory Spec2Isabelle
  imports Process
begin

text \<open>
  \<^bold>\<open>Verification of wig\<close>, a WireGuard network manager. A primary datastore keeps interfaces,
  peers and access tokens in SQLite and a numbered log of all changes; follower datastores and
  gateways replay the log, the latter into the WireGuard devices of the kernel. Operators reach
  the datastore over HTTP, from the command line.

  \<^bold>\<open>Conventions.\<close> A Go call is a function of its state that gives an \<open>outcome\<close>: it returns,
  blocks or panics; \<open>'a result\<close> is a value or an \<open>error\<close>, with \<^verbatim>\<open>errors.Is\<close> as \<open>errors_Is\<close>
  (theory Prelude). Times are nanoseconds, sequence numbers 64-bit words, Go maps association
  lists, and whoever ranges over a map gets the order as an argument. What is not part of the
  repository is an argument: the failures of the database engine (\<open>sqlenv\<close>), the key functions
  of WireGuard (\<open>wgkeys\<close>), netlink and wgctrl (\<open>kernel\<close>), cidranger (\<open>ranger\<close>), the TLS library
  (\<open>tlslib\<close>), the GeoIP databases, the network, the clock, random bytes and files. Where a
  theorem needs something of them it is a hypothesis with a name (\<open>kernel_law\<close>, \<open>kernel_works\<close>, \<open>ranger_law\<close>),
  which the witnesses discharge for a concrete instance. Definitions keep the names of the code.

  \<^bold>\<open>The parts, bottom up.\<close>

  \<^item> Go_Strings, Go_Net, Go_Net6, Go_JSON: the parts of Go's \<^verbatim>\<open>strings\<close>, \<^verbatim>\<open>strconv\<close>, \<^verbatim>\<open>net\<close> and
    \<^verbatim>\<open>encoding/json\<close> that the code uses, and that a printed IPv4 or IPv6 address is read back. A
    JSON document is a tree, not a text.
  \<^item> Cidr, Data_Model: \<^verbatim>\<open>datastore/model\<close>. Peers, interfaces, tokens and networks as records, with
    their database and JSON forms; the forms are read back unchanged.
  \<^item> Sqlite, Schema, Tables: \<^verbatim>\<open>datastore/sqlite\<close> and \<^verbatim>\<open>datastore/migrations.go\<close>. Transactions
    (\<open>WithTx\<close>: only what is committed lasts), migrations as statements on a catalog, and the meaning
    of the statements the code builds on tables with keys and cascading references. Migrations are
    all or nothing.
  \<^item> Crud, Crud_Props: \<^verbatim>\<open>datastore/crud\<close>. The registry of types, the dispatcher, table adapters,
    the encoding of values. The lemmas give the effect of each operation on the tables
    (\<open>Create_effect\<close>, \<open>Update_effect\<close>, \<open>Delete_effect\<close>), the integrity \<open>tables_inv\<close>, storing and
    finding again.
  \<^item> Oplog, Pubsub, Crudlog: \<^verbatim>\<open>datastore/crudlog\<close> (\<^verbatim>\<open>op.go\<close>, \<^verbatim>\<open>sql.go\<close>, \<^verbatim>\<open>pubsub.go\<close>,
    \<^verbatim>\<open>log.go\<close>). Log entries, the fan-out to bounded channels, sink, source and writer. The contract
    of the datastore is \<open>represents\<close>: its state is a list of operations numbered from 1, of which
    tables, log and counter are a function. Log_Props shows that \<open>Apply\<close> refines appending to that
    list. \<open>represents\<close> speaks of databases that were filled through the log; rows written past it
    (sessions, the first token) are outside of it.
  \<^item> Replication: subscriptions while the datastore is written to, as a step relation \<open>sys_step\<close>
    with the moves of each operation through the channels of \<^verbatim>\<open>Notify\<close>. In every reachable state a
    subscriber has seen a gapless part of the log, and from every reachable state it can be
    brought up to date.
  \<^item> Follow: \<^verbatim>\<open>follow.go\<close>. The interfaces \<open>LogSource\<close> and \<open>LogSink\<close> are records of functions;
    the locale \<open>log_sink\<close> is the contract that lets a round resume where the last one stopped, with
    the datastore and the gateway as its instances. A following datastore is a prefix of the
    primary; in a whole round of \<open>doFollow\<close>, from connecting on and with writes going on
    meanwhile, it ends equal to it.
  \<^item> Transport, Auth, Remote_Crud, Remote_Log: \<^verbatim>\<open>httptransport\<close>, \<^verbatim>\<open>httpapi\<close>, \<^verbatim>\<open>remote.go\<close>,
    \<^verbatim>\<open>client.go\<close>. Requests and responses, the registry of errors, tokens, certificates and roles,
    routing, the handlers and clients. Writes and subscriptions over HTTP are those of the server.
  \<^item> Config, Commands: \<^verbatim>\<open>util\<close>, \<^verbatim>\<open>command.go\<close>, \<^verbatim>\<open>rest.go\<close>, \<^verbatim>\<open>init.go\<close>. Configuration files,
    flags, TLS settings, the subcommands for objects and \<^verbatim>\<open>wig init\<close>.
  \<^item> Iprange, Registration, Sessions, Expire: the packages of these names. Addresses as numbers
    and the choice of a free one, for IPv4 and IPv6, the history of sessions, the deletion of old peers.
  \<^item> Gateway, Gateway_Props: \<^verbatim>\<open>gateway\<close>. The sink that configures the devices. \<open>mirror\<close> relates
    devices and tables; operations keep it, and a gateway that follows a datastore ends with its
    tables in the kernel, given a kernel that works (\<open>kernel_works\<close>) and a log of operations that a
    gateway accepts (\<open>tracks\<close>).
  \<^item> Server, Process: \<^verbatim>\<open>cmd/wig\<close> (\<^verbatim>\<open>api.go\<close>, \<^verbatim>\<open>gw.go\<close>, \<^verbatim>\<open>main.go\<close>). The API server with all its
    routes, the steps it takes over time (\<open>api_step\<close>: requests, expiration, dumps of sessions, rounds of
    following), the gateway process. Every route asks for a permission; the database stays
    consistent; a request stays within its type. The locale \<open>sink_invariant\<close> carries an invariant of a
    sink through a round of following.
  \<^item> This theory puts the parts together: a peer created on the command line reaches the kernel
    of a gateway.

  \<^bold>\<open>What fails.\<close> Several theorems state what the code does where it does not do what it means
    to: snapshots cannot be taken, sent or loaded, nothing expires, sessions do not survive a
    restart, the delete command deletes nothing, some logged operations break every gateway,
    certificate authentication refuses everybody.

  \<^bold>\<open>Bounds.\<close> Loops are structural recursions, except for the generator of addresses and the retry
  of \<open>follow_connect\<close>, which have termination proofs. The only fuel is the size of the stack in
  \<open>dispatcher_DeleteAll\<close>, whose recursion has no end: it gives \<open>None\<close> for every size. Theorems
  on the log assume fewer than \<open>2 ^ 63\<close> entries, the most the integer column of SQLite holds.

  \<^bold>\<open>Not modelled.\<close> The interleaving of goroutines inside a call: a call is one step, except for
  subscriptions, whose internal moves are steps of their own; mutexes and the lifetimes of tickers
  and contexts only show in which steps there are. What is logged, printed or exported as metrics,
  except for the values \<^verbatim>\<open>Collect\<close> gathers. HTTP headers other than those the code reads, timeouts
  and signals. Texts of JSON and SQL beyond what the code takes apart. The subcommands' help texts.
  \<^verbatim>\<open>test/driver.go\<close>, which drives virtual machines. Declarations of Go interfaces have no definition of
  their own beside the records and arguments that implement them.
\<close>

section \<open>From the command line to the kernel\<close>

text \<open>A subscriber that has just been added has room, and so have the others if they had.\<close>

lemma room_after_subscribe:
  assumes "represents wg os d" "Subscribe env (Model wg) start (d, p) = (Returns (Inr sub), (d, p1))"
    and "pubsub_inv p" "list_all (has_room p) (ps_subscribers p)"
  shows "list_all (has_room p1) (ps_subscribers p1) \<and> pubsub_inv p1"
proof -
  have p1: "p1 = AddSubscriber (ps_next p) (snd (make_chan p))" using Subscribe_success [OF assms(1,2)] by simp
  moreover have "pubsub_inv p1" unfolding p1 by (rule pubsub_inv_subscribe [OF assms(3)]) (simp add: make_chan_def)
  ultimately show ?thesis
    using assms(4) by (auto simp: AddSubscriber_def make_chan_def has_room_def chanBufSize_def list_all_iff)
qed

lemma create_peer_command:
  assumes "invokes iv origin user pw" "origin \<noteq> []" "\<not> strings_HasSuffix origin ''/''" "user \<noteq> []"
    and "map_order (Model wg) (iv_ord iv)" "map_order (Model wg) srv_ord"
    and "iv_net iv None = serve origin (crud_server wg srv_ord (datastore_API sql_ok wg now []) authn authz)"
    and "\<And>req. rq_basic req = Some (user, pw) \<Longrightarrow> admits (API_New authn authz) ''write-peer'' req s"
    and "c = newRestCommand (Model wg) (PeerType wg) apiURLBase ''create''"
    and "ad_newFnValues (PeerType wg) (fieldValues c iv) = Inr (OPeer peer)" "obj_wf (OPeer peer)"
    and "Apply sql_ok (Model wg) (newOp now OpCreate (OPeer peer)) False s = (Returns (Inr ()), s')"
  shows "create_Execute c iv s = (Returns ExitSuccess, s')"
proof -
  let ?api = "datastore_API sql_ok wg now [] :: (db \<times> pubsub, rw \<times> nat) crud_API"
  have ad: "adapter_of wg (OPeer peer) = PeerType wg" by (simp add: adapter_of_def)
  have "ca_Create ?api (OPeer peer) s = (Returns (Inr ()), s')"
    using assms(12) by (simp add: datastore_API_def writer_Create_def)
  then show ?thesis
    using write_commands_http [OF assms(1-7), of "OPeer peer" s c "''create''"] assms(8-11) by (simp add: ad)
qed

text \<open>
  C8: a peer that is created on the command line reaches the kernel of a gateway. The gateway
  mirrors the datastore and connects to it; then the command that creates a peer is run, with
  the token of a user who may, for a peer with an address on an interface of the datastore.
  The command succeeds, and once the gateway has read what it is sent, the device of that
  interface has the peer with exactly its addresses.
\<close>

theorem created_peer_reaches_kernel:
  assumes cmd: "invokes iv origin user pw" "origin \<noteq> []" "\<not> strings_HasSuffix origin ''/''" "user \<noteq> []"
      "map_order (Model wg) (iv_ord iv)" "map_order (Model wg) srv_ord"
      "iv_net iv None = serve origin (crud_server wg srv_ord (datastore_API sql_ok wg now []) authn authz)"
      "\<And>req p1. rq_basic req = Some (user, pw) \<Longrightarrow> admits (API_New authn authz) ''write-peer'' req (sys_db s, p1)"
      "c = newRestCommand (Model wg) (PeerType wg) apiURLBase ''create''"
      "ad_newFnValues (PeerType wg) (fieldValues c iv) = Inr (OPeer peer)"
    and peer: "obj_wf (OPeer peer)" "key_ok wg peer" "allowed_ips peer \<noteq> []"
      "has_key (db_tables (sys_db s) ''interfaces'') ''name'' (peer_Interface peer)"
      "\<not> has_key (db_tables (sys_db s) ''peers'') ''public_key'' (peer_PublicKey peer)"
    and s: "sys_reach wg s" "represents wg os (sys_db s)" "Suc (length os) < 2 ^ 63"
      "list_all (has_room (sys_ps s)) (ps_subscribers (sys_ps s))"
    and gw: "kernel_law kn devs" "kernel_works kn devs" "stored (db_tables (sys_db s)) is ps" "mirror (devs k) is ps gw"
      "gw_seq gw = of_nat (length os)"
  shows "\<exists>sub p1 s1 d2 p2 s' gw' k' m.
    s1 = s\<lparr>sys_ps := p1, sys_subs := sys_subs s @ [Notify (gw_seq gw + 1) sub]\<rparr> \<and> sys_step wg s s1 \<and>
    create_Execute c iv (sys_db s1, sys_ps s1) = (Returns ExitSuccess, (d2, p2)) \<and>
    (deliver_step (length (sys_subs s)))\<^sup>*\<^sup>* (s1\<lparr>sys_db := d2, sys_ps := p2\<rparr>) s' \<and>
    doFollow (datastore_source src_ord wg) (gateway_sink wg kn ord)
      (\<lambda>_. map Received (ss_seen (sys_subs s' ! length (sys_subs s)))) ((sys_db s, sys_ps s), (gw, k)) =
      (Blocks, ((sys_db s, p1), (gw', k'))) \<and>
    devs k' (peer_Interface peer) = Some m \<and> m (peer_PublicKey peer) = Some (allowed_ips peer)"
proof -
  let ?o = "newOp now OpCreate (OPeer peer)" and ?d = "sys_db s" and ?dst = "gateway_sink wg kn ord" and ?i = "length (sys_subs s)"
  have q: "snk_LatestSequence ?dst (gw, k) = gw_seq gw" by (simp add: gateway_sink_def gateway_LatestSequence_def)
  obtain sub p1 where sub: "Subscribe sql_ok (Model wg) (gw_seq gw + 1) (?d, sys_ps s) = (Returns (Inr sub), (?d, p1))"
      "sub_ch sub \<in> set (ps_subscribers p1)"
    and conn: "follow_connect (datastore_source src_ord wg) ?dst True (gw_seq gw) ((?d, sys_ps s), (gw, k)) =
      (Returns (Inr sub), ((?d, p1), (gw, k)))"
    and next_seq: "unat (gw_seq gw + 1) = Suc (length os)"
    by (rule source_connects [OF s(2) _ order.refl s(3), of ?dst "(gw, k)" "sys_ps s" src_ord, unfolded q]) (simp add: gw(5))
  let ?s1 = "s\<lparr>sys_ps := p1, sys_subs := sys_subs s @ [Notify (gw_seq gw + 1) sub]\<rparr>"
  have step: "sys_step wg s ?s1" using sys_step.subscribes [OF sub(1)] by simp
  have "pubsub_inv (sys_ps s)" using sys_inv_reach [OF s(1)] by (auto simp: sys_inv_def)
  then have p1: "list_all (has_room p1) (ps_subscribers p1)" "pubsub_inv p1"
    using room_after_subscribe [OF s(2) sub(1) _ s(4)] by simp_all
  have tabs: "ApplyOp sql_ok (Model wg) ?o (db_tables ?d) =
      Inr ((db_tables ?d)(''peers'' := db_tables ?d ''peers'' @ [db_fields (OPeer peer)]))"
    using peer(4,5) by (simp add: ApplyOp_def newOp_def Create_effect)
  obtain d2 p2 where ap: "Apply sql_ok (Model wg) ?o False (?d, p1) = (Returns (Inr ()), (d2, p2))"
    and "p2 = delivered (WithSequence (of_nat (Suc (length os))) ?o) p1"
    using Apply_new [OF s(2,3) tabs p1(2)] p1(1) by auto
  with sub(2) peer(1) obtain s' x where s': "(deliver_step ?i)\<^sup>*\<^sup>* (?s1\<lparr>sys_db := d2, sys_ps := p2\<rparr>) s'"
    and x: "ss_seen (sys_subs s' ! ?i) = [x]" "untimed x = untimed (WithSequence (of_nat (Suc (length os))) ?o)"
    by (auto intro: next_operation_read [OF s(1,2) sub(1) next_seq ap] simp: newOp_def delivered_def)
  have run: "create_Execute c iv (?d, p1) = (Returns ExitSuccess, (d2, p2))"
    by (rule create_peer_command [OF cmd peer(1) ap])
  have same: "ApplyOp sql_ok (Model wg) x = ApplyOp sql_ok (Model wg) ?o" "op_typ x = OpCreate" "op_value x = OPeer peer"
    using arg_cong [OF x(2), of op_typ] arg_cong [OF x(2), of op_value] arg_cong [OF x(2), of "ApplyOp sql_ok (Model wg)"]
    by (simp_all add: newOp_def)
  have "accepted wg (db_tables ?d) x"
    using same(2,3) peer(2,3) by (simp add: accepted_def covered_def OpType_defs)
  moreover have "tables_inv (db_tables ?d)" using s(2) replay_inv tables_inv_empty by (auto simp: represents_def)
  ultimately obtain gw' k' m where "gateway_Apply wg kn x True (gw, k) = (Returns (Inr ()), (gw', k'))"
    and dev: "devs k' (peer_Interface peer) = Some m" "m (peer_PublicKey peer) = Some (allowed_ips peer)"
    using created_peer_configured [OF gw(1,2) _ gw(3,4) _ same(2,3)] tabs same(1) by metis
  then have "apply_all ?dst [x] (gw, k) = Some (gw', k')" by (simp add: gateway_sink_def)
  note follow = doFollow_received [OF conn [folded q] this, folded x(1)]
  show ?thesis
    by (rule exI [of _ sub], rule exI [of _ p1], rule exI [of _ ?s1], rule exI [of _ d2], rule exI [of _ p2],
        rule exI [of _ s'], rule exI [of _ gw'], rule exI [of _ k'], rule exI [of _ m])
      (use step run s' follow dev in simp)
qed

definition sample_peer :: Peer where
  "sample_peer = Peer_zero\<lparr>peer_PublicKey := ''pk1'', peer_IP := Some (v4_CIDR 10 0 0 1 24), peer_Interface := ''wg0''\<rparr>"

definition peer_invocation :: "'w network \<Rightarrow> 'w invocation" where
  "peer_invocation net = (sample_invocation [] net)\<lparr>iv_given := [(''url'', ''http://localhost:5005''), (''auth-token'', ''root''),
     (''auth-secret'', ''pw''), (''public-key'', ''pk1''), (''ip'', ''10.0.0.1/24''), (''interface'', ''wg0'')]\<rparr>"

lemma peer_values:
  "Peer_from_values sample_wg (fieldValues (newRestCommand m (PeerType wg) url verb) (peer_invocation net)) = Inr (OPeer sample_peer)"
  using sample_address
  by (simp add: Peer_from_values_def fieldValues_def newRestCommand_def PeerType_def NewSQLTableType_def Values_Get_def iv_flag_def
      flag_value_def peer_invocation_def sample_invocation_def flagName_def opt_CIDR_def sample_peer_def sample_wg_def Peer_zero_def)

theorem created_peer_reaches_kernel_witness:
  "\<exists>s p1 d2 p2 (s' :: sys) gw k gw' k' m. sys_reach sample_wg s \<and>
    create_Execute (newRestCommand (Model sample_wg) (PeerType sample_wg) apiURLBase ''create'')
      (peer_invocation (serve ''http://localhost:5005''
        (crud_server sample_wg [''peer'', ''interface'', ''token''] (datastore_API sql_ok sample_wg 5 []) NilAuthn NilAuthz)))
      (sys_db s, p1) = (Returns ExitSuccess, (d2, p2)) \<and>
    doFollow (datastore_source [] sample_wg) (gateway_sink sample_wg sample_kernel [])
      (\<lambda>_. map Received (ss_seen (sys_subs s' ! 1))) ((sys_db s, sys_ps s), (gw, k)) =
      (Blocks, ((sys_db s, p1), (gw', k'))) \<and>
    k' ''wg0'' = Some m \<and> m ''pk1'' = Some [v4_CIDR 10 0 0 1 24]"
proof -
  let ?iv = "peer_invocation (serve ''http://localhost:5005''
    (crud_server sample_wg [''peer'', ''interface'', ''token''] (datastore_API sql_ok sample_wg 5 []) NilAuthn NilAuthz))"
  let ?c = "newRestCommand (Model sample_wg) (PeerType sample_wg) apiURLBase ''create''"
  let ?o = "untimed (WithSequence 1 sample_op)"
  obtain d where d: "sys_reach sample_wg
      \<lparr>sys_db = d, sys_ps = delivered (WithSequence 1 sample_op) sample_ps, sys_subs = [sample_sub]\<rparr>" (is "sys_reach _ ?s")
    "represents sample_wg [?o] d"
    by (rule sample_follow)
  have rep: "represents sample_wg [?o] (sys_db ?s)" "Suc (length [?o]) < 2 ^ 63"
    "list_all (has_room (sys_ps ?s)) (ps_subscribers (sys_ps ?s))"
    using d(2) by (simp_all add: delivered_def sample_ps_simps has_room_def chanBufSize_def)
  have tabs: "db_tables (sys_db ?s) = sample_tables"
    using d(2) ApplyOp_sample [of sample_wg] by (simp add: represents_def empty_db_def)
  obtain gw k "is" ps where g: "stored (db_tables (sys_db ?s)) is ps" "mirror k is ps gw" "gw_seq gw = of_nat (length [?o])"
    unfolding tabs using sample_gateway_mirrors by auto
  have cmd: "invokes ?iv ''http://localhost:5005'' ''root'' ''pw''" "''http://localhost:5005'' \<noteq> []"
      "\<not> strings_HasSuffix ''http://localhost:5005'' ''/''" "''root'' \<noteq> []" "map_order (Model sample_wg) (iv_ord ?iv)"
      "iv_net ?iv None = serve ''http://localhost:5005''
        (crud_server sample_wg [''peer'', ''interface'', ''token''] (datastore_API sql_ok sample_wg 5 []) NilAuthn NilAuthz)"
    by (simp_all add: invokes_def iv_flag_def flag_value_def peer_invocation_def sample_invocation_def map_order_def
        byName_Model_keys strings_HasSuffix_def strings_HasPrefix_def)
  have adm: "admits (API_New NilAuthn NilAuthz) ''write-peer'' req (sys_db ?s, p1 :: pubsub)" for req p1
    by (simp add: admits_def API_New_def NilAuthn_def NilAuthz_def)
  have new: "ad_newFnValues (PeerType sample_wg) (fieldValues ?c ?iv) = Inr (OPeer sample_peer)"
    using peer_values by (simp add: PeerType_def NewSQLTableType_def)
  have none: "CIDR_textual None" by (simp add: CIDR_textual_def)
  have peer: "obj_wf (OPeer sample_peer)" "key_ok sample_wg sample_peer" "allowed_ips sample_peer \<noteq> []"
      "has_key (db_tables (sys_db ?s) ''interfaces'') ''name'' (peer_Interface sample_peer)"
      "\<not> has_key (db_tables (sys_db ?s) ''peers'') ''public_key'' (peer_PublicKey sample_peer)"
    unfolding tabs
    by (simp_all add: sample_peer_def Peer_zero_def CIDR_textual_v4 none key_ok_def sample_wg_def allowed_ips_def has_key_def
        sample_tables_def sample_interface_def Interface_zero_def)
  have ips: "allowed_ips sample_peer = [v4_CIDR 10 0 0 1 24]" "peer_Interface sample_peer = ''wg0''"
      "peer_PublicKey sample_peer = ''pk1''" "length (sys_subs ?s) = 1"
    by (simp_all add: sample_peer_def Peer_zero_def allowed_ips_def)
  from created_peer_reaches_kernel [where devs = "\<lambda>k. k" and k = k and ord = "[]" and src_ord = "[]",
      OF cmd(1-5) map_order_sample cmd(6) adm refl new peer d(1) rep kernel_law_sample kernel_works_sample g]
  obtain sub p1 s1 d2 p2 gw' k' m and s' :: sys
    where s1: "s1 = ?s\<lparr>sys_ps := p1, sys_subs := sys_subs ?s @ [Notify (gw_seq gw + 1) sub]\<rparr>"
      and run: "create_Execute ?c ?iv (sys_db s1, sys_ps s1) = (Returns ExitSuccess, (d2, p2))"
      and follow: "doFollow (datastore_source [] sample_wg) (gateway_sink sample_wg sample_kernel [])
        (\<lambda>_. map Received (ss_seen (sys_subs s' ! 1))) ((sys_db ?s, sys_ps ?s), (gw, k)) =
        (Blocks, ((sys_db ?s, p1), (gw', k')))"
      and dev: "k' ''wg0'' = Some m" "m ''pk1'' = Some [v4_CIDR 10 0 0 1 24]"
    unfolding ips by blast
  have "create_Execute ?c ?iv (sys_db ?s, p1) = (Returns ExitSuccess, (d2, p2))" using run by (simp add: s1)
  with d(1) follow dev show ?thesis
    by (intro exI [of _ ?s] exI [of _ p1] exI [of _ d2] exI [of _ p2] exI [of _ s'] exI [of _ gw] exI [of _ k]
        exI [of _ gw'] exI [of _ k'] exI [of _ m] conjI)
qed

end
